(* ===== verification/Effects.thy ===== *)
theory Effects
  imports Prelude
begin

text \<open>
  The effects of the program's asynchronous code. An \<^verbatim>\<open>async\<close> function is an action: from a
  state it gives an outcome and the state it leaves. The outcome is the value the promise
  resolves to, the error it rejects with, or a crash of the process, after which no
  \<^verbatim>\<open>catch\<close> or \<^verbatim>\<open>finally\<close> block runs.

  Everything the program awaits outside its own code (PostgreSQL, Redis, the object store, the
  file system, the network) can fail. A \<^term>\<open>fault\<close> says how one such call fails: it rejects
  before it takes effect, it rejects although it took effect (a lost acknowledgement), or the
  process dies on either side of it. Every handler takes the faults of its calls as a parameter,
  so a statement about a handler is a statement about every pattern of failures.
\<close>

section \<open>Errors\<close>

text \<open>The errors the program throws and tells apart: its own \<^verbatim>\<open>NonRetryableError\<close>, TypeORM's
  \<^verbatim>\<open>QueryFailedError\<close> with the driver's SQLSTATE, the HTTP exceptions of NestJS (status and
  name), the object store's errors (name and HTTP status) and every other \<^verbatim>\<open>Error\<close> (name).\<close>

datatype js_error =
    NonRetryableError (err_message: string)
  | QueryFailedError (err_code: string) (err_message: string)
  | HttpException (err_status: int) (err_label: string) (err_message: string)
  | S3Error (err_label: string) (s3_status: "int option") (err_message: string)
  | JsError (err_label: string) (err_message: string)

fun err_name :: "js_error \<Rightarrow> string" where
  "err_name (NonRetryableError m) = ''NonRetryableError''"
| "err_name (QueryFailedError c m) = ''QueryFailedError''"
| "err_name (HttpException s n m) = n"
| "err_name (S3Error n s m) = n"
| "err_name (JsError n m) = n"

fun is_NonRetryable :: "js_error \<Rightarrow> bool" where
  "is_NonRetryable (NonRetryableError m) = True"
| "is_NonRetryable _ = False"

section \<open>Actions\<close>

datatype 'a outcome = Done 'a | Raised js_error | Crashed

type_synonym ('w, 'a) act = "'w \<Rightarrow> 'a outcome \<times> 'w"

datatype fault = Healthy | FailBefore js_error | FailAfter js_error | CrashBefore | CrashAfter

definition ret :: "'a \<Rightarrow> ('w, 'a) act" where
  "ret a = (\<lambda>w. (Done a, w))"

definition throw :: "js_error \<Rightarrow> ('w, 'a) act" where
  "throw e = (\<lambda>w. (Raised e, w))"

definition gets :: "('w \<Rightarrow> 'a) \<Rightarrow> ('w, 'a) act" where
  "gets f = (\<lambda>w. (Done (f w), w))"

definition modify :: "('w \<Rightarrow> 'w) \<Rightarrow> ('w, unit) act" where
  "modify g = (\<lambda>w. (Done (), g w))"

definition bnd :: "('w, 'a) act \<Rightarrow> ('a \<Rightarrow> ('w, 'b) act) \<Rightarrow> ('w, 'b) act" where
  "bnd m k = (\<lambda>w. case m w of
       (Done a, w') \<Rightarrow> k a w'
     | (Raised e, w') \<Rightarrow> (Raised e, w')
     | (Crashed, w') \<Rightarrow> (Crashed, w'))"

definition seq :: "('w, 'a) act \<Rightarrow> ('w, 'b) act \<Rightarrow> ('w, 'b) act" where
  "seq m n = bnd m (\<lambda>_. n)"

text \<open>\<^verbatim>\<open>try { m } catch (e) { h(e) }\<close>\<close>

definition try_catch :: "('w, 'a) act \<Rightarrow> (js_error \<Rightarrow> ('w, 'a) act) \<Rightarrow> ('w, 'a) act" where
  "try_catch m h = (\<lambda>w. case m w of
       (Done a, w') \<Rightarrow> (Done a, w')
     | (Raised e, w') \<Rightarrow> h e w'
     | (Crashed, w') \<Rightarrow> (Crashed, w'))"

text \<open>\<^verbatim>\<open>try { m } finally { g }\<close> for a block \<^verbatim>\<open>g\<close> that only assigns.\<close>

definition try_finally :: "('w, 'a) act \<Rightarrow> ('w \<Rightarrow> 'w) \<Rightarrow> ('w, 'a) act" where
  "try_finally m g = (\<lambda>w. case m w of
       (Done a, w') \<Rightarrow> (Done a, g w')
     | (Raised e, w') \<Rightarrow> (Raised e, g w')
     | (Crashed, w') \<Rightarrow> (Crashed, w'))"

text \<open>One awaited call of an outside service.\<close>

definition await :: "fault \<Rightarrow> ('w, 'a) act \<Rightarrow> ('w, 'a) act" where
  "await f m = (\<lambda>w. case f of
       Healthy \<Rightarrow> m w
     | FailBefore e \<Rightarrow> (Raised e, w)
     | FailAfter e \<Rightarrow> (Raised e, snd (m w))
     | CrashBefore \<Rightarrow> (Crashed, w)
     | CrashAfter \<Rightarrow> (Crashed, snd (m w)))"

text \<open>
  A database transaction whose body \<open>m\<close> only touches the database: an error or a crash in the
  body rolls it back, and so does a failure before the commit took effect; \<open>c\<close> is the fault of
  the commit.
\<close>

definition transaction :: "fault \<Rightarrow> ('w, 'a) act \<Rightarrow> ('w, 'a) act" where
  "transaction c m = (\<lambda>w. case m w of
       (Done a, w') \<Rightarrow> (case c of
           Healthy \<Rightarrow> (Done a, w')
         | FailBefore e \<Rightarrow> (Raised e, w)
         | FailAfter e \<Rightarrow> (Raised e, w')
         | CrashBefore \<Rightarrow> (Crashed, w)
         | CrashAfter \<Rightarrow> (Crashed, w'))
     | (Raised e, w') \<Rightarrow> (Raised e, w)
     | (Crashed, w') \<Rightarrow> (Crashed, w))"

text \<open>\<^verbatim>\<open>for (const x of xs) await f(x)\<close>\<close>

fun for_each :: "('a \<Rightarrow> ('w, unit) act) \<Rightarrow> 'a list \<Rightarrow> ('w, unit) act" where
  "for_each f [] = ret ()"
| "for_each f (x # xs) = seq (f x) (for_each f xs)"

lemmas act_defs = ret_def throw_def gets_def modify_def bnd_def seq_def try_catch_def
  try_finally_def await_def transaction_def

section \<open>Reasoning about actions\<close>

text \<open>\<open>triple P m Q\<close>: from every state with \<open>P\<close>, the outcome and the state that \<open>m\<close> leaves
  satisfy \<open>Q\<close>, whatever the outcome is. Actions are total, so this is total correctness.\<close>

definition triple :: "('w \<Rightarrow> bool) \<Rightarrow> ('w, 'a) act \<Rightarrow> ('a outcome \<Rightarrow> 'w \<Rightarrow> bool) \<Rightarrow> bool" where
  "triple P m Q \<longleftrightarrow> (\<forall>w. P w \<longrightarrow> Q (fst (m w)) (snd (m w)))"

text \<open>\<open>keeps P m\<close>: \<open>m\<close> keeps the invariant \<open>P\<close>, whatever its outcome.\<close>

definition keeps :: "('w \<Rightarrow> bool) \<Rightarrow> ('w, 'a) act \<Rightarrow> bool" where
  "keeps P m \<longleftrightarrow> (\<forall>w. P w \<longrightarrow> P (snd (m w)))"

text \<open>\<open>frame f m\<close>: \<open>m\<close> leaves the part \<open>f\<close> of the state as it is.\<close>

definition frame :: "('w \<Rightarrow> 'b) \<Rightarrow> ('w, 'a) act \<Rightarrow> bool" where
  "frame f m \<longleftrightarrow> (\<forall>w. f (snd (m w)) = f w)"

lemma keepsD: "keeps P m \<Longrightarrow> P w \<Longrightarrow> P (snd (m w))"
  by (simp add: keeps_def)

lemma frameD: "frame f m \<Longrightarrow> f (snd (m w)) = f w"
  by (simp add: frame_def)

lemma frame_runD: "frame f m \<Longrightarrow> m w = (r, w') \<Longrightarrow> f w' = f w"
  by (metis frameD snd_conv)

lemma tripleD: "triple P m Q \<Longrightarrow> P w \<Longrightarrow> Q (fst (m w)) (snd (m w))"
  by (simp add: triple_def)

lemma keeps_ret [eff]: "keeps P (ret a)"
  by (simp add: keeps_def ret_def)

lemma keeps_throw [eff]: "keeps P (throw e)"
  by (simp add: keeps_def throw_def)

lemma keeps_gets [eff]: "keeps P (gets f)"
  by (simp add: keeps_def gets_def)

lemma keeps_modify: "(\<And>w. P w \<Longrightarrow> P (g w)) \<Longrightarrow> keeps P (modify g)"
  by (simp add: keeps_def modify_def)

lemma keeps_bnd [eff]: "keeps P m \<Longrightarrow> (\<And>a. keeps P (k a)) \<Longrightarrow> keeps P (bnd m k)"
  by (fastforce simp: keeps_def bnd_def split: prod.splits outcome.splits)

lemma keeps_seq [eff]: "keeps P m \<Longrightarrow> keeps P n \<Longrightarrow> keeps P (seq m n)"
  by (simp add: seq_def keeps_bnd)

lemma keeps_try_catch [eff]: "keeps P m \<Longrightarrow> (\<And>e. keeps P (h e)) \<Longrightarrow> keeps P (try_catch m h)"
  by (fastforce simp: keeps_def try_catch_def split: prod.splits outcome.splits)

lemma keeps_try_finally [eff]:
  "keeps P m \<Longrightarrow> (\<And>w. P w \<Longrightarrow> P (g w)) \<Longrightarrow> keeps P (try_finally m g)"
  by (fastforce simp: keeps_def try_finally_def split: prod.splits outcome.splits)

lemma keeps_await [eff]: "keeps P m \<Longrightarrow> keeps P (await f m)"
  by (auto simp: keeps_def await_def split: fault.splits)

lemma keeps_transaction [eff]: "keeps P m \<Longrightarrow> keeps P (transaction c m)"
  by (fastforce simp: keeps_def transaction_def split: prod.splits outcome.splits fault.splits)

lemma keeps_for_each [eff]: "(\<And>x. x \<in> set xs \<Longrightarrow> keeps P (f x)) \<Longrightarrow> keeps P (for_each f xs)"
  by (induction xs) (auto intro: eff)

lemma keeps_if [eff]: "(b \<Longrightarrow> keeps P m) \<Longrightarrow> (\<not> b \<Longrightarrow> keeps P n) \<Longrightarrow> keeps P (if b then m else n)"
  by simp

lemma keeps_option [eff]:
  "(x = None \<Longrightarrow> keeps P m) \<Longrightarrow> (\<And>a. x = Some a \<Longrightarrow> keeps P (k a)) \<Longrightarrow>
   keeps P (case x of None \<Rightarrow> m | Some a \<Rightarrow> k a)"
  by (cases x) auto

text \<open>A frame is a family of invariants, so its rules follow from those of \<^const>\<open>keeps\<close>.\<close>

lemma frame_iff_keeps: "frame f m \<longleftrightarrow> (\<forall>c. keeps (\<lambda>w. f w = c) m)"
  by (auto simp: frame_def keeps_def)

lemma frame_ret [eff]: "frame f (ret a)"
  and frame_throw [eff]: "frame f (throw e)"
  and frame_gets [eff]: "frame f (gets g)"
  by (simp_all add: frame_def act_defs)

lemma frame_modify: "(\<And>w. f (g w) = f w) \<Longrightarrow> frame f (modify g)"
  by (simp add: frame_def modify_def)

lemma frame_bnd [eff]: "frame f m \<Longrightarrow> (\<And>a. frame f (k a)) \<Longrightarrow> frame f (bnd m k)"
  by (simp add: frame_iff_keeps keeps_bnd)

lemma frame_seq [eff]: "frame f m \<Longrightarrow> frame f n \<Longrightarrow> frame f (seq m n)"
  by (simp add: frame_iff_keeps keeps_seq)

lemma frame_try_catch [eff]: "frame f m \<Longrightarrow> (\<And>e. frame f (h e)) \<Longrightarrow> frame f (try_catch m h)"
  by (simp add: frame_iff_keeps keeps_try_catch)

lemma frame_try_finally [eff]:
  "frame f m \<Longrightarrow> (\<And>w. f (g w) = f w) \<Longrightarrow> frame f (try_finally m g)"
  by (simp add: frame_iff_keeps keeps_try_finally)

lemma frame_await [eff]: "frame f m \<Longrightarrow> frame f (await t m)"
  by (simp add: frame_iff_keeps keeps_await)

lemma frame_transaction [eff]: "frame f m \<Longrightarrow> frame f (transaction c m)"
  by (simp add: frame_iff_keeps keeps_transaction)

lemma frame_for_each [eff]: "(\<And>x. x \<in> set xs \<Longrightarrow> frame f (g x)) \<Longrightarrow> frame f (for_each g xs)"
  by (simp add: frame_iff_keeps keeps_for_each)

lemma frame_if [eff]: "(b \<Longrightarrow> frame f m) \<Longrightarrow> (\<not> b \<Longrightarrow> frame f n) \<Longrightarrow> frame f (if b then m else n)"
  by simp

lemma frame_option [eff]:
  "(x = None \<Longrightarrow> frame f m) \<Longrightarrow> (\<And>a. x = Some a \<Longrightarrow> frame f (k a)) \<Longrightarrow>
   frame f (case x of None \<Rightarrow> m | Some a \<Rightarrow> k a)"
  by (cases x) auto

subsection \<open>Triples\<close>

text \<open>The assertion a triple of a sequence needs in the middle: the continuation's precondition
  where the first action returned, the final assertion where it did not.\<close>

definition mid :: "('a \<Rightarrow> 'w \<Rightarrow> bool) \<Rightarrow> ('b outcome \<Rightarrow> 'w \<Rightarrow> bool) \<Rightarrow> 'a outcome \<Rightarrow> 'w \<Rightarrow> bool" where
  "mid R Q r w = (case r of Done a \<Rightarrow> R a w | Raised e \<Rightarrow> Q (Raised e) w | Crashed \<Rightarrow> Q Crashed w)"

lemma mid_simps [simp]:
  "mid R Q (Done a) w = R a w" "mid R Q (Raised e) w = Q (Raised e) w" "mid R Q Crashed w = Q Crashed w"
  by (simp_all add: mid_def)

lemma triple_bnd:
  "triple P m (mid R Q) \<Longrightarrow> (\<And>a. triple (R a) (k a) Q) \<Longrightarrow> triple P (bnd m k) Q"
  by (fastforce simp: triple_def bnd_def split: prod.splits outcome.splits)

lemma triple_seq:
  "triple P m (mid (\<lambda>_. R) Q) \<Longrightarrow> triple R n Q \<Longrightarrow> triple P (seq m n) Q"
  by (simp add: seq_def triple_bnd)

lemma triple_weaken: "triple P' m Q \<Longrightarrow> (\<And>w. P w \<Longrightarrow> P' w) \<Longrightarrow> triple P m Q"
  by (simp add: triple_def)

lemma triple_conseq:
  "triple P' m Q' \<Longrightarrow> (\<And>w. P w \<Longrightarrow> P' w) \<Longrightarrow> (\<And>r w. Q' r w \<Longrightarrow> Q r w) \<Longrightarrow> triple P m Q"
  by (simp add: triple_def)

lemma triple_ret: "(\<And>w. P w \<Longrightarrow> Q (Done a) w) \<Longrightarrow> triple P (ret a) Q"
  by (simp add: triple_def ret_def)

lemma triple_throw: "(\<And>w. P w \<Longrightarrow> Q (Raised e) w) \<Longrightarrow> triple P (throw e) Q"
  by (simp add: triple_def throw_def)

lemma triple_try_catch:
  "triple P m (\<lambda>r w. case r of Raised e \<Rightarrow> R e w | _ \<Rightarrow> Q r w) \<Longrightarrow>
   (\<And>e. triple (R e) (h e) Q) \<Longrightarrow> triple P (try_catch m h) Q"
  by (fastforce simp: triple_def try_catch_def split: prod.splits outcome.splits)

lemma triple_try_finally:
  "triple P m (\<lambda>r w. case r of Crashed \<Rightarrow> Q Crashed w | _ \<Rightarrow> Q r (g w)) \<Longrightarrow>
   triple P (try_finally m g) Q"
  by (fastforce simp: triple_def try_finally_def split: prod.splits outcome.splits)

lemma bnd_Done_iff:
  "bnd m k w = (Done b, w') \<longleftrightarrow> (\<exists>a u. m w = (Done a, u) \<and> k a u = (Done b, w'))"
  by (auto simp: bnd_def split: prod.splits outcome.splits)

lemma seq_Done_iff:
  "seq m n w = (Done b, w') \<longleftrightarrow> (\<exists>a u. m w = (Done a, u) \<and> n u = (Done b, w'))"
  by (simp add: seq_def bnd_Done_iff)

lemma await_Done_iff: "await f m w = (Done a, w') \<longleftrightarrow> f = Healthy \<and> m w = (Done a, w')"
  by (auto simp: await_def split: fault.splits)

lemma transaction_Done_iff:
  "transaction c m w = (Done a, w') \<longleftrightarrow> c = Healthy \<and> m w = (Done a, w')"
  by (auto simp: transaction_def split: fault.splits prod.splits outcome.splits)

lemma throw_not_Done [simp]: "throw e w \<noteq> (Done a, w')"
  by (simp add: throw_def)

lemma ret_Done_iff [simp]: "ret a w = (Done b, w') \<longleftrightarrow> a = b \<and> w = w'"
  by (auto simp: ret_def)

lemma gets_Done_iff [simp]: "gets f w = (Done b, w') \<longleftrightarrow> f w = b \<and> w = w'"
  by (auto simp: gets_def)

lemma modify_Done_iff [simp]: "modify g w = (Done b, w') \<longleftrightarrow> g w = w'"
  by (auto simp: modify_def)

lemma try_catch_Done_iff:
  "try_catch m h w = (Done a, w') \<longleftrightarrow>
   m w = (Done a, w') \<or> (\<exists>e u. m w = (Raised e, u) \<and> h e u = (Done a, w'))"
  by (auto simp: try_catch_def split: prod.splits outcome.splits)

lemma snd_bnd_ret: "snd (bnd m (\<lambda>a. ret (f a)) w) = snd (m w)"
  by (auto simp: bnd_def ret_def split: prod.splits outcome.splits)

lemma snd_try_catch_pure: "(\<And>e u. snd (h e u) = u) \<Longrightarrow> snd (try_catch m h w) = snd (m w)"
  by (auto simp: try_catch_def split: prod.splits outcome.splits)

subsection \<open>Noninterference\<close>

text \<open>\<open>depends f m\<close>: the outcome of \<open>m\<close> and the part \<open>f\<close> of the state it leaves depend on the part \<open>f\<close>
  of the state it starts from and on nothing else.\<close>

definition depends :: "('w \<Rightarrow> 'b) \<Rightarrow> ('w, 'a) act \<Rightarrow> bool" where
  "depends f m \<longleftrightarrow> (\<forall>u w. f u = f w \<longrightarrow> fst (m u) = fst (m w) \<and> f (snd (m u)) = f (snd (m w)))"

lemma dependsD: "depends f m \<Longrightarrow> f u = f w \<Longrightarrow> fst (m u) = fst (m w) \<and> f (snd (m u)) = f (snd (m w))"
  unfolding depends_def by blast

lemma dependsI:
  "(\<And>u w. f u = f w \<Longrightarrow> fst (m u) = fst (m w) \<and> f (snd (m u)) = f (snd (m w))) \<Longrightarrow> depends f m"
  unfolding depends_def by blast

lemma depends_ret [eff]: "depends f (ret a)"
  and depends_throw [eff]: "depends f (throw e)"
  by (simp_all add: depends_def act_defs)

lemma depends_gets: "(\<And>u w. f u = f w \<Longrightarrow> g u = g w) \<Longrightarrow> depends f (gets g)"
  unfolding gets_def by (rule dependsI) (metis fst_conv snd_conv)

lemma depends_modify: "(\<And>u w. f u = f w \<Longrightarrow> f (g u) = f (g w)) \<Longrightarrow> depends f (modify g)"
  unfolding modify_def by (rule dependsI) (metis fst_conv snd_conv)

lemma depends_bnd [eff]:
  assumes "depends f m" "\<And>a. depends f (k a)"
  shows "depends f (bnd m k)"
  unfolding depends_def
proof (intro allI impI)
  fix u w
  assume "f u = f w"
  with dependsD[OF assms(1) this] obtain r u' w' where
    r: "m u = (r, u')" "m w = (r, w')" "f u' = f w'" by (metis prod.collapse)
  with dependsD[OF assms(2) r(3)] show "fst (bnd m k u) = fst (bnd m k w) \<and> f (snd (bnd m k u)) = f (snd (bnd m k w))"
    by (cases r) (simp_all add: bnd_def)
qed

lemma depends_seq [eff]: "depends f m \<Longrightarrow> depends f n \<Longrightarrow> depends f (seq m n)"
  by (simp add: seq_def depends_bnd)

lemma depends_await [eff]:
  assumes "depends f m"
  shows "depends f (await t m)"
proof (rule dependsI)
  fix u w
  assume eq: "f u = f w"
  from eq dependsD[OF assms eq] show "fst (await t m u) = fst (await t m w) \<and> f (snd (await t m u)) = f (snd (await t m w))"
    by (cases t) (simp_all only: await_def fault.case fst_conv snd_conv simp_thms)
qed

lemma depends_transaction [eff]:
  assumes "depends f m"
  shows "depends f (transaction c m)"
  unfolding depends_def
proof (intro allI impI)
  fix u w
  assume eq: "f u = f w"
  with dependsD[OF assms this] obtain r u' w' where
    "m u = (r, u')" "m w = (r, w')" "f u' = f w'" by (metis prod.collapse)
  with eq show "fst (transaction c m u) = fst (transaction c m w) \<and> f (snd (transaction c m u)) = f (snd (transaction c m w))"
    by (cases r; cases c) (simp_all add: transaction_def)
qed

lemma depends_for_each [eff]: "(\<And>x. x \<in> set xs \<Longrightarrow> depends f (g x)) \<Longrightarrow> depends f (for_each g xs)"
  by (induction xs) (auto intro: eff)

lemma depends_if [eff]: "(b \<Longrightarrow> depends f m) \<Longrightarrow> (\<not> b \<Longrightarrow> depends f n) \<Longrightarrow> depends f (if b then m else n)"
  by simp

lemma depends_option [eff]:
  "(x = None \<Longrightarrow> depends f m) \<Longrightarrow> (\<And>a. x = Some a \<Longrightarrow> depends f (k a)) \<Longrightarrow>
   depends f (case x of None \<Rightarrow> m | Some a \<Rightarrow> k a)"
  by (cases x) auto

subsection \<open>Runs without a crash\<close>

text \<open>\<open>calm m\<close>: the process does not die in \<open>m\<close>.\<close>

definition calm :: "('w, 'a) act \<Rightarrow> bool" where
  "calm m \<longleftrightarrow> (\<forall>w w'. m w \<noteq> (Crashed, w'))"

lemma calm_basic [eff]: "calm (ret a)" "calm (throw e)" "calm (gets f)" "calm (modify g)"
  by (simp_all add: calm_def act_defs)

lemma calm_bnd [eff]: "calm m \<Longrightarrow> (\<And>a. calm (k a)) \<Longrightarrow> calm (bnd m k)"
  by (auto simp: calm_def bnd_def split: prod.splits outcome.splits)

lemma calm_seq [eff]: "calm m \<Longrightarrow> calm n \<Longrightarrow> calm (seq m n)"
  by (simp add: seq_def calm_bnd)

lemma calm_try_catch [eff]: "calm m \<Longrightarrow> (\<And>e. calm (h e)) \<Longrightarrow> calm (try_catch m h)"
  by (auto simp: calm_def try_catch_def split: prod.splits outcome.splits)

lemma calm_try_finally [eff]: "calm m \<Longrightarrow> calm (try_finally m g)"
  by (auto simp: calm_def try_finally_def split: prod.splits outcome.splits)

lemma calm_await: "f \<noteq> CrashBefore \<Longrightarrow> f \<noteq> CrashAfter \<Longrightarrow> calm m \<Longrightarrow> calm (await f m)"
  by (cases f) (auto simp: calm_def await_def)

lemma calm_for_each [eff]: "(\<And>x. x \<in> set xs \<Longrightarrow> calm (f x)) \<Longrightarrow> calm (for_each f xs)"
  by (induction xs) (auto intro: eff)

lemma calm_if [eff]: "(b \<Longrightarrow> calm m) \<Longrightarrow> (\<not> b \<Longrightarrow> calm n) \<Longrightarrow> calm (if b then m else n)"
  by simp

lemma calm_option [eff]:
  "(x = None \<Longrightarrow> calm m) \<Longrightarrow> (\<And>a. x = Some a \<Longrightarrow> calm (k a)) \<Longrightarrow> calm (case x of None \<Rightarrow> m | Some a \<Rightarrow> k a)"
  by (cases x) auto

lemma run_pure [simp]:
  "bnd (gets f) k w = k (f w) w" "bnd (ret a) k w = k a w" "seq (modify g) m w = m (g w)"
  "bnd (throw e) k w = (Raised e, w)" "seq (throw e) n w = (Raised e, w)"
  by (simp_all add: act_defs)

lemmas act_Done = bnd_Done_iff seq_Done_iff await_Done_iff transaction_Done_iff

text \<open>With no fault a call is the call itself.\<close>

lemma await_Healthy [simp]: "await Healthy m = m"
  by (simp add: await_def)

end
