(* ===== verification/Tables.thy ===== *)
theory Tables
  imports Prelude "HOL-Library.Multiset"
begin

text \<open>
  Tables of the database. A table is the list of its rows in the order of their insertion; a
  row is found and updated by the value of a key column. The program's queries order by one
  timestamp column and cut the result; rows with equal timestamps keep the table's order here,
  while PostgreSQL leaves their order open, so no property below depends on it.
\<close>

section \<open>Queries\<close>

definition row_find :: "('r \<Rightarrow> 'k) \<Rightarrow> 'k \<Rightarrow> 'r list \<Rightarrow> 'r option" where
  "row_find key i rows = find (\<lambda>r. key r = i) rows"

definition row_update :: "('r \<Rightarrow> 'k) \<Rightarrow> 'k \<Rightarrow> ('r \<Rightarrow> 'r) \<Rightarrow> 'r list \<Rightarrow> 'r list" where
  "row_update key i f rows = map (\<lambda>r. if key r = i then f r else r) rows"

definition order_asc :: "('r \<Rightarrow> int) \<Rightarrow> 'r list \<Rightarrow> 'r list" where
  "order_asc k rows = sort_key k rows"

definition order_desc :: "('r \<Rightarrow> int) \<Rightarrow> 'r list \<Rightarrow> 'r list" where
  "order_desc k rows = sort_key (\<lambda>r. - k r) rows"

lemma set_order [simp]: "set (order_asc k rows) = set rows" "set (order_desc k rows) = set rows"
  by (simp_all add: order_asc_def order_desc_def)

lemma length_order [simp]: "length (order_asc k rows) = length rows" "length (order_desc k rows) = length rows"
  by (simp_all add: order_asc_def order_desc_def)

lemma distinct_order [simp]:
  "distinct (order_asc k rows) = distinct rows" "distinct (order_desc k rows) = distinct rows"
  by (simp_all add: order_asc_def order_desc_def)

lemma distinct_map_order_asc [simp]: "distinct (map g (order_asc k rows)) = distinct (map g rows)"
proof -
  have "mset (map g (sort_key k rows)) = mset (map g rows)"
    by (metis mset_map mset_sort)
  then show ?thesis by (metis mset_eq_imp_distinct_iff order_asc_def)
qed

lemma sorted_order_asc: "sorted (map k (order_asc k rows))"
  by (simp add: order_asc_def)

lemma sorted_order_desc: "sorted_wrt (\<lambda>a b. k b \<le> k a) (order_desc k rows)"
proof -
  have "sorted (map (\<lambda>r. - k r) (order_desc k rows))"
    by (simp add: order_desc_def)
  then show ?thesis by (simp add: sorted_map)
qed

lemma order_asc_Nil [simp]: "order_asc k [] = []"
  by (simp add: order_asc_def)

lemma order_asc_eq_Nil [simp]: "order_asc k rows = [] \<longleftrightarrow> rows = []"
  by (metis length_0_conv length_order(1))

section \<open>The interface of a keyed table\<close>

text \<open>
  What the operations of the program rely on when they update rows by key: the update reaches
  the rows with that key and no others. The facts the components use follow from this law.
\<close>

locale row_store =
  fixes rows :: "'w \<Rightarrow> 'r list"
    and key :: "'r \<Rightarrow> 'k"
    and upd :: "'k \<Rightarrow> ('r \<Rightarrow> 'r) \<Rightarrow> 'w \<Rightarrow> 'w"
  assumes rows_upd: "rows (upd i f w) = row_update key i f (rows w)"
begin

lemma find_upd_same:
  "(\<And>r. key (f r) = key r) \<Longrightarrow>
   row_find key i (rows (upd i f w)) = map_option f (row_find key i (rows w))"
  by (simp add: row_find_def row_update_def rows_upd find_map_if_same)

lemma find_upd_other:
  "(\<And>r. key (f r) = key r) \<Longrightarrow> i \<noteq> j \<Longrightarrow>
   row_find key j (rows (upd i f w)) = row_find key j (rows w)"
  by (simp add: row_find_def row_update_def rows_upd find_map_if_other)

lemma map_upd: "(\<And>r. g (f r) = g r) \<Longrightarrow> map g (rows (upd i f w)) = map g (rows w)"
  by (simp add: row_update_def rows_upd)

lemma all_upd:
  "\<lbrakk>\<And>r. r \<in> set (rows w) \<Longrightarrow> Q r; \<And>r. r \<in> set (rows w) \<Longrightarrow> key r = i \<Longrightarrow> Q (f r)\<rbrakk> \<Longrightarrow>
   r \<in> set (rows (upd i f w)) \<Longrightarrow> Q r"
  by (auto simp: row_update_def rows_upd)

lemma upd_unchanged_if_absent:
  "row_find key i (rows w) = None \<Longrightarrow> rows (upd i f w) = rows w"
  by (auto simp: row_update_def row_find_def rows_upd find_None_iff intro!: map_idI)

end

lemma row_find_SomeD: "row_find key i rows = Some r \<Longrightarrow> r \<in> set rows \<and> key r = i"
  by (auto simp: row_find_def dest: find_Some_set)

lemma row_find_distinct:
  "distinct (map key rows) \<Longrightarrow> r \<in> set rows \<Longrightarrow> row_find key (key r) rows = Some r"
  by (simp add: row_find_def find_distinct_key)

lemma row_find_None_iff: "row_find key i rows = None \<longleftrightarrow> i \<notin> key ` set rows"
  by (auto simp: row_find_def find_None_iff)

lemma row_find_append:
  "row_find key i (xs @ ys) = (case row_find key i xs of None \<Rightarrow> row_find key i ys | Some x \<Rightarrow> Some x)"
  by (simp add: row_find_def find_append split: option.splits)

end
