(* ===== verification/Js_Number.thy ===== *)
theory Js_Number
  imports Prelude Complex_Main
begin

text \<open>
  JavaScript numbers and \<^verbatim>\<open>Number(s)\<close>, as the configuration and \<^verbatim>\<open>JSON.parse\<close> use them: a number is a
  finite double (its exact rational value; the two zeros are not told apart), an infinity or NaN.
  \<^verbatim>\<open>to_double\<close> is the rounding of IEEE 754 binary64 to the nearest value, ties to even, with gradual
  underflow and overflow to an infinity.
\<close>

datatype js_number = Fin rat | PInf | NInf | NaN

section \<open>Rounding\<close>

fun bit_length :: "nat \<Rightarrow> nat" where
  "bit_length n = (if n = 0 then 0 else Suc (bit_length (n div 2)))"

declare bit_length.simps [simp del]

definition pow2 :: "int \<Rightarrow> rat" where
  "pow2 e = (if 0 \<le> e then 2 ^ nat e else 1 / 2 ^ nat (- e))"

definition log2_floor :: "rat \<Rightarrow> int" where
  "log2_floor a =
     (let (p, q) = quotient_of a; k = int (bit_length (nat p)) - int (bit_length (nat q))
      in if pow2 k \<le> a then k else k - 1)"

definition half_even :: "rat \<Rightarrow> int" where
  "half_even x =
     (let f = \<lfloor>x\<rfloor>; d = x - of_int f
      in if d < 1 / 2 then f else if 1 / 2 < d then f + 1 else if even f then f else f + 1)"

text \<open>The exponent of the last place of a double near \<^verbatim>\<open>a\<close>, the rounded magnitude and the least
  magnitude that overflows.\<close>

definition last_place :: "rat \<Rightarrow> int" where
  "last_place a = max (log2_floor a - 52) (- 1074)"

definition round_mag :: "rat \<Rightarrow> rat" where
  "round_mag a = of_int (half_even (a / pow2 (last_place a))) * pow2 (last_place a)"

definition double_limit :: rat where
  "double_limit = 2 ^ 1024"

definition to_double :: "rat \<Rightarrow> js_number" where
  "to_double x =
     (if x = 0 then Fin 0
      else let v = round_mag \<bar>x\<bar>
        in if double_limit \<le> v then (if 0 < x then PInf else NInf)
           else Fin (if 0 < x then v else - v))"

definition is_finite :: "js_number \<Rightarrow> bool" where
  "is_finite n = (case n of Fin q \<Rightarrow> True | _ \<Rightarrow> False)"

text \<open>\<^verbatim>\<open>Number.isInteger\<close>, and the integer.\<close>

definition int_of_num :: "js_number \<Rightarrow> int option" where
  "int_of_num n = (case n of Fin q \<Rightarrow> (if snd (quotient_of q) = 1 then Some (fst (quotient_of q)) else None) | _ \<Rightarrow> None)"

text \<open>The product with a positive constant.\<close>

fun num_scale :: "nat \<Rightarrow> js_number \<Rightarrow> js_number" where
  "num_scale k (Fin q) = to_double (of_nat k * q)"
| "num_scale k PInf = PInf"
| "num_scale k NInf = NInf"
| "num_scale k NaN = NaN"

subsection \<open>Integers below 2^53 are exact\<close>

lemma bit_length_le: "n < 2 ^ k \<Longrightarrow> bit_length n \<le> k"
proof (induction k arbitrary: n)
  case 0
  then show ?case by (simp add: bit_length.simps)
next
  case (Suc k)
  then have "bit_length (n div 2) \<le> k" by (intro Suc.IH) auto
  then show ?case by (subst bit_length.simps) simp
qed

lemma half_even_of_int [simp]: "half_even (of_int z) = z"
  by (simp add: half_even_def)

lemma half_even_exact: "x = of_int z \<Longrightarrow> half_even x = z"
  by simp

lemma log2_floor_le:
  assumes "0 < z" "z < 2 ^ 53"
  shows "log2_floor (of_int z) \<le> 52"
proof -
  have "nat z < 2 ^ 53" using assms by (simp add: nat_less_iff)
  then have "bit_length (nat z) \<le> 53" by (rule bit_length_le)
  moreover have "bit_length 1 = 1" by (simp add: bit_length.simps)
  ultimately show ?thesis by (simp add: log2_floor_def Let_def)
qed

lemma round_mag_int:
  assumes "0 < z" "z < 2 ^ 53"
  shows "round_mag (of_int z) = of_int z"
proof -
  let ?e = "last_place (of_int z)"
  have "?e \<le> 0" using log2_floor_le[OF assms] by (simp add: last_place_def)
  then have "pow2 ?e = 1 / 2 ^ nat (- ?e)" by (cases "?e = 0") (simp_all add: pow2_def)
  then show ?thesis using half_even_exact[of "of_int z * 2 ^ nat (- ?e)" "z * 2 ^ nat (- ?e)"]
    by (simp add: round_mag_def)
qed

lemma double_limit_int:
  assumes "z < 2 ^ 53"
  shows "of_int z < double_limit"
proof -
  have "(of_int z :: rat) < of_int (2 ^ 53)" using assms unfolding of_int_less_iff .
  also have "\<dots> \<le> 2 ^ 1024" unfolding of_int_power of_int_numeral by (rule power_increasing) simp_all
  finally show ?thesis by (simp only: double_limit_def)
qed

lemma to_double_int:
  assumes "\<bar>n\<bar> < 2 ^ 53"
  shows "to_double (of_int n) = Fin (of_int n)"
proof (cases "n = 0")
  case False
  then have "round_mag \<bar>of_int n\<bar> = of_int \<bar>n\<bar>" "of_int \<bar>n\<bar> < double_limit"
    using assms round_mag_int[of "\<bar>n\<bar>"] double_limit_int[of "\<bar>n\<bar>"] by simp_all
  with False show ?thesis by (auto simp: to_double_def Let_def)
qed (simp add: to_double_def)

lemma int_of_num_int [simp]: "int_of_num (Fin (of_int n)) = Some n"
  by (simp add: int_of_num_def)

lemma int_of_num_eq_Some: "int_of_num m = Some n \<longleftrightarrow> m = Fin (of_int n)"
proof
  assume *: "int_of_num m = Some n"
  then obtain q where m: "m = Fin q" by (cases m) (auto simp: int_of_num_def)
  obtain a b where ab: "quotient_of q = (a, b)" by (cases "quotient_of q")
  from * m ab have "a = n" "b = 1" by (auto simp: int_of_num_def split: if_splits)
  with quotient_of_div[OF ab] m show "m = Fin (of_int n)" by simp
qed simp

lemma num_scale_int: "\<bar>int k * n\<bar> < 2 ^ 53 \<Longrightarrow> num_scale k (Fin (of_int n)) = Fin (of_int (int k * n))"
  using to_double_int[of "int k * n"] by simp

section \<open>Number(s)\<close>

definition is_digit :: "char \<Rightarrow> bool" where
  "is_digit c = (48 \<le> (of_char c :: nat) \<and> (of_char c :: nat) \<le> 57)"

definition exp10 :: "int \<Rightarrow> rat" where
  "exp10 e = (if 0 \<le> e then 10 ^ nat e else 1 / 10 ^ nat (- e))"

text \<open>A leading sign, and whether it was a minus.\<close>

definition read_sign :: "string \<Rightarrow> bool \<times> string" where
  "read_sign s =
     (case s of c # r \<Rightarrow> if c = CHR ''-'' then (True, r) else if c = CHR ''+'' then (False, r) else (False, s)
      | [] \<Rightarrow> (False, []))"

text \<open>The exponent part of a decimal literal: the value and the rest; no exponent is 0.\<close>

definition read_exponent :: "string \<Rightarrow> int \<times> string" where
  "read_exponent s =
     (case s of
        c # r \<Rightarrow>
          if c = CHR ''e'' \<or> c = CHR ''E'' then
            let (neg, t) = read_sign r; ds = takeWhile is_digit t
            in if ds = [] then (0, s)
               else (if neg then - int (read_nat ds) else int (read_nat ds), dropWhile is_digit t)
          else (0, s)
      | [] \<Rightarrow> (0, s))"

text \<open>The digits after a decimal point.\<close>

definition read_fraction :: "string \<Rightarrow> string \<times> string" where
  "read_fraction s =
     (case s of c # r \<Rightarrow> if c = CHR ''.'' then (takeWhile is_digit r, dropWhile is_digit r) else ([], s)
      | [] \<Rightarrow> ([], s))"

definition decimal_value :: "string \<Rightarrow> string \<Rightarrow> int \<Rightarrow> rat" where
  "decimal_value ip fp e = of_nat (read_nat (ip @ fp)) * exp10 (e - int (length fp))"

text \<open>StrUnsignedDecimalLiteral: the whole string, with digits before or after the point.\<close>

definition unsigned_decimal :: "string \<Rightarrow> rat option" where
  "unsigned_decimal s =
     (let ip = takeWhile is_digit s; (fp, r) = read_fraction (dropWhile is_digit s); (e, r') = read_exponent r
      in if ip = [] \<and> fp = [] \<or> r' \<noteq> [] then None else Some (decimal_value ip fp e))"

definition hex_val :: "char \<Rightarrow> nat option" where
  "hex_val c =
     (let n = (of_char c :: nat) in
      if 48 \<le> n \<and> n \<le> 57 then Some (n - 48)
      else if 97 \<le> n \<and> n \<le> 102 then Some (n - 87)
      else if 65 \<le> n \<and> n \<le> 70 then Some (n - 55) else None)"

fun read_radix :: "nat \<Rightarrow> nat \<Rightarrow> string \<Rightarrow> nat option" where
  "read_radix b acc [] = Some acc"
| "read_radix b acc (c # s) =
     (case hex_val c of None \<Rightarrow> None | Some d \<Rightarrow> if d < b then read_radix b (b * acc + d) s else None)"

definition radix_of :: "char \<Rightarrow> nat option" where
  "radix_of c =
     (if c = CHR ''x'' \<or> c = CHR ''X'' then Some 16 else if c = CHR ''o'' \<or> c = CHR ''O'' then Some 8
      else if c = CHR ''b'' \<or> c = CHR ''B'' then Some 2 else None)"

definition non_decimal :: "string \<Rightarrow> js_number option" where
  "non_decimal s =
     (case s of
        z # c # d # ds \<Rightarrow>
          if z = CHR ''0'' then
            (case radix_of c of
               None \<Rightarrow> None
             | Some b \<Rightarrow> (case read_radix b 0 (d # ds) of None \<Rightarrow> Some NaN | Some n \<Rightarrow> Some (to_double (of_nat n))))
          else None
      | _ \<Rightarrow> None)"

definition js_Number :: "string \<Rightarrow> js_number" where
  "js_Number raw =
     (let s = trim raw in
      if s = [] then Fin 0
      else case non_decimal s of
        Some n \<Rightarrow> n
      | None \<Rightarrow>
          let (neg, t) = read_sign s in
          if t = ''Infinity'' then (if neg then NInf else PInf)
          else case unsigned_decimal t of None \<Rightarrow> NaN | Some q \<Rightarrow> to_double (if neg then - q else q))"

end
