(* ===== verification/Json.thy ===== *)
theory Json
  imports Js_Number
begin

text \<open>
  \<^verbatim>\<open>JSON.stringify\<close> and \<^verbatim>\<open>JSON.parse\<close>. The type of the numbers is a parameter: the program writes
  integers (sizes and counts), and reads the numbers of JavaScript. \<^verbatim>\<open>JSON_parse\<close> follows the grammar of
  JSON; None is the \<^verbatim>\<open>SyntaxError\<close>. Strings are those of the Latin-1 fragment, so an escape of a code
  unit above U+00FF, which this fragment does not have, is refused as well.
\<close>

datatype 'n JSON = JNull | JBool bool | JNum 'n | JStr string | JArr "'n JSON list" | JObj "(string \<times> 'n JSON) list"

type_synonym json = "int JSON"

section \<open>JSON.stringify\<close>

definition hex_digit :: "nat \<Rightarrow> char" where
  "hex_digit n = (if n < 10 then char_of (48 + n) else char_of (87 + n))"

definition json_char :: "char \<Rightarrow> string" where
  "json_char c =
     (let n = (of_char c :: nat) in
      if n = 34 then [CHR 0x5C, CHR 0x22]
      else if n = 92 then [CHR 0x5C, CHR 0x5C]
      else if n = 8 then CHR 0x5C # ''b''
      else if n = 12 then CHR 0x5C # ''f''
      else if n = 10 then CHR 0x5C # ''n''
      else if n = 13 then CHR 0x5C # ''r''
      else if n = 9 then CHR 0x5C # ''t''
      else if n < 32 then CHR 0x5C # ''u00'' @ [hex_digit (n div 16), hex_digit (n mod 16)]
      else [c])"

definition json_string :: "string \<Rightarrow> string" where
  "json_string s = [CHR 0x22] @ concat (map json_char s) @ [CHR 0x22]"

fun stringify :: "json \<Rightarrow> string" where
  "stringify JNull = ''null''"
| "stringify (JBool b) = (if b then ''true'' else ''false'')"
| "stringify (JNum n) = show_int n"
| "stringify (JStr s) = json_string s"
| "stringify (JArr xs) = ''['' @ join_with '','' (map stringify xs) @ '']''"
| "stringify (JObj kvs) =
     ''{'' @ join_with '','' (map (\<lambda>(k, v). json_string k @ '':'' @ stringify v) kvs) @ ''}''"

section \<open>JSON.parse\<close>

definition json_ws :: "char \<Rightarrow> bool" where
  "json_ws c = ((of_char c :: nat) \<in> {9, 10, 13, 32})"

abbreviation skip_ws :: "string \<Rightarrow> string" where
  "skip_ws \<equiv> dropWhile json_ws"

text \<open>What follows a backslash.\<close>

definition hex4 :: "char \<Rightarrow> char \<Rightarrow> char \<Rightarrow> char \<Rightarrow> nat option" where
  "hex4 a b c d = read_radix 16 0 [a, b, c, d]"

fun escape :: "string \<Rightarrow> (char \<times> string) option" where
  "escape [] = None"
| "escape (c # r) =
     (let n = (of_char c :: nat) in
      if n \<in> {34, 47, 92} then Some (c, r)
      else if c = CHR ''b'' then Some (char_of (8 :: nat), r)
      else if c = CHR ''f'' then Some (char_of (12 :: nat), r)
      else if c = CHR ''n'' then Some (char_of (10 :: nat), r)
      else if c = CHR ''r'' then Some (char_of (13 :: nat), r)
      else if c = CHR ''t'' then Some (char_of (9 :: nat), r)
      else if c = CHR ''u'' then
        (case r of
           a # b # d # e # t \<Rightarrow>
             (case hex4 a b d e of None \<Rightarrow> None | Some v \<Rightarrow> if v < 256 then Some (char_of v, t) else None)
         | _ \<Rightarrow> None)
      else None)"

lemma escape_shorter: "escape s = Some (c, r) \<Longrightarrow> length r < length s"
  by (cases s) (auto simp: Let_def split: if_splits list.splits option.splits)

text \<open>The rest of a string after its opening quote.\<close>

function parse_chars :: "string \<Rightarrow> (string \<times> string) option" where
  "parse_chars s =
     (case s of
        [] \<Rightarrow> None
      | c # r \<Rightarrow>
          if c = CHR 0x22 then Some ([], r)
          else if c = CHR 0x5C then
            (case escape r of
               None \<Rightarrow> None
             | Some (d, t) \<Rightarrow> map_option (apfst (Cons d)) (parse_chars t))
          else if (of_char c :: nat) < 32 then None
          else map_option (apfst (Cons c)) (parse_chars r))"
  by pat_completeness auto
termination
  by (relation "measure length") (auto dest!: escape_shorter)

declare parse_chars.simps [simp del]

definition parse_number :: "string \<Rightarrow> (js_number \<times> string) option" where
  "parse_number s =
     (let neg = (s \<noteq> [] \<and> hd s = CHR ''-''); t = (if neg then tl s else s);
          ip = takeWhile is_digit t; u = dropWhile is_digit t;
          (fp, v) = read_fraction u; (e, r) = read_exponent v;
          q = decimal_value ip fp e
      in if ip = [] \<or> hd ip = CHR ''0'' \<and> tl ip \<noteq> [] \<or> v \<noteq> u \<and> fp = [] \<or>
            v \<noteq> [] \<and> (hd v = CHR ''e'' \<or> hd v = CHR ''E'') \<and> r = v
         then None else Some (to_double (if neg then - q else q), r))"

text \<open>A member is defined on the object in the order of the text: a key that is there already gets
  the later value.\<close>

definition put_key :: "(string \<times> 'v) list \<Rightarrow> string \<times> 'v \<Rightarrow> (string \<times> 'v) list" where
  "put_key o1 kv =
     (if fst kv \<in> fst ` set o1 then map (\<lambda>(k, v). if k = fst kv then kv else (k, v)) o1 else o1 @ [kv])"

definition object_of :: "(string \<times> 'v) list \<Rightarrow> (string \<times> 'v) list" where
  "object_of kvs = foldl put_key [] kvs"

text \<open>The parser of values, and of the elements and members after an opening bracket or brace. The
  first argument bounds the depth of the calls; \<^verbatim>\<open>parse_fuel\<close> below shows that the bound of
  \<^verbatim>\<open>JSON_parse\<close> is enough for every text.\<close>

fun parse_value :: "nat \<Rightarrow> string \<Rightarrow> (js_number JSON \<times> string) option"
  and parse_elements :: "nat \<Rightarrow> string \<Rightarrow> (js_number JSON list \<times> string) option"
  and parse_members :: "nat \<Rightarrow> string \<Rightarrow> ((string \<times> js_number JSON) list \<times> string) option" where
  "parse_value 0 s = None"
| "parse_value (Suc n) s =
     (case skip_ws s of
        [] \<Rightarrow> None
      | c # r \<Rightarrow>
          if c = CHR ''['' then
            (if startsWith (skip_ws r) '']'' then Some (JArr [], tl (skip_ws r))
             else map_option (apfst JArr) (parse_elements n r))
          else if c = CHR ''{'' then
            (if startsWith (skip_ws r) ''}'' then Some (JObj [], tl (skip_ws r))
             else map_option (apfst (\<lambda>kvs. JObj (object_of kvs))) (parse_members n r))
          else if c = CHR 0x22 then map_option (apfst JStr) (parse_chars r)
          else if startsWith (c # r) ''null'' then Some (JNull, drop 4 (c # r))
          else if startsWith (c # r) ''true'' then Some (JBool True, drop 4 (c # r))
          else if startsWith (c # r) ''false'' then Some (JBool False, drop 5 (c # r))
          else map_option (apfst JNum) (parse_number (c # r)))"
| "parse_elements 0 s = None"
| "parse_elements (Suc n) s =
     (case parse_value n s of
        None \<Rightarrow> None
      | Some (v, r) \<Rightarrow>
          (case skip_ws r of
             [] \<Rightarrow> None
           | c # t \<Rightarrow>
               if c = CHR '','' then map_option (apfst (Cons v)) (parse_elements n t)
               else if c = CHR '']'' then Some ([v], t) else None))"
| "parse_members 0 s = None"
| "parse_members (Suc n) s =
     (if \<not> startsWith (skip_ws s) [CHR 0x22] then None
      else case parse_chars (tl (skip_ws s)) of
        None \<Rightarrow> None
      | Some (k, u) \<Rightarrow>
          if \<not> startsWith (skip_ws u) '':'' then None
          else case parse_value n (tl (skip_ws u)) of
            None \<Rightarrow> None
          | Some (v, r) \<Rightarrow>
              (case skip_ws r of
                 [] \<Rightarrow> None
               | c # t \<Rightarrow>
                   if c = CHR '','' then map_option (apfst (Cons (k, v))) (parse_members n t)
                   else if c = CHR ''}'' then Some ([(k, v)], t) else None))"

definition JSON_parse :: "string \<Rightarrow> js_number JSON option" where
  "JSON_parse s =
     (case parse_value (2 * length s + 2) s of
        None \<Rightarrow> None
      | Some (v, r) \<Rightarrow> if skip_ws r = [] then Some v else None)"

section \<open>The parser consumes its input\<close>

lemma skip_ws_le [simp]: "length (skip_ws s) \<le> length s"
  by (rule length_dropWhile_le)

lemma skip_ws_ConsD: "skip_ws s = c # r \<Longrightarrow> length r < length s"
  using skip_ws_le[of s] by simp

lemma parse_chars_shorter: "parse_chars s = Some (cs, r) \<Longrightarrow> length r < length s"
proof (induction s arbitrary: cs r rule: parse_chars.induct)
  case (1 s)
  show ?case
  proof (cases s)
    case Nil
    with 1(3) show ?thesis by (simp add: parse_chars.simps)
  next
    case (Cons c t)
    with 1(3) 1(1)[OF Cons] 1(2)[OF Cons] show ?thesis
      by (subst (asm) parse_chars.simps)
        (fastforce split: if_splits option.splits prod.splits dest: escape_shorter)
  qed
qed

lemma read_exponent_le: "read_exponent s = (e, r) \<Longrightarrow> length r \<le> length s"
proof -
  assume *: "read_exponent s = (e, r)"
  have **: "length (dropWhile is_digit t) \<le> length t" for t by (rule length_dropWhile_le)
  show ?thesis
  proof (cases s)
    case (Cons c u)
    have "length (snd (read_sign u)) \<le> length u" by (cases u) (auto simp: read_sign_def)
    with * Cons **[of "snd (read_sign u)"] show ?thesis
      by (auto simp: read_exponent_def Let_def split: prod.splits if_splits)
  qed (use * in \<open>simp add: read_exponent_def\<close>)
qed

lemma read_fraction_le: "read_fraction s = (f, r) \<Longrightarrow> length r \<le> length s"
  using length_dropWhile_le[of is_digit "tl s"] by (cases s) (auto simp: read_fraction_def split: if_splits)

lemma takeWhile_split_length: "length (takeWhile P s) + length (dropWhile P s) = length s"
  by (metis length_append takeWhile_dropWhile_id)

lemma parse_number_shorter: "parse_number s = Some (q, r) \<Longrightarrow> length r < length s"
proof -
  assume *: "parse_number s = Some (q, r)"
  define t where "t = (if s \<noteq> [] \<and> hd s = CHR ''-'' then tl s else s)"
  obtain fp v e r' where fe: "read_fraction (dropWhile is_digit t) = (fp, v)" "read_exponent v = (e, r')"
    by (metis surj_pair)
  from * have "takeWhile is_digit t \<noteq> []" "r' = r"
    unfolding parse_number_def Let_def t_def[symmetric] fe split by (auto split: if_splits)
  moreover have "length t \<le> length s" by (simp add: t_def)
  moreover have "length (dropWhile is_digit t) < length t"
    using takeWhile_split_length[of is_digit t] \<open>takeWhile is_digit t \<noteq> []\<close> by (metis length_greater_0_conv less_add_same_cancel2)
  ultimately show ?thesis using read_fraction_le[OF fe(1)] read_exponent_le[OF fe(2)] by simp
qed

lemma tl_skip_ws_le: "length (tl (skip_ws s)) \<le> length s"
  by (rule order_trans[OF _ skip_ws_le]) simp

lemma parse_shorter:
  "parse_value n s = Some (v, r) \<Longrightarrow> length r < length s"
  "parse_elements n s = Some (vs, r) \<Longrightarrow> length r < length s"
  "parse_members n s = Some (kvs, r) \<Longrightarrow> length r < length s"
proof (induction n s and n s and n s arbitrary: v r and vs r and kvs r rule: parse_value_parse_elements_parse_members.induct)
  case (2 n s)
  from 2(3) obtain c t where ct: "skip_ws s = c # t" by (auto split: list.splits)
  have le: "Suc (length t) \<le> length s" using skip_ws_ConsD[OF ct] by simp
  have *: "length r < Suc (length t)"
    using 2(3) 2(1)[OF ct] 2(2)[OF ct] tl_skip_ws_le[of t]
    by (auto simp: ct split: if_splits dest!: parse_chars_shorter parse_number_shorter)
  show ?case using * le by simp
next
  case (4 n s)
  from 4(3) obtain v u c t where v: "parse_value n s = Some (v, u)" "skip_ws u = c # t"
    by (auto split: option.splits prod.splits list.splits)
  with 4(1)[OF v(1)] skip_ws_ConsD[OF v(2)] have "length t < length s" by simp
  with 4(3) 4(2)[OF v(1) refl v(2)] v show ?case
    by (auto split: if_splits)
next
  case (6 n s)
  from 6(3) obtain k u v w c t where
    k: "startsWith (skip_ws s) [CHR 0x22]" "parse_chars (tl (skip_ws s)) = Some (k, u)"
    "startsWith (skip_ws u) '':''" "parse_value n (tl (skip_ws u)) = Some (v, w)" "skip_ws w = c # t"
    by (auto split: option.splits prod.splits list.splits if_splits)
  have "length t < length s"
    using skip_ws_ConsD[OF k(5)] 6(1)[OF _ k(2) refl _ k(4)] k(1,3) parse_chars_shorter[OF k(2)]
      tl_skip_ws_le[of s] tl_skip_ws_le[of u] by simp
  with 6(3) 6(2)[OF _ k(2) refl _ k(4) refl k(5)] k show ?case
    by (auto split: if_splits)
qed simp_all

text \<open>The depth of the calls is bounded by the length of the text: more fuel does not change the result.\<close>

lemma parse_fuel:
  "2 * length s + 1 \<le> n \<Longrightarrow> n \<le> m \<Longrightarrow> parse_value m s = parse_value n s"
  "2 * length s + 2 \<le> n \<Longrightarrow> n \<le> m \<Longrightarrow> parse_elements m s = parse_elements n s"
  "2 * length s + 2 \<le> n \<Longrightarrow> n \<le> m \<Longrightarrow> parse_members m s = parse_members n s"
proof (induction n s and n s and n s arbitrary: m and m and m rule: parse_value_parse_elements_parse_members.induct)
  case (2 n s)
  from 2(4) obtain m' where m: "m = Suc m'" "n \<le> m'" by (cases m) auto
  show ?case
  proof (cases "skip_ws s")
    case (Cons c t)
    then have "2 * length t + 2 \<le> n" using 2(3) skip_ws_ConsD[OF Cons] by simp
    with 2(1)[OF Cons _ _ _ m(2)] 2(2)[OF Cons _ _ _ _ m(2)] show ?thesis by (simp add: m(1) Cons)
  qed (simp only: m(1) parse_value.simps list.case)
next
  case (4 n s)
  from 4(4) obtain m' where m: "m = Suc m'" "n \<le> m'" by (cases m) auto
  have v: "parse_value m' s = parse_value n s" using 4(1)[OF _ m(2)] 4(3) by simp
  show ?case
  proof (cases "\<exists>v u c t. parse_value n s = Some (v, u) \<and> skip_ws u = c # t")
    case True
    then obtain x u c t where x: "parse_value n s = Some (x, u)" "skip_ws u = c # t" by blast
    then have "2 * length t + 2 \<le> n" using 4(3) parse_shorter(1)[OF x(1)] skip_ws_ConsD[OF x(2)] by simp
    with 4(2)[OF x(1) refl x(2) _ _ m(2)] show ?thesis by (simp add: m(1) v x)
  next
    case False
    then show ?thesis by (auto simp: m(1) v split: option.split list.split)
  qed
next
  case (6 n s)
  from 6(4) obtain m' where m: "m = Suc m'" "n \<le> m'" by (cases m) auto
  show ?case
  proof (cases "\<exists>k u. parse_chars (tl (skip_ws s)) = Some (k, u)")
    case True
    then obtain k u where k: "parse_chars (tl (skip_ws s)) = Some (k, u)" by blast
    have ls: "length u < length s" using parse_chars_shorter[OF k] tl_skip_ws_le[of s] by simp
    then have lu: "2 * length (tl (skip_ws u)) + 1 \<le> n" using 6(3) tl_skip_ws_le[of u] by simp
    have v: "parse_value m' (tl (skip_ws u)) = parse_value n (tl (skip_ws u))"
      if "startsWith (skip_ws s) [CHR 0x22]" "startsWith (skip_ws u) '':''"
      using 6(1)[OF _ k refl _ lu m(2)] that by simp
    have rest: "parse_members m' t = parse_members n t"
      if "startsWith (skip_ws s) [CHR 0x22]" "startsWith (skip_ws u) '':''"
        "parse_value n (tl (skip_ws u)) = Some (x, w)" "skip_ws w = CHR '','' # t" for x w t
    proof -
      have "2 * length t + 2 \<le> n"
        using 6(3) ls parse_shorter(1)[OF that(3)] skip_ws_ConsD[OF that(4)] tl_skip_ws_le[of u] by simp
      with 6(2)[OF _ k refl _ that(3) refl that(4) _ _ m(2)] that(1,2) show ?thesis by simp
    qed
    show ?thesis
    proof (cases "startsWith (skip_ws s) [CHR 0x22] \<and> startsWith (skip_ws u) '':''")
      case True
      with v have pv: "parse_value m' (tl (skip_ws u)) = parse_value n (tl (skip_ws u))" by simp
      from True show ?thesis
        by (simp add: m(1) k pv) (auto simp: rest simp del: dropWhile_eq_Nil_conv split: option.split list.split)
    qed (auto simp: m(1) k)
  qed (auto simp: m(1) split: option.split)
qed simp_all

section \<open>Round trip\<close>

lemma hex_val_digit [simp]: "d < 16 \<Longrightarrow> hex_val (hex_digit d) = Some d"
  by (auto simp: hex_val_def hex_digit_def)

lemma hex4_json: "n < 256 \<Longrightarrow> hex4 (CHR ''0'') (CHR ''0'') (hex_digit (n div 16)) (hex_digit (n mod 16)) = Some n"
proof -
  assume "n < 256"
  then have "n div 16 < 16" by auto
  moreover have "hex_val (CHR ''0'') = Some 0" by (simp add: hex_val_def)
  ultimately show ?thesis by (simp add: hex4_def)
qed

lemma parse_json_char: "parse_chars (json_char c @ t) = map_option (apfst (Cons c)) (parse_chars t)"
proof -
  let ?n = "of_char c :: nat"
  have c: "?n = k \<Longrightarrow> c = char_of k" for k by auto
  have special: ?thesis if "json_char c = [CHR 0x5C, d]" "escape (d # t) = Some (c, t)" for d
    using that by (subst parse_chars.simps) simp
  consider (q) "?n = 34" | (s) "?n = 92" | (b) "?n = 8" | (f) "?n = 12" | (n) "?n = 10" | (r) "?n = 13" | (t) "?n = 9"
    | (u) "?n < 32" "?n \<notin> {8, 9, 10, 12, 13}" | (plain) "32 \<le> ?n" "?n \<notin> {34, 92}" by fastforce
  then show ?thesis
  proof cases
    case q
    then have "of_char c = (of_char (CHR 0x22) :: nat)" by simp
    then have "c = CHR 0x22" unfolding of_char_eq_iff .
    then show ?thesis by (intro special[of "CHR 0x22"]) (simp_all add: json_char_def)
  next
    case s
    then have "of_char c = (of_char (CHR 0x5C) :: nat)" by simp
    then have "c = CHR 0x5C" unfolding of_char_eq_iff .
    then show ?thesis by (intro special[of "CHR 0x5C"]) (simp_all add: json_char_def)
  next
    case b
    from c[OF b] show ?thesis by (intro special[of "CHR ''b''"]) (simp_all add: json_char_def)
  next
    case f
    from c[OF f] show ?thesis by (intro special[of "CHR ''f''"]) (simp_all add: json_char_def)
  next
    case n
    from c[OF n] show ?thesis by (intro special[of "CHR ''n''"]) (simp_all add: json_char_def)
  next
    case r
    from c[OF r] show ?thesis by (intro special[of "CHR ''r''"]) (simp_all add: json_char_def)
  next
    case t
    from c[OF t] show ?thesis by (intro special[of "CHR ''t''"]) (simp_all add: json_char_def)
  next
    case u
    then have "json_char c = CHR 0x5C # ''u00'' @ [hex_digit (?n div 16), hex_digit (?n mod 16)]"
      by (simp add: json_char_def Let_def)
    then show ?thesis by (subst parse_chars.simps) (simp add: hex4_json)
  next
    case plain
    then have "json_char c = [c]" "c \<noteq> CHR 0x22" "c \<noteq> CHR 0x5C" by (auto simp: json_char_def)
    with plain show ?thesis by (subst parse_chars.simps) simp
  qed
qed

lemma parse_json_string: "parse_chars (concat (map json_char s) @ CHR 0x22 # r) = Some (s, r)"
proof (induction s)
  case Nil
  then show ?case by (simp add: parse_chars.simps)
qed (simp add: parse_json_char)

text \<open>What may follow a number.\<close>

definition after_number :: "string \<Rightarrow> bool" where
  "after_number r \<longleftrightarrow> r = [] \<or> \<not> is_digit (hd r) \<and> hd r \<noteq> CHR ''.'' \<and> hd r \<noteq> CHR ''e'' \<and> hd r \<noteq> CHR ''E''"

lemma show_nat_is_digit: "\<forall>c\<in>set (show_nat n). is_digit c"
  using show_nat_digits[of _ n] by (auto simp: is_digit_def)

lemma takeWhile_show_nat:
  "after_number r \<Longrightarrow> takeWhile is_digit (show_nat n @ r) = show_nat n \<and> dropWhile is_digit (show_nat n @ r) = r"
  using show_nat_is_digit[of n] by (cases r) (auto simp: after_number_def takeWhile_append dropWhile_append)

lemma show_nat_leading_zero: "hd (show_nat n) = CHR ''0'' \<Longrightarrow> tl (show_nat n) = []"
proof -
  have "0 < n \<Longrightarrow> hd (show_nat n) \<noteq> CHR ''0''"
  proof (induction n rule: show_nat.induct)
    case (1 n)
    then show ?case
      by (subst show_nat.simps) (auto simp: digit_char_def dest!: arg_cong[of _ _ "of_char :: char \<Rightarrow> nat"])
  qed
  then show "hd (show_nat n) = CHR ''0'' \<Longrightarrow> ?thesis" by (cases "n = 0") (auto simp: show_nat.simps)
qed

lemma exp10_0 [simp]: "exp10 0 = 1"
  by (simp add: exp10_def)

lemma read_nothing:
  "after_number r \<Longrightarrow> read_fraction r = ([], r) \<and> read_exponent r = (0, r)"
  by (cases r) (auto simp: after_number_def read_fraction_def read_exponent_def)

lemma decimal_value_show_nat [simp]: "decimal_value (show_nat n) [] 0 = of_nat n"
  by (simp add: decimal_value_def)

lemma hd_show_nat: "show_nat n \<noteq> [] \<and> is_digit (hd (show_nat n))"
  using show_nat_is_digit[of n] by (cases "show_nat n") auto

lemma show_nat_not_minus: "hd (show_nat n) \<noteq> CHR ''-''"
proof -
  have "is_digit (hd (show_nat n))" using hd_show_nat by blast
  then show ?thesis by (auto simp: is_digit_def)
qed

lemma parse_show_nat:
  assumes "after_number r"
  shows "parse_number (show_nat n @ r) = Some (to_double (of_nat n), r)"
    and "parse_number (CHR ''-'' # show_nat n @ r) = Some (to_double (- of_nat n), r)"
  using takeWhile_show_nat[OF assms, of n] read_nothing[OF assms] show_nat_leading_zero[of n] assms
  by (auto simp: parse_number_def Let_def show_nat_not_minus after_number_def)

lemma parse_show_int:
  assumes "after_number r" "\<bar>i\<bar> < 2 ^ 53"
  shows "parse_number (show_int i @ r) = Some (Fin (of_int i), r)"
proof (cases "i < 0")
  case True
  then have "- rat_of_nat (nat (- i)) = of_int i" by simp
  with True parse_show_nat(2)[OF assms(1), of "nat (- i)"] to_double_int[OF assms(2)] show ?thesis
    by (simp add: show_int_def)
next
  case False
  then have "rat_of_nat (nat i) = of_int i" by simp
  with False parse_show_nat(1)[OF assms(1), of "nat i"] to_double_int[OF assms(2)] show ?thesis
    by (simp add: show_int_def)
qed

text \<open>The values the program writes: integers that a double holds exactly, and objects whose keys are distinct.\<close>

fun json_ok :: "json \<Rightarrow> bool" where
  "json_ok (JNum n) = (\<bar>n\<bar> < 2 ^ 53)"
| "json_ok (JArr xs) = (\<forall>x\<in>set xs. json_ok x)"
| "json_ok (JObj kvs) = (distinct (map fst kvs) \<and> (\<forall>kv\<in>set kvs. json_ok (snd kv)))"
| "json_ok _ = True"

abbreviation as_read :: "json \<Rightarrow> js_number JSON" where
  "as_read \<equiv> map_JSON (\<lambda>n. Fin (of_int n))"

lemma object_of_distinct: "distinct (map fst kvs) \<Longrightarrow> object_of kvs = kvs"
proof -
  have "distinct (map fst (xs @ ys)) \<Longrightarrow> foldl put_key xs ys = xs @ ys" for xs ys :: "(string \<times> 'a) list"
  proof (induction ys arbitrary: xs)
    case (Cons y ys)
    then have "put_key xs y = xs @ [y]" by (auto simp: put_key_def)
    with Cons.IH[of "xs @ [y]"] Cons.prems show ?case by simp
  qed simp
  from this[of "[]"] show "distinct (map fst kvs) \<Longrightarrow> ?thesis" by (simp add: object_of_def)
qed

text \<open>No value starts with white space or with a closing bracket.\<close>

definition value_start :: "string \<Rightarrow> bool" where
  "value_start s \<longleftrightarrow> s \<noteq> [] \<and> \<not> json_ws (hd s) \<and> hd s \<noteq> CHR '']'' \<and> hd s \<noteq> CHR ''}''"

lemma digit_start: "is_digit c \<Longrightarrow> \<not> json_ws c \<and> c \<noteq> CHR '']'' \<and> c \<noteq> CHR ''}'' \<and> c \<noteq> CHR ''['' \<and> c \<noteq> CHR ''{''
    \<and> c \<noteq> CHR 0x22 \<and> c \<noteq> CHR ''n'' \<and> c \<noteq> CHR ''t'' \<and> c \<noteq> CHR ''f''"
  by (auto simp: is_digit_def json_ws_def)

lemma hd_show_int: "hd (show_int i) = CHR ''-'' \<or> is_digit (hd (show_int i))"
  using hd_show_nat by (auto simp: show_int_def)

lemma stringify_start: "value_start (stringify j @ r)"
proof (cases j)
  case (JNum i)
  then show ?thesis using hd_show_int[of i] digit_start[of "hd (show_int i)"]
    by (auto simp: value_start_def json_ws_def)
qed (auto simp: value_start_def json_ws_def json_string_def)

lemma value_start_skip: "value_start s \<Longrightarrow> skip_ws s = s"
  by (cases s) (auto simp: value_start_def)

lemma parse_int:
  assumes "after_number r" "\<bar>i\<bar> < 2 ^ 53"
  shows "parse_value (Suc n) (show_int i @ r) = Some (JNum (Fin (of_int i)), r)"
proof -
  obtain c t where ct: "show_int i = c # t" by (cases "show_int i") auto
  then have "c = CHR ''-'' \<or> is_digit c" using hd_show_int[of i] by simp
  then have "\<not> json_ws c" "c \<noteq> CHR ''[''" "c \<noteq> CHR ''{''" "c \<noteq> CHR 0x22" "c \<noteq> CHR ''n''" "c \<noteq> CHR ''t''" "c \<noteq> CHR ''f''"
    using digit_start[of c] by (auto simp: json_ws_def)
  with parse_show_int[OF assms] ct show ?thesis by simp
qed

text \<open>With enough fuel: a number that depends on the value only.\<close>

definition parses :: "(nat \<Rightarrow> string \<Rightarrow> ('a \<times> string) option) \<Rightarrow> string \<Rightarrow> 'a \<times> string \<Rightarrow> bool" where
  "parses p s y \<longleftrightarrow> (\<exists>N. \<forall>n\<ge>N. p n s = Some y)"

lemma parsesI: "(\<And>n. N \<le> n \<Longrightarrow> p n s = Some y) \<Longrightarrow> parses p s y"
  by (auto simp: parses_def)

lemma parses_Suc:
  assumes "parses p s y" "\<And>n. p n s = Some y \<Longrightarrow> q (Suc n) t = Some z"
  shows "parses q t z"
proof -
  obtain N where N: "\<And>n. n \<ge> N \<Longrightarrow> p n s = Some y" using assms(1) by (auto simp: parses_def)
  show ?thesis
  proof (rule parsesI[of "Suc N"])
    fix n
    assume "Suc N \<le> n"
    then show "q n t = Some z" using N assms(2) by (cases n) auto
  qed
qed

lemma parses_Suc2:
  assumes "parses p s y" "parses p' s' y'" "\<And>n. p n s = Some y \<Longrightarrow> p' n s' = Some y' \<Longrightarrow> q (Suc n) t = Some z"
  shows "parses q t z"
proof -
  obtain N N' where N: "\<And>n. n \<ge> N \<Longrightarrow> p n s = Some y" "\<And>n. n \<ge> N' \<Longrightarrow> p' n s' = Some y'"
    using assms(1,2) by (auto simp: parses_def)
  show ?thesis
  proof (rule parsesI[of "Suc (N + N')"])
    fix n
    assume "Suc (N + N') \<le> n"
    then show "q n t = Some z" using N assms(3) by (cases n) auto
  qed
qed

lemma after_delim [simp]: "after_number (CHR '','' # r)" "after_number (CHR '']'' # r)" "after_number (CHR ''}'' # r)"
  by (simp_all add: after_number_def is_digit_def)

lemma delim_not_ws [simp]: "\<not> json_ws (CHR '','')" "\<not> json_ws (CHR '']'')" "\<not> json_ws (CHR ''}'')" "\<not> json_ws (CHR '':'')"
  "\<not> json_ws (CHR ''['')" "\<not> json_ws (CHR ''{'')" "\<not> json_ws (CHR 0x22)"
  by (simp_all add: json_ws_def)

lemma parses_elements:
  assumes "xs \<noteq> []" "\<And>x r. x \<in> set xs \<Longrightarrow> after_number r \<Longrightarrow> parses parse_value (stringify x @ r) (as_read x, r)"
  shows "parses parse_elements (join_with '','' (map stringify xs) @ CHR '']'' # r) (map as_read xs, r)"
  using assms
proof (induction xs)
  case (Cons x xs)
  show ?case
  proof (cases xs)
    case Nil
    show ?thesis
      using parses_Suc[OF Cons.prems(2)[of x "CHR '']'' # r"], of parse_elements] Nil by simp
  next
    case (Cons y ys)
    let ?t = "join_with '','' (map stringify xs) @ CHR '']'' # r"
    have "parses parse_elements ?t (map as_read xs, r)"
      using Cons.IH Cons.prems Cons by simp
    then show ?thesis
      using parses_Suc2[OF Cons.prems(2)[of x "CHR '','' # ?t"], of parse_elements ?t _ parse_elements] Cons
      by (simp add: join_with_Cons)
  qed
qed simp

lemma parses_members:
  assumes "kvs \<noteq> []"
    "\<And>k x r. (k, x) \<in> set kvs \<Longrightarrow> after_number r \<Longrightarrow> parses parse_value (stringify x @ r) (as_read x, r)"
  shows "parses parse_members
      (join_with '','' (map (\<lambda>(k, v). json_string k @ '':'' @ stringify v) kvs) @ CHR ''}'' # r)
      (map (map_prod id as_read) kvs, r)"
  using assms
proof (induction kvs)
  case (Cons kv kvs)
  obtain k x where kv: "kv = (k, x)" by (cases kv)
  show ?case
  proof (cases kvs)
    case Nil
    show ?thesis
      using parses_Suc[OF Cons.prems(2)[of k x "CHR ''}'' # r"], of parse_members] Nil kv
      by (simp add: json_string_def parse_json_string)
  next
    case more: (Cons y ys)
    define T where "T = join_with '','' (map (\<lambda>(k, v). json_string k @ '':'' @ stringify v) kvs) @ CHR ''}'' # r"
    have joined: "join_with '','' (map (\<lambda>(k, v). json_string k @ '':'' @ stringify v) (kv # kvs)) @ CHR ''}'' # r =
        json_string k @ '':'' @ stringify x @ CHR '','' # T"
      by (simp add: T_def join_with_Cons kv more)
    have "parses parse_members T (map (map_prod id as_read) kvs, r)"
      using Cons.IH Cons.prems more unfolding T_def by fastforce
    moreover have "parses parse_value (stringify x @ CHR '','' # T) (as_read x, CHR '','' # T)"
      using Cons.prems(2)[of k x "CHR '','' # T"] kv by simp
    ultimately show ?thesis
      unfolding joined by (rule parses_Suc2) (simp add: kv json_string_def parse_json_string, simp add: id_def)
  qed
qed simp

lemma elements_start:
  "xs \<noteq> [] \<Longrightarrow> value_start (join_with '','' (map stringify xs) @ r)"
  "kvs \<noteq> [] \<Longrightarrow> value_start (join_with '','' (map (\<lambda>(k, v). json_string k @ '':'' @ stringify v) kvs) @ r)"
  using stringify_start[of "hd xs"] by (cases xs, simp, simp add: join_with_Cons)
    (cases kvs, simp, simp add: join_with_Cons json_string_def value_start_def split: prod.split)

lemma value_start_open: "value_start s \<Longrightarrow> \<not> startsWith (skip_ws s) '']'' \<and> \<not> startsWith (skip_ws s) ''}''"
  by (cases s) (auto simp: value_start_def)

lemma parses_stringify:
  "json_ok j \<Longrightarrow> after_number r \<Longrightarrow> parses parse_value (stringify j @ r) (as_read j, r)"
proof (induction j arbitrary: r)
  case (JNum i)
  show ?case
  proof (rule parsesI[of 1])
    fix n :: nat
    assume "1 \<le> n"
    then show "parse_value n (stringify (JNum i) @ r) = Some (as_read (JNum i), r)"
      using JNum parse_int[of r i "n - 1"] by simp
  qed
next
  case (JArr xs)
  show ?case
  proof (cases "xs = []")
    case True
    show ?thesis
    proof (rule parsesI[of 1])
      fix n :: nat
      assume "1 \<le> n"
      then show "parse_value n (stringify (JArr xs) @ r) = Some (as_read (JArr xs), r)"
        using True by (cases n) simp_all
    qed
  next
    case False
    have "parses parse_elements (join_with '','' (map stringify xs) @ CHR '']'' # r) (map as_read xs, r)"
      using JArr False by (intro parses_elements) auto
    then show ?thesis
      by (rule parses_Suc) (use value_start_open[OF elements_start(1)[OF False]] in simp)
  qed
next
  case (JObj kvs)
  show ?case
  proof (cases "kvs = []")
    case True
    show ?thesis
    proof (rule parsesI[of 1])
      fix n :: nat
      assume "1 \<le> n"
      then show "parse_value n (stringify (JObj kvs) @ r) = Some (as_read (JObj kvs), r)"
        using True by (cases n) (simp_all add: object_of_def)
    qed
  next
    case False
    have keys: "distinct (map fst (map (map_prod id as_read) kvs))" using JObj.prems(1) by (simp add: comp_def)
    have "parses parse_members (join_with '','' (map (\<lambda>(k, v). json_string k @ '':'' @ stringify v) kvs) @ CHR ''}'' # r)
        (map (map_prod id as_read) kvs, r)"
      using JObj False by (intro parses_members) fastforce+
    then show ?thesis
      by (rule parses_Suc)
        (use value_start_open[OF elements_start(2)[OF False]] keys in \<open>simp add: object_of_distinct\<close>)
  qed
next
  case (JStr x)
  show ?case by (rule parsesI[of 1], case_tac n) (auto simp: json_string_def parse_json_string)
next
  case JNull
  show ?case by (rule parsesI[of 1], case_tac n) (auto simp: json_ws_def)
next
  case (JBool x)
  show ?case by (rule parsesI[of 1], case_tac n) (auto simp: json_ws_def)
qed

lemma JSON_parse_stringify: "json_ok j \<Longrightarrow> JSON_parse (stringify j) = Some (as_read j)"
proof -
  assume "json_ok j"
  then obtain N where N: "\<And>n. n \<ge> N \<Longrightarrow> parse_value n (stringify j) = Some (as_read j, [])"
    using parses_stringify[of j "[]"] by (auto simp: parses_def after_number_def)
  let ?m = "2 * length (stringify j) + 2"
  have "parse_value (max N ?m) (stringify j) = parse_value ?m (stringify j)" by (rule parse_fuel(1)) auto
  with N[of "max N ?m"] have "parse_value ?m (stringify j) = Some (as_read j, [])" by (metis max.cobounded1)
  then show ?thesis unfolding JSON_parse_def by (simp del: parse_value.simps)
qed

end
