(* ===== verification/Data_Model.thy ===== *)
theory Data_Model
  imports Effects Tables Json "HOL-Library.Word"
begin

text \<open>
  The data of the orchestrator: the entities of the database (\<^verbatim>\<open>*.entity.ts\<close>), the payloads of
  the queues (\<^verbatim>\<open>queue/transfer-queue.ts\<close>, \<^verbatim>\<open>events/webhook-queue.ts\<close>), the metrics
  (\<^verbatim>\<open>metrics.service.ts\<close>), and the state all handlers share: the tables in PostgreSQL, the
  queues in Redis, the objects in the store, and the memory of the process.
\<close>

type_synonym byte = "8 word"

section \<open>Entities\<close>

datatype TransferStatus = PENDING | PROCESSING | SUCCESS | FAILED

text \<open>One row of \<^verbatim>\<open>file_transfers\<close>; times are in milliseconds since the epoch.\<close>

record FileTransfer =
  ft_id :: string
  ft_idempotencyKey :: string
  ft_filename :: string
  ft_virtualPath :: string
  ft_sourcePath :: string
  ft_objectKey :: "string option"
  ft_bucket :: string
  ft_sizeBytes :: string
  ft_etag :: "string option"
  ft_checksumSha256 :: "string option"
  ft_encrypted :: bool
  ft_wrappedDek :: "string option"
  ft_status :: TransferStatus
  ft_attempts :: int
  ft_errorLog :: "string option"
  ft_tenantId :: string
  ft_username :: string
  ft_protocol :: "string option"
  ft_sessionId :: "string option"
  ft_createdAt :: int
  ft_updatedAt :: int

text \<open>The payload of a transfer job: the row's id and the trace carrier.\<close>

record TransferJobData =
  tj_transferId :: string
  tj_carrier :: "(string \<times> string) list option"

definition TRANSFER_JOB :: string where
  "TRANSFER_JOB = ''process-transfer''"

record DeadLetterJobData =
  dl_transferId :: string
  dl_reason :: string

datatype OutboxStatus = OUTBOX_PENDING | OUTBOX_PUBLISHED

record OutboxEvent =
  oe_id :: string
  oe_aggregateId :: string
  oe_type :: string
  oe_payload :: TransferJobData
  oe_status :: OutboxStatus
  oe_attempts :: int
  oe_createdAt :: int
  oe_publishedAt :: "int option"

record TenantUsage =
  tu_tenantId :: string
  tu_objectCount :: int
  tu_bytesStored :: int
  tu_updatedAt :: int

datatype EventType = transfer_completed | transfer_failed

text \<open>Column \<^verbatim>\<open>events\<close> holds the wire names of the event types.\<close>

fun event_name :: "EventType \<Rightarrow> string" where
  "event_name transfer_completed = ''transfer.completed''"
| "event_name transfer_failed = ''transfer.failed''"

definition EVENT_TYPES :: "string list" where
  "EVENT_TYPES = [''transfer.completed'', ''transfer.failed'']"

record EventSubscription =
  es_id :: string
  es_tenantId :: string
  es_url :: string
  es_events :: "string list"
  es_secret :: string
  es_active :: bool
  es_createdAt :: int

text \<open>RBAC roles.\<close>

datatype Role = ADMIN | OPERATOR | VIEWER

record User =
  us_id :: string
  us_username :: string
  us_passwordHash :: string
  us_tenantId :: string
  us_roles :: "Role list"
  us_createdAt :: int
  us_updatedAt :: int

text \<open>The authenticated principal (\<^verbatim>\<open>req.user\<close>).\<close>

record AuthUser =
  au_userId :: string
  au_username :: string
  au_roles :: "Role list"
  au_tenantId :: string

section \<open>Events and queues\<close>

record DomainEvent =
  de_type :: EventType
  de_transferId :: string
  de_tenantId :: string
  de_data :: "(string \<times> json) list"

record WebhookDeliveryJob =
  wd_subscriptionId :: string
  wd_url :: string
  wd_secret :: string
  wd_event :: DomainEvent

text \<open>A job of the transfer queue: its name and payload, \<^verbatim>\<open>opts.attempts\<close> as the adding queue's
  default options set it, and the attempts made so far.\<close>

record TransferJob =
  qj_name :: string
  qj_data :: TransferJobData
  qj_attempts :: "int option"
  qj_attemptsMade :: int

section \<open>Metrics\<close>

record Metrics =
  m_success :: int
  m_failed :: int
  m_bytes :: int
  m_durations :: int
  m_inFlight :: int
  m_deadLetter :: int
  m_delivered :: int
  m_deliveryFailed :: int

section \<open>The shared state\<close>

record StoredObject =
  so_body :: "byte list"
  so_contentType :: "string option"

record world =
  w_transfers :: "FileTransfer list"
  w_outbox :: "OutboxEvent list"
  w_usage :: "TenantUsage list"
  w_subs :: "EventSubscription list"
  w_users :: "User list"
  w_queue :: "TransferJob list"
  w_dlq :: "DeadLetterJobData list"
  w_deliveries :: "WebhookDeliveryJob list"
  w_kafka :: "(string \<times> DomainEvent) list"
  w_objects :: "string \<times> string \<Rightarrow> StoredObject option"
  w_buckets :: "string list"
  w_metrics :: Metrics
  w_alerts :: "(string \<times> nat list) list"
    \<comment> \<open>the failure alerts the alert webhook received: URL, text (as code points)\<close>
  w_posts :: "(string \<times> (string \<times> string) list \<times> string) list"
    \<comment> \<open>the webhook requests subscribers received: URL, headers, body\<close>
  w_relaying :: bool
  w_sweeping :: bool
  w_kafkaProducer :: bool
  w_kafkaReady :: bool
  w_now :: int

definition metrics0 :: Metrics where
  "metrics0 = \<lparr>m_success = 0, m_failed = 0, m_bytes = 0, m_durations = 0, m_inFlight = 0,
     m_deadLetter = 0, m_delivered = 0, m_deliveryFailed = 0\<rparr>"

text \<open>An empty installation: no rows, no jobs, no objects.\<close>

definition world0 :: world where
  "world0 = \<lparr>w_transfers = [], w_outbox = [], w_usage = [], w_subs = [], w_users = [],
     w_queue = [], w_dlq = [], w_deliveries = [], w_kafka = [], w_objects = (\<lambda>_. None),
     w_buckets = [], w_metrics = metrics0, w_alerts = [], w_posts = [], w_relaying = False, w_sweeping = False,
     w_kafkaProducer = False, w_kafkaReady = False, w_now = 0\<rparr>"

section \<open>The calls that can fail\<close>

text \<open>One constructor for each place where a handler awaits an outside service; inside a loop the
  call carries the row it is made for.\<close>

datatype call =
    C_InsertTransfer | C_InsertOutbox | C_Commit
  | C_FindPending | C_QueueAdd string | C_MarkPublished string
  | C_FindById | C_MarkProcessing | C_MarkSuccess | C_MarkFailed string | C_FindFailed
  | C_Stat | C_Scan | C_ReadSource | C_HeadBucket | C_CreateBucket | C_Upload | C_GetObject | C_HeadObject
  | C_GetUsage | C_RecordUsage
  | C_KafkaConnect | C_KafkaDisconnect | C_KafkaSend | C_FindSubs | C_DeliveryAdd string | C_DlqAdd
  | C_FindStuck | C_DeleteTerminal | C_List | C_Find | C_Reset string | C_FindOrFail
  | C_SetConfig | C_CountUsers | C_ExistUser | C_SaveUser | C_FindUser | C_SaveSub | C_DeleteSub
  | C_Deliver | C_Alert
  | C_RedisClient | C_RedisPing

section \<open>Table primitives\<close>

definition upd_transfer :: "string \<Rightarrow> (FileTransfer \<Rightarrow> FileTransfer) \<Rightarrow> world \<Rightarrow> world" where
  "upd_transfer i f w = w\<lparr>w_transfers := row_update ft_id i f (w_transfers w)\<rparr>"

definition upd_outbox :: "string \<Rightarrow> (OutboxEvent \<Rightarrow> OutboxEvent) \<Rightarrow> world \<Rightarrow> world" where
  "upd_outbox i f w = w\<lparr>w_outbox := row_update oe_id i f (w_outbox w)\<rparr>"

interpretation transfers: row_store w_transfers ft_id upd_transfer
  by unfold_locales (simp add: upd_transfer_def)

interpretation outbox: row_store w_outbox oe_id upd_outbox
  by unfold_locales (simp add: upd_outbox_def)

abbreviation find_transfer :: "string \<Rightarrow> world \<Rightarrow> FileTransfer option" where
  "find_transfer i w \<equiv> row_find ft_id i (w_transfers w)"

text \<open>Updating one table leaves every other part of the state as it is.\<close>

lemma upd_transfer_frame [simp]:
  "w_outbox (upd_transfer i f w) = w_outbox w" "w_usage (upd_transfer i f w) = w_usage w"
  "w_subs (upd_transfer i f w) = w_subs w" "w_users (upd_transfer i f w) = w_users w"
  "w_queue (upd_transfer i f w) = w_queue w" "w_dlq (upd_transfer i f w) = w_dlq w"
  "w_deliveries (upd_transfer i f w) = w_deliveries w" "w_kafka (upd_transfer i f w) = w_kafka w"
  "w_objects (upd_transfer i f w) = w_objects w" "w_buckets (upd_transfer i f w) = w_buckets w"
  "w_metrics (upd_transfer i f w) = w_metrics w" "w_alerts (upd_transfer i f w) = w_alerts w"
  "w_relaying (upd_transfer i f w) = w_relaying w" "w_sweeping (upd_transfer i f w) = w_sweeping w"
  "w_posts (upd_transfer i f w) = w_posts w" "w_kafkaProducer (upd_transfer i f w) = w_kafkaProducer w"
  "w_kafkaReady (upd_transfer i f w) = w_kafkaReady w" "w_now (upd_transfer i f w) = w_now w"
  by (simp_all add: upd_transfer_def)

lemma upd_outbox_frame [simp]:
  "w_transfers (upd_outbox i f w) = w_transfers w" "w_queue (upd_outbox i f w) = w_queue w"
  "w_objects (upd_outbox i f w) = w_objects w" "w_relaying (upd_outbox i f w) = w_relaying w"
  "w_metrics (upd_outbox i f w) = w_metrics w" "w_now (upd_outbox i f w) = w_now w"
  by (simp_all add: upd_outbox_def)

text \<open>A row on which properties are applied.\<close>

definition transfer1 :: FileTransfer where
  "transfer1 = \<lparr>ft_id = ''t1'', ft_idempotencyKey = ''k1'', ft_filename = ''q.csv'', ft_virtualPath = ''/in/q.csv'',
     ft_sourcePath = ''/data/in/q.csv'', ft_objectKey = None, ft_bucket = ''landing'', ft_sizeBytes = ''2'',
     ft_etag = None, ft_checksumSha256 = None, ft_encrypted = False, ft_wrappedDek = None, ft_status = PENDING,
     ft_attempts = 0, ft_errorLog = None, ft_tenantId = ''acme'', ft_username = ''alice'', ft_protocol = None,
     ft_sessionId = None, ft_createdAt = 0, ft_updatedAt = 0\<rparr>"

end
