(* ===== verification/Services.thy ===== *)
theory Services
  imports Data_Model
begin

text \<open>
  What the program calls and this development does not define: the parameters of the model. One
  record carries, for one run of a handler, the faults of its calls and the answers of the
  outside world: the file system, the virus scanner, the hash functions and the cipher of
  \<^verbatim>\<open>node:crypto\<close>, its random bytes, the UUIDs PostgreSQL generates, and the ETag the object
  store computes. Nothing is assumed of them here; a property that needs a fact about one of
  them names it as a hypothesis.
\<close>

record services =
  sv_fault :: "call \<Rightarrow> fault"
  sv_stat :: "string \<Rightarrow> (bool \<times> int) option"
    \<comment> \<open>\<^verbatim>\<open>stat(path)\<close>: \<^verbatim>\<open>isFile()\<close> and \<^verbatim>\<open>size\<close>, or that it failed\<close>
  sv_chunks :: "call \<Rightarrow> string \<Rightarrow> byte list list"
    \<comment> \<open>the chunks a read stream of the file delivers, for each of the handler's reads\<close>
  sv_clamd :: "byte list \<Rightarrow> string"
    \<comment> \<open>clamd's reply to the bytes sent on the connection\<close>
  sv_md5 :: "byte list \<Rightarrow> string"
  sv_sha256 :: "byte list \<Rightarrow> string"
  sv_hmac :: "string \<Rightarrow> string \<Rightarrow> string"
    \<comment> \<open>HMAC-SHA256 in hexadecimal: the secret, then the message\<close>
  sv_keystream :: "byte list \<Rightarrow> byte list \<Rightarrow> nat \<Rightarrow> byte"
    \<comment> \<open>AES-256 in counter mode: key, IV and position\<close>
  sv_tag :: "byte list \<Rightarrow> byte list \<Rightarrow> byte list \<Rightarrow> byte list"
    \<comment> \<open>the GCM authentication tag: key, IV and ciphertext\<close>
  sv_dek :: "byte list"
  sv_iv :: "byte list"
  sv_wrapIv :: "byte list"
    \<comment> \<open>the three \<^verbatim>\<open>randomBytes\<close> draws of one encryption\<close>
  sv_etag :: "bool \<Rightarrow> byte list \<Rightarrow> string option"
    \<comment> \<open>the ETag of an object stored by one request, or (\<^term>\<open>True\<close>) in several parts\<close>
  sv_uuid :: "string \<Rightarrow> string"
    \<comment> \<open>the UUID generated for a new row, by table\<close>
  sv_secret :: string
    \<comment> \<open>\<^verbatim>\<open>randomBytes(24)\<close> in hexadecimal, for a new subscription\<close>
  sv_status :: "string \<Rightarrow> int"
    \<comment> \<open>the HTTP status a POST to the URL is answered with\<close>

text \<open>One awaited call under the fault that the services give it.\<close>

definition call :: "services \<Rightarrow> call \<Rightarrow> (world, 'a) act \<Rightarrow> (world, 'a) act" where
  "call sv c m = await (sv_fault sv c) m"

lemma keeps_call [eff]: "keeps P m \<Longrightarrow> keeps P (call sv c m)"
  by (simp add: call_def keeps_await)

lemma frame_call [eff]: "frame f m \<Longrightarrow> frame f (call sv c m)"
  by (simp add: call_def frame_await)

lemma depends_call [eff]: "depends f m \<Longrightarrow> depends f (call sv c m)"
  by (simp add: call_def depends_await)

lemma call_Done_iff: "call sv c m w = (Done a, w') \<longleftrightarrow> sv_fault sv c = Healthy \<and> m w = (Done a, w')"
  by (simp add: call_def await_Done_iff)

lemma call_Healthy: "sv_fault sv c = Healthy \<Longrightarrow> call sv c m = m"
  by (simp add: call_def)

text \<open>A call leaves the state as it was or as the action itself leaves it.\<close>

lemma snd_call: "snd (call sv c m w) = w \<or> snd (call sv c m w) = snd (m w)"
  by (auto simp: call_def await_def split: fault.splits)

lemma call_gets: "snd (call sv c (gets f) w) = w"
  using snd_call[of sv c "gets f" w] by (auto simp: gets_def)

text \<open>Services in which no call fails.\<close>

definition healthy :: "services \<Rightarrow> bool" where
  "healthy sv \<longleftrightarrow> (\<forall>c. sv_fault sv c = Healthy)"

text \<open>Services in which calls may fail, but the process does not die.\<close>

definition no_crash :: "services \<Rightarrow> bool" where
  "no_crash sv \<longleftrightarrow> (\<forall>c. sv_fault sv c \<noteq> CrashBefore \<and> sv_fault sv c \<noteq> CrashAfter)"

lemma calm_call: "no_crash sv \<Longrightarrow> calm m \<Longrightarrow> calm (call sv c m)"
  by (simp add: no_crash_def call_def calm_await)

lemma healthy_call [simp]: "healthy sv \<Longrightarrow> call sv c m = m"
  by (simp add: healthy_def call_Healthy)

text \<open>A concrete installation without faults, on which the properties are applied: every file is
  the two bytes 104 and 105 read as two chunks, a hash is its input read as text, the key
  stream is a constant, clamd finds nothing.\<close>

definition show_bytes :: "byte list \<Rightarrow> string" where
  "show_bytes bs = map (\<lambda>b. char_of (unat b)) bs"

lemma show_bytes_inj: "inj show_bytes"
proof (rule injI)
  fix x y
  assume "show_bytes x = show_bytes y"
  then have "map of_char (show_bytes x) = (map of_char (show_bytes y) :: nat list)" by simp
  moreover have "map of_char (show_bytes z) = map unat z" for z
  proof -
    have "unat b < 256" for b :: byte
      by (rule order.strict_trans2[OF unsigned_less]) simp
    then show ?thesis by (simp add: show_bytes_def)
  qed
  ultimately have "map unat x = map unat y" by simp
  then show "x = y" by (simp add: inj_map_eq_map)
qed

definition sv0 :: services where
  "sv0 = \<lparr>sv_fault = (\<lambda>_. Healthy), sv_stat = (\<lambda>_. Some (True, 2)), sv_chunks = (\<lambda>_ _. [[104], [105]]),
     sv_clamd = (\<lambda>_. ''stream: OK''), sv_md5 = show_bytes, sv_sha256 = show_bytes,
     sv_hmac = (\<lambda>k m. k @ m), sv_keystream = (\<lambda>_ _ _. 7), sv_tag = (\<lambda>_ _ _. replicate 16 1),
     sv_dek = replicate 32 9, sv_iv = replicate 12 8, sv_wrapIv = replicate 12 7,
     sv_etag = (\<lambda>multi b. Some (show_bytes b)), sv_uuid = (\<lambda>t. t @ ''-1''), sv_secret = ''5ec'',
     sv_status = (\<lambda>_. 200)\<rparr>"

text \<open>The same installation with one call failing.\<close>

definition with_fault :: "call \<Rightarrow> fault \<Rightarrow> services \<Rightarrow> services" where
  "with_fault c f sv = sv\<lparr>sv_fault := (sv_fault sv)(c := f)\<rparr>"

lemma healthy_sv0 [simp]: "healthy sv0"
  by (simp add: healthy_def sv0_def)

lemma with_fault_sel [simp]: "sv_fault (with_fault c f sv) = (sv_fault sv)(c := f)"
  "sv_uuid (with_fault c f sv) = sv_uuid sv" "sv_chunks (with_fault c f sv) = sv_chunks sv"
  "sv_stat (with_fault c f sv) = sv_stat sv"
  by (simp_all add: with_fault_def)

end
