(* ===== verification/Repository.thy ===== *)
theory Repository
  imports Services
begin

text \<open>
  \<^verbatim>\<open>ingestion/file-transfer.repository.ts\<close>: the data-access boundary of \<^verbatim>\<open>file_transfers\<close>, one
  definition for each method. A statement that updates a row also sets \<^verbatim>\<open>updated_at\<close>, as an
  \<^verbatim>\<open>@UpdateDateColumn\<close> does. The row-level lemmas say what each operation does to the row it
  names and to all the others; the table-level ones, what it keeps.
\<close>

section \<open>Operations\<close>

definition PG_UNIQUE_VIOLATION :: string where
  "PG_UNIQUE_VIOLATION = ''23505''"

record CreatePendingInput =
  cp_idempotencyKey :: string
  cp_tenantId :: string
  cp_filename :: string
  cp_virtualPath :: string
  cp_sourcePath :: string
  cp_bucket :: string
  cp_sizeBytes :: string
  cp_username :: string
  cp_protocol :: "string option"
  cp_sessionId :: "string option"

text \<open>The entity as inserted: the input with status PENDING and no attempts, the database's
  defaults in the other columns.\<close>

definition new_transfer :: "string \<Rightarrow> int \<Rightarrow> CreatePendingInput \<Rightarrow> FileTransfer" where
  "new_transfer i now inp =
     \<lparr>ft_id = i, ft_idempotencyKey = cp_idempotencyKey inp, ft_filename = cp_filename inp,
      ft_virtualPath = cp_virtualPath inp, ft_sourcePath = cp_sourcePath inp,
      ft_objectKey = None, ft_bucket = cp_bucket inp, ft_sizeBytes = cp_sizeBytes inp,
      ft_etag = None, ft_checksumSha256 = None, ft_encrypted = False, ft_wrappedDek = None,
      ft_status = PENDING, ft_attempts = 0, ft_errorLog = None, ft_tenantId = cp_tenantId inp,
      ft_username = cp_username inp, ft_protocol = cp_protocol inp,
      ft_sessionId = cp_sessionId inp, ft_createdAt = now, ft_updatedAt = now\<rparr>"

text \<open>The INSERT: the primary key and the unique index on \<^verbatim>\<open>idempotency_key\<close> reject a duplicate.\<close>

definition insert_transfer :: "string \<Rightarrow> CreatePendingInput \<Rightarrow> (world, FileTransfer) act" where
  "insert_transfer i inp = (\<lambda>w.
     let row = new_transfer i (w_now w) inp in
     if i \<in> ft_id ` set (w_transfers w)
        \<or> cp_idempotencyKey inp \<in> ft_idempotencyKey ` set (w_transfers w)
     then (Raised (QueryFailedError PG_UNIQUE_VIOLATION ''duplicate key value''), w)
     else (Done row, w\<lparr>w_transfers := w_transfers w @ [row]\<rparr>))"

fun unique_violation :: "js_error \<Rightarrow> bool" where
  "unique_violation (QueryFailedError c m) = (c = PG_UNIQUE_VIOLATION)"
| "unique_violation _ = False"

definition createPendingIfAbsent ::
    "services \<Rightarrow> CreatePendingInput \<Rightarrow> (world, FileTransfer option) act" where
  "createPendingIfAbsent sv inp =
     try_catch
       (bnd (call sv C_InsertTransfer (insert_transfer (sv_uuid sv ''file_transfers'') inp))
          (\<lambda>row. ret (Some row)))
       (\<lambda>e. if unique_violation e then ret None else throw e)"

definition findById :: "services \<Rightarrow> call \<Rightarrow> string \<Rightarrow> (world, FileTransfer option) act" where
  "findById sv c i = call sv c (gets (find_transfer i))"

text \<open>The columns each status change sets.\<close>

definition set_processing :: "int \<Rightarrow> FileTransfer \<Rightarrow> FileTransfer" where
  "set_processing now r =
     r\<lparr>ft_status := PROCESSING, ft_attempts := ft_attempts r + 1, ft_errorLog := None,
       ft_updatedAt := now\<rparr>"

definition set_success ::
    "string \<Rightarrow> string \<Rightarrow> string option \<Rightarrow> string option \<Rightarrow> bool \<Rightarrow> string option \<Rightarrow>
     int \<Rightarrow> FileTransfer \<Rightarrow> FileTransfer" where
  "set_success bucket objectKey etag checksum encrypted wrappedDek now r =
     r\<lparr>ft_status := SUCCESS, ft_bucket := bucket, ft_objectKey := Some objectKey,
       ft_etag := etag, ft_checksumSha256 := checksum, ft_encrypted := encrypted,
       ft_wrappedDek := wrappedDek, ft_errorLog := None, ft_updatedAt := now\<rparr>"

definition set_failed :: "string \<Rightarrow> int \<Rightarrow> FileTransfer \<Rightarrow> FileTransfer" where
  "set_failed errorLog now r =
     r\<lparr>ft_status := FAILED, ft_errorLog := Some errorLog, ft_updatedAt := now\<rparr>"

definition reset_row :: "int \<Rightarrow> FileTransfer \<Rightarrow> FileTransfer" where
  "reset_row now r =
     r\<lparr>ft_status := PENDING, ft_attempts := 0, ft_errorLog := None, ft_updatedAt := now\<rparr>"

definition markProcessing :: "services \<Rightarrow> string \<Rightarrow> (world, unit) act" where
  "markProcessing sv i =
     call sv C_MarkProcessing (modify (\<lambda>w. upd_transfer i (set_processing (w_now w)) w))"

definition markSuccess ::
    "services \<Rightarrow> string \<Rightarrow> string \<Rightarrow> string \<Rightarrow> string option \<Rightarrow> string option \<Rightarrow> bool \<Rightarrow> string option \<Rightarrow>
     (world, unit) act" where
  "markSuccess sv i bucket objectKey etag checksum encrypted wrappedDek =
     call sv C_MarkSuccess (modify (\<lambda>w. upd_transfer i
       (set_success bucket objectKey etag checksum encrypted wrappedDek (w_now w)) w))"

definition markFailed :: "services \<Rightarrow> string \<Rightarrow> string \<Rightarrow> (world, unit) act" where
  "markFailed sv i errorLog =
     call sv (C_MarkFailed i) (modify (\<lambda>w. upd_transfer i (set_failed errorLog (w_now w)) w))"

definition retry_rows :: "TransferStatus \<Rightarrow> int option \<Rightarrow> nat \<Rightarrow> FileTransfer list \<Rightarrow> FileTransfer list" where
  "retry_rows status before limit rows =
     take limit (order_asc ft_createdAt (filter (\<lambda>r. ft_status r = status \<and>
       (case before of None \<Rightarrow> True | Some b \<Rightarrow> ft_updatedAt r < b)) rows))"

definition findForRetryBatch ::
    "services \<Rightarrow> TransferStatus \<Rightarrow> int option \<Rightarrow> nat \<Rightarrow> (world, FileTransfer list) act" where
  "findForRetryBatch sv status before limit =
     call sv C_Find (gets (\<lambda>w. retry_rows status before limit (w_transfers w)))"

definition resetForRetry :: "services \<Rightarrow> string \<Rightarrow> (world, unit) act" where
  "resetForRetry sv i = call sv (C_Reset i) (modify (\<lambda>w. upd_transfer i (reset_row (w_now w)) w))"

text \<open>\<^verbatim>\<open>findAndCount\<close>: one page, newest first, and the number of rows of all pages.\<close>

definition list_page ::
    "TransferStatus option \<Rightarrow> nat \<Rightarrow> nat \<Rightarrow> FileTransfer list \<Rightarrow> FileTransfer list \<times> nat" where
  "list_page status limit offset rows =
     (let matching = filter (\<lambda>r. case status of None \<Rightarrow> True | Some s \<Rightarrow> ft_status r = s) rows
      in (take limit (drop offset (order_desc ft_createdAt matching)), length matching))"

definition repo_list ::
    "services \<Rightarrow> TransferStatus option \<Rightarrow> nat \<Rightarrow> nat \<Rightarrow> (world, FileTransfer list \<times> nat) act" where
  "repo_list sv status limit offset =
     call sv C_List (gets (\<lambda>w. list_page status limit offset (w_transfers w)))"

definition purgeable :: "int \<Rightarrow> FileTransfer \<Rightarrow> bool" where
  "purgeable cutoff r \<longleftrightarrow> ft_status r \<in> {SUCCESS, FAILED} \<and> ft_updatedAt r < cutoff"

definition deleteTerminalOlderThan :: "services \<Rightarrow> int \<Rightarrow> (world, nat) act" where
  "deleteTerminalOlderThan sv cutoff = call sv C_DeleteTerminal (\<lambda>w.
     (Done (length (filter (purgeable cutoff) (w_transfers w))),
      w\<lparr>w_transfers := filter (\<lambda>r. \<not> purgeable cutoff r) (w_transfers w)\<rparr>))"

definition stuck_rows :: "int \<Rightarrow> nat \<Rightarrow> FileTransfer list \<Rightarrow> FileTransfer list" where
  "stuck_rows staleBefore limit rows =
     take limit (order_asc ft_updatedAt (filter (\<lambda>r.
       ft_status r \<in> {PENDING, PROCESSING} \<and> ft_updatedAt r < staleBefore) rows))"

definition findStuck :: "services \<Rightarrow> int \<Rightarrow> nat \<Rightarrow> (world, FileTransfer list) act" where
  "findStuck sv staleBefore limit =
     call sv C_FindStuck (gets (\<lambda>w. stuck_rows staleBefore limit (w_transfers w)))"

section \<open>The invariant of the table\<close>

text \<open>The columns no operation changes after the insert.\<close>

definition ident :: "FileTransfer \<Rightarrow> string \<times> string \<times> string \<times> string \<times> string \<times> string \<times> string \<times> string \<times> int" where
  "ident r = (ft_id r, ft_idempotencyKey r, ft_filename r, ft_virtualPath r, ft_sourcePath r,
     ft_sizeBytes r, ft_tenantId r, ft_username r, ft_createdAt r)"

text \<open>A row is well-formed when its columns agree with its status: an error text exactly when it
  FAILED, an object key and a checksum when it succeeded, a wrapped key exactly when the object
  is encrypted.\<close>

definition row_wf :: "FileTransfer \<Rightarrow> bool" where
  "row_wf r \<longleftrightarrow> 0 \<le> ft_attempts r \<and>
     (ft_errorLog r \<noteq> None \<longleftrightarrow> ft_status r = FAILED) \<and>
     (ft_encrypted r \<longleftrightarrow> ft_wrappedDek r \<noteq> None) \<and>
     (ft_status r = SUCCESS \<longrightarrow> ft_objectKey r \<noteq> None \<and> ft_checksumSha256 r \<noteq> None)"

definition transfers_ok :: "world \<Rightarrow> bool" where
  "transfers_ok w \<longleftrightarrow> distinct (map ft_id (w_transfers w)) \<and>
     distinct (map ft_idempotencyKey (w_transfers w)) \<and> list_all row_wf (w_transfers w)"

text \<open>The contract of a status change: it keeps the identity of the row and its
  well-formedness, and stamps it.\<close>

locale row_patch =
  fixes patch :: "int \<Rightarrow> FileTransfer \<Rightarrow> FileTransfer"
  assumes patch_ident: "ident (patch now r) = ident r"
    and patch_wf: "row_wf r \<Longrightarrow> row_wf (patch now r)"
    and patch_stamp: "ft_updatedAt (patch now r) = now"
begin

lemma patch_id: "ft_id (patch now r) = ft_id r"
  and patch_key: "ft_idempotencyKey (patch now r) = ft_idempotencyKey r"
  and patch_tenant: "ft_tenantId (patch now r) = ft_tenantId r"
  using patch_ident[of now r] by (simp_all add: ident_def)

lemma patch_keeps_ok: "transfers_ok w \<Longrightarrow> transfers_ok (upd_transfer i (patch now) w)"
  by (auto simp: transfers_ok_def transfers.map_upd patch_id patch_key list_all_iff patch_wf
      elim: transfers.all_upd[where Q = row_wf, rotated 2])

lemma patch_find_same:
  "find_transfer i (upd_transfer i (patch now) w) = map_option (patch now) (find_transfer i w)"
  by (rule transfers.find_upd_same) (rule patch_id)

lemma patch_find_other:
  "i \<noteq> j \<Longrightarrow> find_transfer j (upd_transfer i (patch now) w) = find_transfer j w"
  by (rule transfers.find_upd_other) (rule patch_id)

lemma patch_idents: "map ident (w_transfers (upd_transfer i (patch now) w)) = map ident (w_transfers w)"
  by (rule transfers.map_upd) (rule patch_ident)

end

interpretation processing: row_patch set_processing
  by unfold_locales (auto simp: set_processing_def ident_def row_wf_def)

interpretation success: row_patch "set_success b k e (Some c) (d \<noteq> None) d" for b k e c d
  by unfold_locales (auto simp: set_success_def ident_def row_wf_def)

interpretation failed: row_patch "set_failed m" for m
  by unfold_locales (auto simp: set_failed_def ident_def row_wf_def)

interpretation reset: row_patch reset_row
  by unfold_locales (auto simp: reset_row_def ident_def row_wf_def)

subsection \<open>Every operation keeps it\<close>

lemma keeps_ok_insert [eff]: "keeps transfers_ok (insert_transfer i inp)"
  by (auto simp: keeps_def insert_transfer_def transfers_ok_def new_transfer_def row_wf_def Let_def)

lemma keeps_ok_create [eff]: "keeps transfers_ok (createPendingIfAbsent sv inp)"
  unfolding createPendingIfAbsent_def by (intro eff)

lemma keeps_findById [eff]: "keeps P (findById sv c i)"
  unfolding findById_def by (intro eff)

lemma keeps_ok_markProcessing [eff]: "keeps transfers_ok (markProcessing sv i)"
  unfolding markProcessing_def by (intro eff keeps_modify processing.patch_keeps_ok)

lemma keeps_ok_markSuccess [eff]:
  "keeps transfers_ok (markSuccess sv i b k e (Some c) (d \<noteq> None) d)"
  unfolding markSuccess_def by (intro eff keeps_modify success.patch_keeps_ok)

lemma keeps_ok_markFailed [eff]: "keeps transfers_ok (markFailed sv i m)"
  unfolding markFailed_def by (intro eff keeps_modify failed.patch_keeps_ok)

lemma keeps_ok_resetForRetry [eff]: "keeps transfers_ok (resetForRetry sv i)"
  unfolding resetForRetry_def by (intro eff keeps_modify reset.patch_keeps_ok)

lemma transfers_ok_filter:
  "transfers_ok w \<Longrightarrow> transfers_ok (w\<lparr>w_transfers := filter p (w_transfers w)\<rparr>)"
  by (auto simp: transfers_ok_def list_all_iff distinct_map_filter)

lemma keeps_ok_deleteTerminal [eff]: "keeps transfers_ok (deleteTerminalOlderThan sv cutoff)"
  unfolding deleteTerminalOlderThan_def
  by (intro eff) (simp add: keeps_def transfers_ok_filter)

lemma keeps_findStuck [eff]: "keeps P (findStuck sv b l)"
  unfolding findStuck_def by (intro eff)

lemma frame_findById [eff]: "frame f (findById sv c i)"
  unfolding findById_def by (intro eff)

subsection \<open>Transfers and the rest of the state\<close>

text \<open>A status change touches the transfer table only.\<close>

lemma frame_modify_transfer: "(\<And>w i g. f (upd_transfer i g w) = f w) \<Longrightarrow>
    frame f (markProcessing sv i)"
  "(\<And>w i g. f (upd_transfer i g w) = f w) \<Longrightarrow> frame f (markSuccess sv i b k e c n d)"
  "(\<And>w i g. f (upd_transfer i g w) = f w) \<Longrightarrow> frame f (markFailed sv i m)"
  "(\<And>w i g. f (upd_transfer i g w) = f w) \<Longrightarrow> frame f (resetForRetry sv i)"
  unfolding markProcessing_def markSuccess_def markFailed_def resetForRetry_def
  by (intro eff frame_modify; simp)+

section \<open>The queries\<close>

text \<open>What a cut of an ordered selection is: a sublist of the matching rows, at most as long as
  the limit, and no row left out comes before one that was returned.\<close>

lemma take_order_asc_spec:
  fixes k :: "'r \<Rightarrow> int" and p :: "'r \<Rightarrow> bool" and n :: nat and rows :: "'r list"
  defines "res \<equiv> take n (order_asc k (filter p rows))"
  shows "set res \<subseteq> {r \<in> set rows. p r}" and "length res = min n (length (filter p rows))"
    and "sorted (map k res)"
    and "\<And>r s. r \<in> set res \<Longrightarrow> s \<in> set (drop n (order_asc k (filter p rows))) \<Longrightarrow> k r \<le> k s"
proof -
  let ?o = "order_asc k (filter p rows)"
  have sub: "set (take n ?o) \<subseteq> set ?o" by (rule set_take_subset)
  then show "set res \<subseteq> {r \<in> set rows. p r}" unfolding res_def by auto
  show "length res = min n (length (filter p rows))"
    unfolding res_def by (simp add: min.commute)
  have sorted: "sorted (map k (take n ?o @ drop n ?o))"
    by (simp add: sorted_order_asc)
  then have app: "sorted (map k (take n ?o))"
      "\<forall>x\<in>set (take n ?o). \<forall>y\<in>set (drop n ?o). k x \<le> k y"
    unfolding map_append sorted_append set_map by (blast, blast)
  show "sorted (map k res)" using app(1) by (simp add: res_def)
  show "k r \<le> k s" if "r \<in> set res" "s \<in> set (drop n ?o)" for r s
    using app(2) that by (simp add: res_def)
qed

lemma stuck_rows_spec:
  "set (stuck_rows b n rows) \<subseteq> {r \<in> set rows. ft_status r \<in> {PENDING, PROCESSING} \<and> ft_updatedAt r < b}"
  "length (stuck_rows b n rows) \<le> n"
  "sorted (map ft_updatedAt (stuck_rows b n rows))"
  unfolding stuck_rows_def
  by (rule take_order_asc_spec(1)) (simp, rule take_order_asc_spec(3))

lemma stuck_rows_distinct:
  "distinct (map ft_id rows) \<Longrightarrow> distinct (map ft_id (stuck_rows b n rows))"
  by (simp add: stuck_rows_def take_map[symmetric] distinct_take distinct_map_filter)

lemma retry_rows_spec:
  "set (retry_rows s b n rows) \<subseteq>
     {r \<in> set rows. ft_status r = s \<and> (case b of None \<Rightarrow> True | Some t \<Rightarrow> ft_updatedAt r < t)}"
  "length (retry_rows s b n rows) \<le> n"
  unfolding retry_rows_def by (rule take_order_asc_spec(1)) simp

end
