(* ===== verification/Config.thy ===== *)
theory Config
  imports Data_Model
begin

text \<open>
  The typed configuration tree of \<^verbatim>\<open>config/configuration.ts\<close>: one record for each section, as
  \<^verbatim>\<open>AppConfig\<close> has them. The interface promises the components numbers, strings and decoded maps;
  the factory casts what the environment holds to them. The records are therefore parametrized
  over the type of the numbers, of the variables that are cast to \<^verbatim>\<open>string\<close> and of the three values
  parsed from JSON: the components read the instance with integers, strings and records
  (\<^verbatim>\<open>app_config\<close>), the factory (theory \<^verbatim>\<open>Environment\<close>) builds the one with JavaScript numbers,
  optional strings and JSON values, and the properties there bound what it holds after validation.
\<close>

record ('n, 's) AppSection =
  app_nodeEnv :: string
  app_port :: 'n
  app_webhookSecret :: 's
  app_logLevel :: string
  app_logPretty :: bool
  app_transferMaxAttempts :: 'n
  app_transferRetryBackoffMs :: 'n
  app_ingestionDataRoot :: 's
  app_workerConcurrency :: 'n
  app_maxPayloadBytes :: 'n

record 'n ThrottleSection =
  throttle_ttlMs :: 'n
  throttle_limit :: 'n

record 's AuthSection =
  auth_jwtSecret :: 's
  auth_jwtExpiresIn :: string
  auth_adminUsername :: string
  auth_adminPassword :: 's

record AlertsSection =
  alerts_enabled :: bool
  alerts_webhookUrl :: "string option"

record 'n RecoverySection =
  recovery_enabled :: bool
  recovery_staleMs :: 'n
  recovery_batchSize :: 'n

record ('n, 's) RedisSection =
  redis_host :: 's
  redis_port :: 'n
  redis_password :: "string option"

record ('n, 's) DatabaseSection =
  db_host :: 's
  db_port :: 'n
  db_username :: 's
  db_password :: 's
  db_database :: 's
  db_synchronize :: bool
  db_logging :: bool

record ('n, 's) S3Section =
  s3_endpoint :: "string option"
  s3_region :: 's
  s3_bucket :: 's
  s3_accessKeyId :: 's
  s3_secretAccessKey :: 's
  s3_forcePathStyle :: bool
  s3_uploadPartSizeBytes :: 'n
  s3_uploadConcurrency :: 'n

record 'n PipelineSection =
  pipeline_maxFileSizeBytes :: 'n
  pipeline_avEnabled :: bool
  pipeline_clamavHost :: string
  pipeline_clamavPort :: 'n

record EncryptionSection =
  enc_enabled :: bool
  enc_kek :: "string option"

text \<open>A routing rule: unset fields of the match accept anything.\<close>

record RoutingMatch =
  rm_username :: "string option"
  rm_extension :: "string option"
  rm_pathPrefix :: "string option"

record RoutingRule =
  rr_match :: RoutingMatch
  rr_bucket :: "string option"
  rr_prefix :: "string option"

record 't TenancySection =
  tenancy_defaultTenant :: string
  tenancy_map :: 't

record QuotaEntry =
  qe_maxBytes :: "int option"
  qe_maxObjects :: "int option"

record ('n, 'q) QuotasSection =
  quotas_defaultMaxBytes :: 'n
  quotas_defaultMaxObjects :: 'n
  quotas_map :: 'q

record KafkaSection =
  kafka_enabled :: bool
  kafka_brokers :: "string list"
  kafka_clientId :: string
  kafka_eventsTopic :: string

record ('n, 's, 'r, 't, 'q) AppConfig =
  cfg_app :: "('n, 's) AppSection"
  cfg_throttle :: "'n ThrottleSection"
  cfg_auth :: "'s AuthSection"
  cfg_alerts :: AlertsSection
  cfg_recovery :: "'n RecoverySection"
  cfg_retentionAuditDays :: 'n
  cfg_redis :: "('n, 's) RedisSection"
  cfg_database :: "('n, 's) DatabaseSection"
  cfg_s3 :: "('n, 's) S3Section"
  cfg_pipeline :: "'n PipelineSection"
  cfg_encryption :: EncryptionSection
  cfg_routingRules :: 'r
  cfg_tenancy :: "'t TenancySection"
  cfg_quotas :: "('n, 'q) QuotasSection"
  cfg_kafka :: KafkaSection

text \<open>The configuration as the components read it.\<close>

type_synonym app_section = "(int, string) AppSection"
type_synonym auth_section = "string AuthSection"
type_synonym recovery_section = "int RecoverySection"
type_synonym s3_section = "(int, string) S3Section"
type_synonym pipeline_section = "int PipelineSection"
type_synonym tenancy_section = "(string \<times> string) list TenancySection"
type_synonym quotas_section = "(int, (string \<times> QuotaEntry) list) QuotasSection"
type_synonym app_config =
  "(int, string, RoutingRule list, (string \<times> string) list, (string \<times> QuotaEntry) list) AppConfig"

section \<open>A concrete configuration\<close>

text \<open>The configuration on which the properties are applied: the defaults of \<^verbatim>\<open>configuration.ts\<close>
  with the data root \<^verbatim>\<open>/data\<close>, two tenants with a quota and one routing rule.\<close>

definition app0 :: app_section where
  "app0 = \<lparr>app_nodeEnv = ''production'', app_port = 3000, app_webhookSecret = ''s3cret'', app_logLevel = ''info'',
     app_logPretty = False, app_transferMaxAttempts = 3, app_transferRetryBackoffMs = 5000,
     app_ingestionDataRoot = ''/data'', app_workerConcurrency = 4, app_maxPayloadBytes = 1048576\<rparr>"

definition cfg0 :: app_config where
  "cfg0 = \<lparr>cfg_app = app0,
     cfg_throttle = \<lparr>throttle_ttlMs = 60000, throttle_limit = 100\<rparr>,
     cfg_auth = \<lparr>auth_jwtSecret = ''jwt'', auth_jwtExpiresIn = ''15m'', auth_adminUsername = ''admin'',
       auth_adminPassword = ''pw''\<rparr>,
     cfg_alerts = \<lparr>alerts_enabled = True, alerts_webhookUrl = Some ''https://alerts''\<rparr>,
     cfg_recovery = \<lparr>recovery_enabled = True, recovery_staleMs = 1000, recovery_batchSize = 50\<rparr>,
     cfg_retentionAuditDays = 30,
     cfg_redis = \<lparr>redis_host = ''redis'', redis_port = 6379, redis_password = None\<rparr>,
     cfg_database = \<lparr>db_host = ''postgres'', db_port = 5432, db_username = ''app'', db_password = ''pg'',
       db_database = ''syncbridge'', db_synchronize = False, db_logging = False\<rparr>,
     cfg_s3 = \<lparr>s3_endpoint = None, s3_region = ''eu-west-1'', s3_bucket = ''landing'', s3_accessKeyId = ''key'',
       s3_secretAccessKey = ''secret'', s3_forcePathStyle = True, s3_uploadPartSizeBytes = 5242880, s3_uploadConcurrency = 4\<rparr>,
     cfg_pipeline = \<lparr>pipeline_maxFileSizeBytes = 0, pipeline_avEnabled = True, pipeline_clamavHost = ''clamav'',
       pipeline_clamavPort = 3310\<rparr>,
     cfg_encryption = \<lparr>enc_enabled = False, enc_kek = None\<rparr>,
     cfg_routingRules = [\<lparr>rr_match = \<lparr>rm_username = None, rm_extension = Some ''CSV'', rm_pathPrefix = None\<rparr>,
       rr_bucket = Some ''reports'', rr_prefix = Some ''csv/''\<rparr>],
     cfg_tenancy = \<lparr>tenancy_defaultTenant = ''default'', tenancy_map = [(''alice'', ''acme'')]\<rparr>,
     cfg_quotas = \<lparr>quotas_defaultMaxBytes = 0, quotas_defaultMaxObjects = 0,
       quotas_map = [(''acme'', \<lparr>qe_maxBytes = Some 100, qe_maxObjects = Some 3\<rparr>)]\<rparr>,
     cfg_kafka = \<lparr>kafka_enabled = False, kafka_brokers = [], kafka_clientId = ''syncbridge'',
       kafka_eventsTopic = ''transfers''\<rparr>\<rparr>"

end
