(* ===== verification/Outbox.thy ===== *)
theory Outbox
  imports Repository Config
begin

text \<open>
  \<^verbatim>\<open>outbox/outbox.service.ts\<close>: the transfer row and its outbox event are written in one
  transaction; a relay publishes the committed events to the transfer queue. The first section
  also has the two ways the program adds a job to that queue: through the queue that
  \<^verbatim>\<open>outbox/outbox.module.ts\<close> registers (no default job options) and through the one that
  \<^verbatim>\<open>ingestion/ingestion.module.ts\<close> registers (\<^verbatim>\<open>attempts\<close> from the configuration).
\<close>

section \<open>The transfer queue\<close>

definition outbox_queue_attempts :: "int option" where
  "outbox_queue_attempts = None"

definition ingestion_queue_attempts :: "app_section \<Rightarrow> int option" where
  "ingestion_queue_attempts app = Some (app_transferMaxAttempts app)"

definition mk_job :: "int option \<Rightarrow> string \<Rightarrow> TransferJobData \<Rightarrow> TransferJob" where
  "mk_job attempts name data =
     \<lparr>qj_name = name, qj_data = data, qj_attempts = attempts, qj_attemptsMade = 0\<rparr>"

definition queue_add ::
    "services \<Rightarrow> int option \<Rightarrow> string \<Rightarrow> TransferJobData \<Rightarrow> (world, unit) act" where
  "queue_add sv attempts name data =
     call sv (C_QueueAdd (tj_transferId data))
       (modify (\<lambda>w. w\<lparr>w_queue := w_queue w @ [mk_job attempts name data]\<rparr>))"

section \<open>OutboxService\<close>

definition RELAY_BATCH :: nat where
  "RELAY_BATCH = 100"

definition new_event ::
    "string \<Rightarrow> int \<Rightarrow> FileTransfer \<Rightarrow> (string \<times> string) list \<Rightarrow> OutboxEvent" where
  "new_event i now saved carrier =
     \<lparr>oe_id = i, oe_aggregateId = ft_id saved, oe_type = TRANSFER_JOB,
      oe_payload = \<lparr>tj_transferId = ft_id saved, tj_carrier = Some carrier\<rparr>,
      oe_status = OUTBOX_PENDING, oe_attempts = 0, oe_createdAt = now, oe_publishedAt = None\<rparr>"

definition insert_event ::
    "string \<Rightarrow> FileTransfer \<Rightarrow> (string \<times> string) list \<Rightarrow> (world, unit) act" where
  "insert_event i saved carrier = (\<lambda>w.
     if i \<in> oe_id ` set (w_outbox w)
     then (Raised (QueryFailedError PG_UNIQUE_VIOLATION ''duplicate key value''), w)
     else (Done (), w\<lparr>w_outbox := w_outbox w @ [new_event i (w_now w) saved carrier]\<rparr>))"

definition write_transfer ::
    "services \<Rightarrow> CreatePendingInput \<Rightarrow> (string \<times> string) list \<Rightarrow> (world, FileTransfer) act" where
  "write_transfer sv inp carrier =
     bnd (call sv C_InsertTransfer (insert_transfer (sv_uuid sv ''file_transfers'') inp))
       (\<lambda>saved. seq (call sv C_InsertOutbox
                   (insert_event (sv_uuid sv ''outbox_events'') saved carrier))
                 (ret saved))"

definition createTransferWithOutbox ::
    "services \<Rightarrow> CreatePendingInput \<Rightarrow> (string \<times> string) list \<Rightarrow> (world, FileTransfer option) act" where
  "createTransferWithOutbox sv inp carrier =
     try_catch
       (bnd (transaction (sv_fault sv C_Commit) (write_transfer sv inp carrier))
         (\<lambda>saved. ret (Some saved)))
       (\<lambda>e. if unique_violation e then ret None else throw e)"

definition pending_events :: "world \<Rightarrow> OutboxEvent list" where
  "pending_events w =
     take RELAY_BATCH (order_asc oe_createdAt
       (filter (\<lambda>e. oe_status e = OUTBOX_PENDING) (w_outbox w)))"

definition set_published :: "int \<Rightarrow> OutboxEvent \<Rightarrow> OutboxEvent" where
  "set_published now e =
     e\<lparr>oe_status := OUTBOX_PUBLISHED, oe_publishedAt := Some now, oe_attempts := oe_attempts e + 1\<rparr>"

definition publish_event :: "services \<Rightarrow> OutboxEvent \<Rightarrow> (world, unit) act" where
  "publish_event sv evt =
     seq (queue_add sv outbox_queue_attempts (oe_type evt) (oe_payload evt))
         (call sv (C_MarkPublished (oe_id evt))
           (modify (\<lambda>w. upd_outbox (oe_id evt) (set_published (w_now w)) w)))"

definition relay :: "services \<Rightarrow> (world, unit) act" where
  "relay sv =
     bnd (gets w_relaying) (\<lambda>relaying.
       if relaying then ret ()
       else
         seq (modify (\<lambda>w. w\<lparr>w_relaying := True\<rparr>))
           (try_finally
             (try_catch
               (bnd (call sv C_FindPending (gets pending_events))
                 (\<lambda>pending. for_each (publish_event sv) pending))
               (\<lambda>e. ret ()))
             (\<lambda>w. w\<lparr>w_relaying := False\<rparr>)))"

section \<open>Writing the event with the row\<close>

text \<open>The events the outbox table may hold: they name a transfer job for the row they were
  written with, and their keys are distinct.\<close>

definition outbox_ok :: "world \<Rightarrow> bool" where
  "outbox_ok w \<longleftrightarrow> distinct (map oe_id (w_outbox w)) \<and>
     list_all (\<lambda>e. oe_type e = TRANSFER_JOB \<and> tj_transferId (oe_payload e) = oe_aggregateId e)
       (w_outbox w)"

text \<open>What the outbox promises: no row without its event.\<close>

definition every_row_has_event :: "world \<Rightarrow> bool" where
  "every_row_has_event w \<longleftrightarrow> ft_id ` set (w_transfers w) \<subseteq> oe_aggregateId ` set (w_outbox w)"

text \<open>The state after a committed write.\<close>

definition with_transfer :: "services \<Rightarrow> CreatePendingInput \<Rightarrow> (string \<times> string) list \<Rightarrow> world \<Rightarrow> world" where
  "with_transfer sv inp carrier w =
     (let row = new_transfer (sv_uuid sv ''file_transfers'') (w_now w) inp
      in w\<lparr>w_transfers := w_transfers w @ [row],
           w_outbox := w_outbox w @ [new_event (sv_uuid sv ''outbox_events'') (w_now w) row carrier]\<rparr>)"

definition fresh_for :: "services \<Rightarrow> CreatePendingInput \<Rightarrow> world \<Rightarrow> bool" where
  "fresh_for sv inp w \<longleftrightarrow>
     sv_uuid sv ''file_transfers'' \<notin> ft_id ` set (w_transfers w) \<and>
     sv_uuid sv ''outbox_events'' \<notin> oe_id ` set (w_outbox w) \<and>
     cp_idempotencyKey inp \<notin> ft_idempotencyKey ` set (w_transfers w)"

lemma transaction_snd: "snd (transaction c m w) = w \<or>
    (\<exists>a. m w = (Done a, snd (transaction c m w)))"
  by (auto simp: transaction_def split: prod.splits outcome.splits fault.splits)

lemma write_transfer_Done:
  "write_transfer sv inp carrier w = (Done a, w') \<longleftrightarrow>
   sv_fault sv C_InsertTransfer = Healthy \<and> sv_fault sv C_InsertOutbox = Healthy \<and>
   fresh_for sv inp w \<and> a = new_transfer (sv_uuid sv ''file_transfers'') (w_now w) inp \<and>
   w' = with_transfer sv inp carrier w"
  by (auto simp: write_transfer_def bnd_Done_iff seq_Done_iff call_Done_iff insert_transfer_def
      insert_event_def fresh_for_def with_transfer_def Let_def split: if_splits)

text \<open>Whatever fails, both writes are there or neither is.\<close>

lemma create_atomic:
  "snd (createTransferWithOutbox sv inp carrier w) = w \<or>
   snd (createTransferWithOutbox sv inp carrier w) = with_transfer sv inp carrier w \<and> fresh_for sv inp w"
proof -
  let ?t = "transaction (sv_fault sv C_Commit) (write_transfer sv inp carrier)"
  have "snd (createTransferWithOutbox sv inp carrier w) = snd (?t w)"
    unfolding createTransferWithOutbox_def
    by (subst snd_try_catch_pure) (auto simp: ret_def throw_def snd_bnd_ret[unfolded ret_def])
  then show ?thesis
    using transaction_snd[of "sv_fault sv C_Commit" "write_transfer sv inp carrier" w]
    by (auto simp: write_transfer_Done)
qed

lemma create_Done_Some:
  "createTransferWithOutbox sv inp carrier w = (Done (Some row), w') \<Longrightarrow>
   w' = with_transfer sv inp carrier w \<and> fresh_for sv inp w
   \<and> row = new_transfer (sv_uuid sv ''file_transfers'') (w_now w) inp"
  unfolding createTransferWithOutbox_def try_catch_Done_iff
  by (auto simp: bnd_Done_iff transaction_Done_iff write_transfer_Done split: if_splits)

lemma with_transfer_ok:
  assumes "fresh_for sv inp w"
  shows "transfers_ok w \<Longrightarrow> transfers_ok (with_transfer sv inp carrier w)"
    and "outbox_ok w \<Longrightarrow> outbox_ok (with_transfer sv inp carrier w)"
    and "every_row_has_event w \<Longrightarrow> every_row_has_event (with_transfer sv inp carrier w)"
  using assms
  by (auto simp: with_transfer_def fresh_for_def Let_def transfers_ok_def outbox_ok_def
      every_row_has_event_def new_transfer_def new_event_def row_wf_def)

lemma keeps_create:
  assumes "\<And>w. P w \<Longrightarrow> fresh_for sv inp w \<Longrightarrow> P (with_transfer sv inp carrier w)"
  shows "keeps P (createTransferWithOutbox sv inp carrier)"
  unfolding keeps_def using create_atomic assms by metis

section \<open>Publishing\<close>

definition job_of :: "OutboxEvent \<Rightarrow> TransferJob" where
  "job_of e = mk_job outbox_queue_attempts (oe_type e) (oe_payload e)"

text \<open>An event as it may look after a relay: only its status, its attempts and its publication
  time may differ.\<close>

definition same_event :: "OutboxEvent \<Rightarrow> OutboxEvent \<Rightarrow> bool" where
  "same_event e e' \<longleftrightarrow> oe_id e' = oe_id e \<and> oe_aggregateId e' = oe_aggregateId e \<and>
     oe_type e' = oe_type e \<and> oe_payload e' = oe_payload e \<and> oe_createdAt e' = oe_createdAt e"

text \<open>The progress a relay makes from \<open>w0\<close> to \<open>w\<close>: it only appends jobs of events that were
  pending, it loses no event, and an event it changed has its job among those it appended.\<close>

definition relay_progress :: "world \<Rightarrow> world \<Rightarrow> bool" where
  "relay_progress w0 w \<longleftrightarrow> (\<exists>added.
     w_queue w = w_queue w0 @ added \<and> set added \<subseteq> job_of ` set (pending_events w0) \<and>
     list_all2 (\<lambda>e e'. e' = e \<or>
        same_event e e' \<and> oe_status e' = OUTBOX_PUBLISHED \<and> job_of e \<in> set added)
       (w_outbox w0) (w_outbox w))"

lemma pending_events_sub: "set (pending_events w) \<subseteq> {e \<in> set (w_outbox w). oe_status e = OUTBOX_PENDING}"
  unfolding pending_events_def by (rule take_order_asc_spec(1))

lemma pending_events_distinct:
  "distinct (map oe_id (w_outbox w)) \<Longrightarrow> distinct (map oe_id (pending_events w))"
  by (simp add: pending_events_def take_map[symmetric] distinct_map_filter)

lemma relay_progress_refl: "relay_progress w w"
  unfolding relay_progress_def by (rule exI[of _ "[]"]) (simp add: list.rel_refl)

lemma keeps_progress_add:
  assumes "evt \<in> set (pending_events w0)"
  shows "keeps (relay_progress w0) (queue_add sv outbox_queue_attempts (oe_type evt) (oe_payload evt))"
  unfolding queue_add_def
proof (intro eff keeps_modify)
  fix w
  assume "relay_progress w0 w"
  then obtain added where a: "w_queue w = w_queue w0 @ added"
      "set added \<subseteq> job_of ` set (pending_events w0)"
      "list_all2 (\<lambda>e e'. e' = e \<or> same_event e e' \<and> oe_status e' = OUTBOX_PUBLISHED \<and> job_of e \<in> set added)
         (w_outbox w0) (w_outbox w)"
    unfolding relay_progress_def by blast
  show "relay_progress w0 (w\<lparr>w_queue := w_queue w @ [mk_job outbox_queue_attempts (oe_type evt) (oe_payload evt)]\<rparr>)"
    unfolding relay_progress_def
    using a assms
    by (intro exI[of _ "added @ [job_of evt]"])
      (auto simp: job_of_def intro: list.rel_mono_strong)
qed

lemma progress_mark:
  assumes "relay_progress w0 w" "distinct (map oe_id (w_outbox w0))" "evt \<in> set (w_outbox w0)"
    and "job_of evt \<in> set (drop (length (w_queue w0)) (w_queue w))"
  shows "relay_progress w0 (upd_outbox (oe_id evt) (set_published now) w)"
proof -
  from assms(1) obtain added where a: "w_queue w = w_queue w0 @ added"
      "set added \<subseteq> job_of ` set (pending_events w0)"
      "list_all2 (\<lambda>e e'. e' = e \<or> same_event e e' \<and> oe_status e' = OUTBOX_PUBLISHED \<and> job_of e \<in> set added)
         (w_outbox w0) (w_outbox w)"
    unfolding relay_progress_def by blast
  have j: "job_of evt \<in> set added" using assms(4) a(1) by simp
  have eq: "e = evt" if "e \<in> set (w_outbox w0)" "oe_id e = oe_id evt" for e
    using assms(2,3) that by (auto simp: distinct_map inj_on_def)
  have "list_all2 (\<lambda>e e'. e' = e \<or> same_event e e' \<and> oe_status e' = OUTBOX_PUBLISHED \<and> job_of e \<in> set added)
     (w_outbox w0) (map (\<lambda>r. if oe_id r = oe_id evt then set_published now r else r) (w_outbox w))"
    unfolding list_all2_map2
    using a(3)
  proof (rule list.rel_mono_strong)
    fix e e'
    assume e: "e \<in> set (w_outbox w0)"
      and "e' = e \<or> same_event e e' \<and> oe_status e' = OUTBOX_PUBLISHED \<and> job_of e \<in> set added"
    then show "(if oe_id e' = oe_id evt then set_published now e' else e') = e \<or>
      same_event e (if oe_id e' = oe_id evt then set_published now e' else e') \<and>
      oe_status (if oe_id e' = oe_id evt then set_published now e' else e') = OUTBOX_PUBLISHED \<and>
      job_of e \<in> set added"
      using eq[OF e] j by (auto simp: same_event_def set_published_def)
  qed
  with a show ?thesis
    unfolding relay_progress_def by (auto simp: upd_outbox_def row_update_def)
qed

lemma keeps_progress_publish:
  assumes "evt \<in> set (pending_events w0)" "distinct (map oe_id (w_outbox w0))"
  shows "keeps (relay_progress w0) (publish_event sv evt)"
proof -
  have evt: "evt \<in> set (w_outbox w0)" using assms(1) pending_events_sub by blast
  let ?R = "\<lambda>w. relay_progress w0 w \<and> job_of evt \<in> set (drop (length (w_queue w0)) (w_queue w))"
  have add: "triple (relay_progress w0) (queue_add sv outbox_queue_attempts (oe_type evt) (oe_payload evt))
      (mid (\<lambda>_. ?R) (\<lambda>_. relay_progress w0))"
  proof -
    have "fst (queue_add sv outbox_queue_attempts (oe_type evt) (oe_payload evt) w) = Done () \<Longrightarrow>
        relay_progress w0 w \<Longrightarrow> job_of evt \<in> set (drop (length (w_queue w0))
          (w_queue (snd (queue_add sv outbox_queue_attempts (oe_type evt) (oe_payload evt) w))))" for w
      by (auto simp: queue_add_def call_def await_def modify_def job_of_def relay_progress_def
          split: fault.splits)
    with keepsD[OF keeps_progress_add[OF assms(1)]] show ?thesis
      by (auto simp: triple_def mid_def split: outcome.splits)
  qed
  have mark: "triple ?R (call sv (C_MarkPublished (oe_id evt))
      (modify (\<lambda>w. upd_outbox (oe_id evt) (set_published (w_now w)) w))) (\<lambda>_. relay_progress w0)"
    using progress_mark[OF _ assms(2) evt]
    by (auto simp: triple_def call_def await_def modify_def split: fault.splits)
  from triple_seq[OF add mark] show ?thesis
    by (simp add: publish_event_def triple_def keeps_def)
qed

lemma relay_progress_flag [simp]:
  "relay_progress w0 (w\<lparr>w_relaying := b\<rparr>) = relay_progress w0 w"
  "relay_progress (w0\<lparr>w_relaying := b\<rparr>) w = relay_progress w0 w"
  by (simp_all add: relay_progress_def pending_events_def)

text \<open>The loop of the relay, from the state in which it read the pending events.\<close>

lemma relay_loop_progress:
  assumes "distinct (map oe_id (w_outbox w))"
  shows "relay_progress w (snd (for_each (publish_event sv) (pending_events w) w))"
proof -
  have "keeps (relay_progress w) (for_each (publish_event sv) (pending_events w))"
    using assms by (intro keeps_for_each keeps_progress_publish)
  then show ?thesis by (rule keepsD) (rule relay_progress_refl)
qed


subsection \<open>The relay under any faults\<close>

lemma relay_idle: "w_relaying w \<Longrightarrow> relay sv w = (Done (), w)"
  by (simp add: relay_def act_defs)

lemma snd_try_finally:
  "(\<And>w. P (g w) = P w) \<Longrightarrow> P (snd (try_finally m g w)) = P (snd (m w))"
  by (auto simp: try_finally_def split: prod.splits outcome.splits)

lemma relay_progress_relay:
  assumes "distinct (map oe_id (w_outbox w))"
  shows "relay_progress w (snd (relay sv w))"
proof (cases "w_relaying w")
  case True
  then show ?thesis by (simp add: relay_idle relay_progress_refl)
next
  case False
  let ?w = "w\<lparr>w_relaying := True\<rparr>"
  let ?body = "bnd (call sv C_FindPending (gets pending_events)) (\<lambda>p. for_each (publish_event sv) p)"
  have body: "relay_progress ?w (snd (?body ?w))"
    using assms relay_loop_progress[of ?w sv] relay_progress_refl[of ?w]
    by (auto simp: bnd_def call_def await_def gets_def split: fault.splits prod.splits outcome.splits)
  have "relay_progress ?w (snd (try_catch ?body (\<lambda>e. ret ()) ?w))"
    using body by (subst snd_try_catch_pure) (auto simp: ret_def)
  then have "relay_progress ?w (snd (try_finally (try_catch ?body (\<lambda>e. ret ())) (\<lambda>w. w\<lparr>w_relaying := False\<rparr>) ?w))"
    by (subst snd_try_finally) simp_all
  with False show ?thesis
    by (simp add: relay_def)
qed

subsection \<open>The relay when nothing fails\<close>

definition publish_all :: "OutboxEvent list \<Rightarrow> world \<Rightarrow> world" where
  "publish_all es w =
     w\<lparr>w_queue := w_queue w @ map job_of es,
       w_outbox := map (\<lambda>e. if oe_id e \<in> oe_id ` set es then set_published (w_now w) e else e) (w_outbox w)\<rparr>"

lemma set_published_id [simp]: "oe_id (set_published now e) = oe_id e"
  by (simp add: set_published_def)

lemma publish_event_healthy:
  "healthy sv \<Longrightarrow> publish_event sv e w = (Done (), publish_all [e] w)"
  by (auto simp: publish_event_def queue_add_def act_defs publish_all_def job_of_def upd_outbox_def
      row_update_def)

lemma publish_all_Cons:
  assumes "oe_id e \<notin> oe_id ` set es"
  shows "publish_all es (publish_all [e] w) = publish_all (e # es) w"
  using assms by (auto simp: publish_all_def intro!: world.equality)

lemma publish_loop_healthy:
  "healthy sv \<Longrightarrow> distinct (map oe_id es) \<Longrightarrow>
   for_each (publish_event sv) es w = (Done (), publish_all es w)"
proof (induction es arbitrary: w)
  case Nil
  then show ?case by (auto simp: ret_def publish_all_def)
next
  case (Cons e es)
  then show ?case
    using publish_all_Cons[of e es w]
    by (auto simp: seq_def bnd_def publish_event_healthy)
qed

lemma pending_events_flag [simp]: "pending_events (w\<lparr>w_relaying := b\<rparr>) = pending_events w"
  by (simp add: pending_events_def)

lemma relay_healthy:
  assumes "healthy sv" "\<not> w_relaying w" "distinct (map oe_id (w_outbox w))"
  shows "relay sv w = (Done (), publish_all (pending_events w) w)"
  using assms pending_events_distinct[of w]
    publish_loop_healthy[of sv "pending_events w" "w\<lparr>w_relaying := True\<rparr>"]
  by (simp add: relay_def act_defs) (simp add: publish_all_def)

lemma publish_all_pending:
  "filter (\<lambda>e. oe_status e = OUTBOX_PENDING) (w_outbox (publish_all es w)) =
   filter (\<lambda>e. oe_status e = OUTBOX_PENDING \<and> oe_id e \<notin> oe_id ` set es) (w_outbox w)"
proof -
  have "filter p (map (\<lambda>e. if c e then f e else e) xs) = filter (\<lambda>e. p e \<and> \<not> c e) xs"
    if "\<And>e. \<not> p (f e)" for p c f and xs :: "OutboxEvent list"
    using that by (induction xs) auto
  from this[of "\<lambda>e. oe_status e = OUTBOX_PENDING" "set_published (w_now w)"] show ?thesis
    by (simp add: publish_all_def set_published_def)
qed

abbreviation backlog :: "world \<Rightarrow> OutboxEvent list" where
  "backlog w \<equiv> filter (\<lambda>e. oe_status e = OUTBOX_PENDING) (w_outbox w)"

lemma length_pending_events: "length (pending_events w) = min RELAY_BATCH (length (backlog w))"
  by (simp add: pending_events_def min.commute)

lemma backlog_publish:
  assumes "distinct (map oe_id (w_outbox w))"
  shows "length (backlog (publish_all (pending_events w) w)) = length (backlog w) - RELAY_BATCH"
proof -
  let ?P = "set (pending_events w)" and ?B = "set (backlog w)"
  have sub: "?P \<subseteq> ?B" using pending_events_sub by auto
  have inj: "inj_on oe_id (set (w_outbox w))" and d: "distinct (w_outbox w)"
    using assms by (simp_all add: distinct_map)
  have eq: "set (backlog (publish_all (pending_events w) w)) = ?B - ?P"
    unfolding publish_all_pending using sub inj by (auto simp: inj_on_def)
  have dp: "distinct (pending_events w)"
    using pending_events_distinct[OF assms] by (simp add: distinct_map)
  have "length (backlog (publish_all (pending_events w) w)) = card (?B - ?P)"
    unfolding eq[symmetric] publish_all_pending using d
    by (simp add: distinct_card[symmetric] del: set_filter)
  also have "\<dots> = length (backlog w) - length (pending_events w)"
    using card_Diff_subset[of ?P ?B] sub d dp by (simp add: distinct_card del: set_filter)
  finally show ?thesis by (simp add: length_pending_events)
qed

text \<open>Repeated runs of the relay, one for each tick of its timer.\<close>

definition relays :: "services \<Rightarrow> nat \<Rightarrow> world \<Rightarrow> world" where
  "relays sv n w = ((\<lambda>w. snd (relay sv w)) ^^ n) w"

lemma publish_all_ids: "map oe_id (w_outbox (publish_all es w)) = map oe_id (w_outbox w)"
  by (simp add: publish_all_def comp_def if_distrib cong: if_cong)

lemma publish_all_relaying [simp]: "w_relaying (publish_all es w) = w_relaying w"
  by (simp add: publish_all_def)

lemma relays_drain:
  assumes "healthy sv" "\<not> w_relaying w" "distinct (map oe_id (w_outbox w))"
  shows "length (backlog (relays sv n w)) = length (backlog w) - n * RELAY_BATCH
    \<and> \<not> w_relaying (relays sv n w) \<and> distinct (map oe_id (w_outbox (relays sv n w)))
    \<and> (\<forall>e\<in>set (backlog w). e \<in> set (backlog (relays sv n w)) \<or> job_of e \<in> set (w_queue (relays sv n w)))"
proof (induction n)
  case 0
  then show ?case using assms by (simp add: relays_def)
next
  case (Suc n)
  let ?u = "relays sv n w"
  have step: "relays sv (Suc n) w = publish_all (pending_events ?u) ?u"
    using relay_healthy[of sv ?u] Suc assms(1) by (simp add: relays_def)
  have inj: "inj_on oe_id (set (w_outbox ?u))" using Suc by (simp add: distinct_map)
  have moved: "e \<in> set (backlog (publish_all (pending_events ?u) ?u)) \<or> job_of e \<in> set (w_queue (publish_all (pending_events ?u) ?u))"
    if "e \<in> set (backlog ?u) \<or> job_of e \<in> set (w_queue ?u)" for e
    unfolding publish_all_pending using that pending_events_sub[of ?u] inj
    by (auto simp: publish_all_def inj_on_def)
  show ?case
    using Suc backlog_publish[of ?u] moved unfolding step
    by (auto simp: publish_all_ids)
qed

section \<open>Properties\<close>

text \<open>C10: Whatever fails while a transfer is created (either insert, the commit, a lost
  acknowledgement, a crash), the state afterwards is the one before, or the one with exactly the
  new PENDING row and its outbox event, which needs that the idempotency key was not there yet.
  So the table invariants hold and no row is without its event.\<close>

theorem create_transfer_atomic:
  assumes "transfers_ok w" "outbox_ok w" "every_row_has_event w"
  shows "let w' = snd (createTransferWithOutbox sv inp carrier w) in
     (w' = w \<or> w' = with_transfer sv inp carrier w \<and>
        cp_idempotencyKey inp \<notin> ft_idempotencyKey ` set (w_transfers w)) \<and>
     transfers_ok w' \<and> outbox_ok w' \<and> every_row_has_event w'"
  using create_atomic[of sv inp carrier w] assms with_transfer_ok[of sv inp w carrier]
  by (auto simp: Let_def fresh_for_def)

definition inp1 :: CreatePendingInput where
  "inp1 = \<lparr>cp_idempotencyKey = ''key-1'', cp_tenantId = ''acme'', cp_filename = ''a.txt'',
     cp_virtualPath = ''/a.txt'', cp_sourcePath = ''/data/a.txt'', cp_bucket = ''landing'',
     cp_sizeBytes = ''2'', cp_username = ''alice'', cp_protocol = Some ''SFTP'', cp_sessionId = None\<rparr>"

definition world1 :: world where
  "world1 = with_transfer sv0 inp1 [] world0"

lemma world1_ok: "transfers_ok world1" "outbox_ok world1" "every_row_has_event world1"
  "\<not> w_relaying world1"
  by (simp_all add: world1_def with_transfer_def world0_def sv0_def inp1_def transfers_ok_def row_wf_def
      outbox_ok_def every_row_has_event_def new_transfer_def new_event_def Let_def)

lemma create_crash_after_commit:
  "length (w_transfers (snd (createTransferWithOutbox (with_fault C_Commit CrashAfter sv0) inp1 [] world0))) = 1"
  by (simp add: createTransferWithOutbox_def act_defs call_def write_transfer_def insert_transfer_def
      insert_event_def sv0_def inp1_def world0_def Let_def)

theorem create_transfer_atomic_witness:
  "let w' = snd (createTransferWithOutbox (with_fault C_Commit CrashAfter sv0) inp1 [] world0) in
     length (w_transfers w') = 1 \<and> transfers_ok w' \<and> outbox_ok w' \<and> every_row_has_event w'"
proof -
  have "transfers_ok world0" "outbox_ok world0" "every_row_has_event world0"
    by (simp_all add: transfers_ok_def outbox_ok_def every_row_has_event_def world0_def)
  from create_transfer_atomic[OF this, of "with_fault C_Commit CrashAfter sv0" inp1 "[]"]
  show ?thesis unfolding Let_def using create_crash_after_commit by blast
qed

text \<open>Creating a transfer whose idempotency key is already in the table reports a duplicate and changes
  nothing.\<close>

lemma duplicate_changes_nothing:
  assumes "sv_fault sv C_InsertTransfer = Healthy"
    and "cp_idempotencyKey inp \<in> ft_idempotencyKey ` set (w_transfers w)"
  shows "createTransferWithOutbox sv inp carrier w = (Done None, w)"
  using assms
  by (auto simp: createTransferWithOutbox_def write_transfer_def call_Healthy insert_transfer_def
      act_defs Let_def)



text \<open>When nothing fails, the relay drains the outbox: after n runs (each takes at most
  RELAY_BATCH events) at most that many fewer events are pending, and after enough of them none
  is, with the job of every event that was pending in the queue.\<close>

theorem relay_drains_outbox:
  assumes "healthy sv" "\<not> w_relaying w" "outbox_ok w" "length (backlog w) \<le> n * RELAY_BATCH"
  shows "backlog (relays sv n w) = [] \<and> job_of ` set (backlog w) \<subseteq> set (w_queue (relays sv n w))"
proof -
  have "distinct (map oe_id (w_outbox w))" using assms(3) by (simp add: outbox_ok_def)
  note drain = relays_drain[OF assms(1,2) this, of n]
  then have empty: "backlog (relays sv n w) = []" using assms(4) by simp
  show ?thesis using drain unfolding empty by auto
qed

theorem relay_drains_outbox_witness:
  "backlog (relays sv0 1 world1) = [] \<and> length (backlog world1) = 1"
  using relay_drains_outbox[of sv0 world1 1] world1_ok
  by (simp add: RELAY_BATCH_def world1_def with_transfer_def world0_def new_event_def Let_def)

end
