(* ===== verification/Quota.thy ===== *)
theory Quota
  imports Services Config
begin

text \<open>
  \<^verbatim>\<open>tenancy/tenant.service.ts\<close> and \<^verbatim>\<open>quota/quota.service.ts\<close>: the tenant of an SFTP user, the
  quota and the metered usage of a tenant, the check before an upload and the increment after
  one. \<^verbatim>\<open>tenant_usage\<close> is a table keyed by \<^verbatim>\<open>tenant_id\<close>.
\<close>

section \<open>Tenants\<close>

definition tenant_resolve :: "tenancy_section \<Rightarrow> string \<Rightarrow> string" where
  "tenant_resolve t username =
     (case map_of (tenancy_map t) username of None \<Rightarrow> tenancy_defaultTenant t | Some x \<Rightarrow> x)"

section \<open>Quotas\<close>

record Quota =
  q_maxBytes :: int
  q_maxObjects :: int

record Usage =
  u_objectCount :: int
  u_bytesStored :: int

definition getQuota :: "quotas_section \<Rightarrow> string \<Rightarrow> Quota" where
  "getQuota q tenantId =
     (let t = (case map_of (quotas_map q) tenantId of
                 None \<Rightarrow> \<lparr>qe_maxBytes = None, qe_maxObjects = None\<rparr> | Some e \<Rightarrow> e)
      in \<lparr>q_maxBytes = (case qe_maxBytes t of None \<Rightarrow> quotas_defaultMaxBytes q | Some n \<Rightarrow> n),
          q_maxObjects = (case qe_maxObjects t of None \<Rightarrow> quotas_defaultMaxObjects q | Some n \<Rightarrow> n)\<rparr>)"

definition usage_of :: "string \<Rightarrow> world \<Rightarrow> Usage" where
  "usage_of tenantId w =
     (case row_find tu_tenantId tenantId (w_usage w) of
        None \<Rightarrow> \<lparr>u_objectCount = 0, u_bytesStored = 0\<rparr>
      | Some r \<Rightarrow> \<lparr>u_objectCount = tu_objectCount r, u_bytesStored = tu_bytesStored r\<rparr>)"

definition getUsage :: "services \<Rightarrow> string \<Rightarrow> (world, Usage) act" where
  "getUsage sv tenantId = call sv C_GetUsage (gets (usage_of tenantId))"

definition assertWithinQuota ::
    "services \<Rightarrow> quotas_section \<Rightarrow> string \<Rightarrow> int \<Rightarrow> (world, unit) act" where
  "assertWithinQuota sv cfg tenantId additionalBytes =
     (let quota = getQuota cfg tenantId in
      bnd (getUsage sv tenantId) (\<lambda>usage.
        if q_maxBytes quota > 0 \<and> u_bytesStored usage + additionalBytes > q_maxBytes quota then
          throw (NonRetryableError
            (''Storage quota exceeded for tenant '' @ squote tenantId @ '': ''
             @ show_int (u_bytesStored usage) @ ''+'' @ show_int additionalBytes @ '' > ''
             @ show_int (q_maxBytes quota) @ '' bytes''))
        else if q_maxObjects quota > 0 \<and> u_objectCount usage + 1 > q_maxObjects quota then
          throw (NonRetryableError
            (''Object quota exceeded for tenant '' @ squote tenantId @ '': ''
             @ show_int (u_objectCount usage) @ ''+1 > ''
             @ show_int (q_maxObjects quota) @ '' objects''))
        else ret ()))"

text \<open>The upsert: INSERT with ON CONFLICT DO UPDATE on the primary key \<^verbatim>\<open>tenant_id\<close>.\<close>

definition upd_usage :: "string \<Rightarrow> (TenantUsage \<Rightarrow> TenantUsage) \<Rightarrow> world \<Rightarrow> world" where
  "upd_usage i f w = w\<lparr>w_usage := row_update tu_tenantId i f (w_usage w)\<rparr>"

definition add_usage :: "int \<Rightarrow> int \<Rightarrow> TenantUsage \<Rightarrow> TenantUsage" where
  "add_usage bytes now r =
     r\<lparr>tu_objectCount := tu_objectCount r + 1, tu_bytesStored := tu_bytesStored r + bytes,
       tu_updatedAt := now\<rparr>"

definition upsert_usage :: "string \<Rightarrow> int \<Rightarrow> world \<Rightarrow> world" where
  "upsert_usage tenantId bytes w =
     (case row_find tu_tenantId tenantId (w_usage w) of
        Some _ \<Rightarrow> upd_usage tenantId (add_usage bytes (w_now w)) w
      | None \<Rightarrow>
          w\<lparr>w_usage := w_usage w @ [\<lparr>tu_tenantId = tenantId, tu_objectCount = 1,
              tu_bytesStored = bytes, tu_updatedAt = w_now w\<rparr>]\<rparr>)"

definition recordUsage :: "services \<Rightarrow> string \<Rightarrow> int \<Rightarrow> (world, unit) act" where
  "recordUsage sv tenantId bytes = call sv C_RecordUsage (modify (upsert_usage tenantId bytes))"

definition summary ::
    "services \<Rightarrow> quotas_section \<Rightarrow> string \<Rightarrow> (world, string \<times> Usage \<times> Quota) act" where
  "summary sv cfg tenantId =
     bnd (getUsage sv tenantId) (\<lambda>u. ret (tenantId, u, getQuota cfg tenantId))"

text \<open>\<^verbatim>\<open>GET /v1/usage\<close>: only an administrator may name another tenant.\<close>

definition usage_endpoint ::
    "services \<Rightarrow> quotas_section \<Rightarrow> AuthUser \<Rightarrow> string option \<Rightarrow> (world, string \<times> Usage \<times> Quota) act" where
  "usage_endpoint sv cfg user tenant =
     (let target = (case tenant of
                      Some t \<Rightarrow> if t \<noteq> [] \<and> ADMIN \<in> set (au_roles user) then t else au_tenantId user
                    | None \<Rightarrow> au_tenantId user)
      in summary sv cfg target)"

section \<open>The meter\<close>

lemma frame_getUsage [eff]: "frame f (getUsage sv t)"
  unfolding getUsage_def by (intro eff)

lemma frame_assertWithinQuota [eff]: "frame f (assertWithinQuota sv cfg t b)"
  unfolding assertWithinQuota_def Let_def by (intro eff)

interpretation usage: row_store w_usage tu_tenantId upd_usage
  by unfold_locales (simp add: upd_usage_def)

lemma add_usage_tenant [simp]: "tu_tenantId (add_usage b now r) = tu_tenantId r"
  by (simp add: add_usage_def)

lemma usage_upsert_same:
  "usage_of t (upsert_usage t b w) =
     \<lparr>u_objectCount = u_objectCount (usage_of t w) + 1, u_bytesStored = u_bytesStored (usage_of t w) + b\<rparr>"
proof (cases "row_find tu_tenantId t (w_usage w)")
  case None
  then show ?thesis
    by (simp add: upsert_usage_def usage_of_def row_find_append) (simp add: row_find_def)
next
  case (Some r)
  then show ?thesis
    by (simp add: upsert_usage_def usage_of_def usage.find_upd_same) (simp add: add_usage_def)
qed

lemma usage_upsert_other: "s \<noteq> t \<Longrightarrow> usage_of s (upsert_usage t b w) = usage_of s w"
  by (auto simp: upsert_usage_def usage_of_def row_find_append usage.find_upd_other split: option.splits)
    (simp_all add: row_find_def)

lemma usage_keys: "distinct (map tu_tenantId (w_usage w)) \<Longrightarrow>
    distinct (map tu_tenantId (w_usage (upsert_usage t b w)))"
  by (auto simp: upsert_usage_def usage.map_upd row_find_None_iff split: option.splits)

lemma upsert_usage_frame [simp]:
  "w_transfers (upsert_usage t b w) = w_transfers w" "w_outbox (upsert_usage t b w) = w_outbox w"
  "w_queue (upsert_usage t b w) = w_queue w" "w_dlq (upsert_usage t b w) = w_dlq w"
  "w_objects (upsert_usage t b w) = w_objects w" "w_metrics (upsert_usage t b w) = w_metrics w"
  "w_deliveries (upsert_usage t b w) = w_deliveries w" "w_subs (upsert_usage t b w) = w_subs w"
  "w_kafka (upsert_usage t b w) = w_kafka w" "w_now (upsert_usage t b w) = w_now w"
  by (simp_all add: upsert_usage_def upd_usage_def split: option.splits)

text \<open>A tenant is within its quota; a limit of 0 or less is none.\<close>

definition within_quota :: "quotas_section \<Rightarrow> string \<Rightarrow> Usage \<Rightarrow> bool" where
  "within_quota cfg t u \<longleftrightarrow>
     (q_maxBytes (getQuota cfg t) > 0 \<longrightarrow> u_bytesStored u \<le> q_maxBytes (getQuota cfg t)) \<and>
     (q_maxObjects (getQuota cfg t) > 0 \<longrightarrow> u_objectCount u \<le> q_maxObjects (getQuota cfg t))"

abbreviation plus_object :: "Usage \<Rightarrow> int \<Rightarrow> Usage" where
  "plus_object u b \<equiv> \<lparr>u_objectCount = u_objectCount u + 1, u_bytesStored = u_bytesStored u + b\<rparr>"

lemma assertWithinQuota_Done:
  "assertWithinQuota sv cfg t b w = (Done (), w') \<longleftrightarrow>
     sv_fault sv C_GetUsage = Healthy \<and> w' = w \<and> within_quota cfg t (plus_object (usage_of t w) b)"
  by (auto simp: assertWithinQuota_def getUsage_def bnd_Done_iff call_Done_iff within_quota_def Let_def)

lemma recordUsage_state:
  "snd (recordUsage sv t b w) = w \<or> snd (recordUsage sv t b w) = upsert_usage t b w"
  using snd_call[of sv C_RecordUsage "modify (upsert_usage t b)" w]
  by (simp add: recordUsage_def modify_def)

section \<open>Properties\<close>



text \<open>The check and the recording are not one step: there are a quota, a state within it and an
  upload such that two workers that both check before either records take the tenant over its
  quota.\<close>

theorem concurrent_uploads_exceed_quota:
  "\<exists>cfg t b w w1 w2. within_quota cfg t (usage_of t w) \<and>
     assertWithinQuota sv0 cfg t b w = (Done (), w1) \<and> assertWithinQuota sv0 cfg t b w1 = (Done (), w2) \<and>
     \<not> within_quota cfg t (usage_of t (snd (recordUsage sv0 t b (snd (recordUsage sv0 t b w2)))))"
proof (intro exI conjI)
  let ?q = "cfg_quotas cfg0"
  show "within_quota ?q ''acme'' (usage_of ''acme'' world0)"
    by (simp add: cfg0_def within_quota_def getQuota_def usage_of_def world0_def row_find_def)
  show "assertWithinQuota sv0 ?q ''acme'' 60 world0 = (Done (), world0)"
    "assertWithinQuota sv0 ?q ''acme'' 60 world0 = (Done (), world0)"
    unfolding assertWithinQuota_Done
    by (simp_all add: sv0_def cfg0_def within_quota_def getQuota_def usage_of_def world0_def row_find_def)
  have "usage_of ''acme'' (snd (recordUsage sv0 ''acme'' 60 (snd (recordUsage sv0 ''acme'' 60 world0)))) =
      \<lparr>u_objectCount = 2, u_bytesStored = 120\<rparr>"
    by (simp add: recordUsage_def modify_def usage_upsert_same) (simp add: usage_of_def world0_def row_find_def)
  then show "\<not> within_quota ?q ''acme''
      (usage_of ''acme'' (snd (recordUsage sv0 ''acme'' 60 (snd (recordUsage sv0 ''acme'' 60 world0)))))"
    by (simp add: cfg0_def within_quota_def getQuota_def)
qed

text \<open>The meter is exact: recording a sequence of uploads without faults adds their number and
  the sum of their sizes to the tenant's usage and leaves every other tenant's alone.\<close>

theorem usage_meter_exact:
  assumes "healthy sv"
  shows "usage_of s (snd (for_each (recordUsage sv t) bs w)) =
    (if s = t then \<lparr>u_objectCount = u_objectCount (usage_of t w) + int (length bs),
                    u_bytesStored = u_bytesStored (usage_of t w) + sum_list bs\<rparr>
     else usage_of s w)"
proof (induction bs arbitrary: w)
  case Nil
  then show ?case by (simp add: ret_def)
next
  case (Cons b bs)
  have "snd (for_each (recordUsage sv t) (b # bs) w) = snd (for_each (recordUsage sv t) bs (upsert_usage t b w))"
    using assms by (simp add: recordUsage_def)
  with Cons show ?case by (auto simp: usage_upsert_same usage_upsert_other)
qed

theorem usage_meter_exact_witness:
  "usage_of ''acme'' (snd (for_each (recordUsage sv0 ''acme'') [3, 4] world0)) =
     \<lparr>u_objectCount = 2, u_bytesStored = 7\<rparr>"
  unfolding usage_meter_exact[OF healthy_sv0] by (simp add: usage_of_def world0_def row_find_def)

text \<open>Only an administrator sees the usage of another tenant.\<close>

lemma usage_endpoint_isolated:
  assumes "ADMIN \<notin> set (au_roles user)"
    and "usage_endpoint sv cfg user tenant w = (Done r, w')"
  shows "fst r = au_tenantId user \<and> fst (snd r) = usage_of (au_tenantId user) w \<and> w' = w"
  using assms
  by (auto simp: usage_endpoint_def summary_def getUsage_def bnd_Done_iff call_Done_iff Let_def split: option.splits)

end
