(* ===== verification/Paths.thy ===== *)
theory Paths
  imports Prelude
begin

text \<open>
  POSIX paths: the functions of \<^verbatim>\<open>node:path\<close> the program calls (\<^verbatim>\<open>resolve\<close>, \<^verbatim>\<open>relative\<close>,
  \<^verbatim>\<open>isAbsolute\<close>, \<^verbatim>\<open>extname\<close>) and the two helpers of \<^verbatim>\<open>ingestion/ingestion.service.ts\<close> built
  on them, \<^verbatim>\<open>resolveWithinRoot\<close> (the path-traversal defence) and \<^verbatim>\<open>basename\<close>. The current
  directory, which \<^verbatim>\<open>resolve\<close> uses for a relative path, is a parameter.
\<close>

section \<open>The functions of node:path\<close>

definition isAbsolute :: "string \<Rightarrow> bool" where
  "isAbsolute p = startsWith p ''/''"

text \<open>The segments of a path that name something: the parts between slashes that are not empty.\<close>

definition segs :: "string \<Rightarrow> string list" where
  "segs p = filter (\<lambda>s. s \<noteq> []) (split_on (CHR ''/'') p)"

fun normalize_segs :: "string list \<Rightarrow> string list \<Rightarrow> string list" where
  "normalize_segs acc [] = rev acc"
| "normalize_segs acc (s # ss) =
     (if s = [] \<or> s = ''.'' then normalize_segs acc ss
      else if s = ''..'' then normalize_segs (tl acc) ss
      else normalize_segs (s # acc) ss)"

definition mk_abs :: "string list \<Rightarrow> string" where
  "mk_abs ss = ''/'' @ join_with ''/'' ss"

definition path_resolve :: "string \<Rightarrow> string \<Rightarrow> string" where
  "path_resolve cwd p =
     mk_abs (normalize_segs [] (split_on (CHR ''/'')
       (if isAbsolute p then p else cwd @ ''/'' @ p)))"

fun strip_common :: "string list \<Rightarrow> string list \<Rightarrow> string list \<times> string list" where
  "strip_common (x # xs) (y # ys) = (if x = y then strip_common xs ys else (x # xs, y # ys))"
| "strip_common xs ys = (xs, ys)"

definition path_relative :: "string \<Rightarrow> string \<Rightarrow> string \<Rightarrow> string" where
  "path_relative cwd from to =
     (let (up, down) = strip_common (segs (path_resolve cwd from)) (segs (path_resolve cwd to))
      in join_with ''/'' (replicate (length up) ''..'' @ down))"

text \<open>\<^verbatim>\<open>extname\<close>: from the last dot of the last segment, but for a segment whose only dot is
  its first character and for the segment \<^verbatim>\<open>..\<close>.\<close>

definition extname :: "string \<Rightarrow> string" where
  "extname p =
     (case rev (segs p) of
        [] \<Rightarrow> []
      | b # _ \<Rightarrow>
          (case dropWhile (\<lambda>c. c \<noteq> CHR ''.'') (rev b) of
             [] \<Rightarrow> []
           | _ # pre \<Rightarrow>
               if pre = [] \<or> b = ''..'' then []
               else CHR ''.'' # rev (takeWhile (\<lambda>c. c \<noteq> CHR ''.'') (rev b))))"

section \<open>The helpers of IngestionService\<close>

definition resolveWithinRoot :: "string \<Rightarrow> string \<Rightarrow> string \<Rightarrow> string option" where
  "resolveWithinRoot cwd dataRoot candidate =
     (if candidate = [] \<or> \<not> isAbsolute candidate then None
      else
        let normalized = path_resolve cwd candidate;
            rel = path_relative cwd dataRoot normalized;
            escapes = startsWith rel ''..'' \<or> isAbsolute rel
        in if escapes then None else Some normalized)"

definition basename :: "string \<Rightarrow> string" where
  "basename p =
     (let parts = filter (\<lambda>s. s \<noteq> []) (split_on (CHR ''/'') p)
      in if parts = [] then p else last parts)"

section \<open>Facts about normal paths\<close>

text \<open>A segment list is clean when it names a file below the root without detours.\<close>

definition clean_seg :: "string \<Rightarrow> bool" where
  "clean_seg s \<longleftrightarrow> s \<noteq> [] \<and> s \<noteq> ''.'' \<and> s \<noteq> ''..'' \<and> CHR ''/'' \<notin> set s"

definition clean :: "string list \<Rightarrow> bool" where
  "clean ss \<longleftrightarrow> (\<forall>s\<in>set ss. clean_seg s)"

lemma clean_simps [simp]:
  "clean []" "clean (s # ss) \<longleftrightarrow> clean_seg s \<and> clean ss" "clean (xs @ ys) \<longleftrightarrow> clean xs \<and> clean ys"
  by (auto simp: clean_def)

lemma clean_tl: "clean ss \<Longrightarrow> clean (tl ss)"
  by (cases ss) auto

lemma normalize_segs_clean:
  "clean acc \<Longrightarrow> \<forall>s\<in>set ss. CHR ''/'' \<notin> set s \<Longrightarrow> clean (normalize_segs acc ss)"
proof (induction ss arbitrary: acc)
  case Nil
  then show ?case by (simp add: clean_def)
next
  case (Cons s ss)
  have "clean (tl acc)" using Cons.prems(1) by (rule clean_tl)
  moreover have "clean (s # acc)" if "s \<noteq> []" "s \<noteq> ''.''" "s \<noteq> ''..''"
    using that Cons.prems by (simp add: clean_seg_def)
  ultimately show ?case using Cons by simp
qed

lemma normalize_segs_id: "clean ss \<Longrightarrow> normalize_segs acc ss = rev acc @ ss"
  by (induction ss arbitrary: acc) (auto simp: clean_seg_def)

lemma segs_mk_abs: "clean ss \<Longrightarrow> segs (mk_abs ss) = ss"
proof (cases "ss = []")
  case True
  then show ?thesis by (simp add: segs_def mk_abs_def)
next
  case False
  assume c: "clean ss"
  have "split_on (CHR ''/'') (join_with ''/'' ss) = ss"
    using False c by (intro split_on_join_with) (auto simp: clean_def clean_seg_def)
  moreover have "filter (\<lambda>s. s \<noteq> []) ss = ss"
    using c by (auto simp: clean_def clean_seg_def intro!: filter_True)
  ultimately show ?thesis by (simp add: segs_def mk_abs_def)
qed

lemma isAbsolute_mk_abs [simp]: "isAbsolute (mk_abs ss)"
  by (simp add: isAbsolute_def mk_abs_def)

lemma path_resolve_mk_abs [simp]: "clean ss \<Longrightarrow> path_resolve cwd (mk_abs ss) = mk_abs ss"
proof (cases "ss = []")
  case True
  then show ?thesis by (simp add: path_resolve_def mk_abs_def isAbsolute_def)
next
  case False
  assume c: "clean ss"
  have "split_on (CHR ''/'') (join_with ''/'' ss) = ss"
    using False c by (intro split_on_join_with) (auto simp: clean_def clean_seg_def)
  then show ?thesis
    using c by (simp add: path_resolve_def) (simp add: mk_abs_def normalize_segs_id)
qed

text \<open>Resolving always gives the absolute path of a clean segment list.\<close>

lemma path_resolve_clean:
  obtains ss where "path_resolve cwd p = mk_abs ss" "clean ss" "segs (path_resolve cwd p) = ss"
proof -
  let ?p = "if isAbsolute p then p else cwd @ ''/'' @ p"
  let ?ss = "normalize_segs [] (split_on (CHR ''/'') ?p)"
  have "clean ?ss"
    by (rule normalize_segs_clean) (auto dest: split_on_no_sep)
  moreover have "path_resolve cwd p = mk_abs ?ss"
    by (simp add: path_resolve_def)
  ultimately show ?thesis
    using that by (simp add: segs_mk_abs)
qed

lemma strip_common_append: "strip_common xs (xs @ ys) = ([], ys)"
  by (induction xs) auto

lemma strip_common_split:
  "strip_common xs ys = (us, vs) \<Longrightarrow> \<exists>c. xs = c @ us \<and> ys = c @ vs"
proof (induction xs ys rule: strip_common.induct)
  case (1 x xs y ys)
  show ?case
  proof (cases "x = y")
    case True
    with "1.prems" have "strip_common xs ys = (us, vs)" by simp
    with "1.IH" True obtain c where "xs = c @ us \<and> ys = c @ vs" by blast
    then have "x # xs = (x # c) @ us \<and> y # ys = (x # c) @ vs" using True by simp
    then show ?thesis by blast
  next
    case False
    with "1.prems" show ?thesis by auto
  qed
qed auto

lemma join_with_hd: "ss \<noteq> [] \<Longrightarrow> \<exists>r. join_with sep ss = hd ss @ r"
  by (cases ss) (auto simp: join_with_Cons)

lemma startsWith_dotdot_join:
  assumes "CHR ''/'' \<notin> set s"
  shows "startsWith (join_with ''/'' (s # ss)) ''..'' = startsWith s ''..''"
proof -
  have "\<exists>r. join_with ''/'' (s # ss) = s @ r \<and> (r = [] \<or> hd r = CHR ''/'')"
    by (cases "ss = []") (auto simp: join_with_Cons)
  then obtain r where r: "join_with ''/'' (s # ss) = s @ r" "r = [] \<or> hd r = CHR ''/''"
    by blast
  show ?thesis
  proof (cases s)
    case Nil
    then show ?thesis using r by (cases r) auto
  next
    case (Cons a s')
    then show ?thesis using r by (cases s'; cases r) auto
  qed
qed

text \<open>
  The traversal check, on segments: the candidate is accepted exactly when it is absolute, its
  segments extend those of the data root, and the first segment below the root does not start
  with two dots.
\<close>

lemma resolveWithinRoot_segs:
  assumes root: "clean rs"
  shows "resolveWithinRoot cwd (mk_abs rs) c = Some n \<longleftrightarrow>
    isAbsolute c \<and> n = path_resolve cwd c \<and>
    (\<exists>rest. segs n = rs @ rest \<and> (rest = [] \<or> \<not> startsWith (hd rest) ''..''))"
proof -
  obtain ns where ns: "path_resolve cwd c = mk_abs ns" "clean ns"
    by (rule path_resolve_clean)
  obtain up down where sc: "strip_common rs ns = (up, down)" by fastforce
  then obtain k where k: "rs = k @ up" "ns = k @ down" by (blast dest: strip_common_split)
  have rel: "path_relative cwd (mk_abs rs) (mk_abs ns) =
      join_with ''/'' (replicate (length up) ''..'' @ down)"
    using root ns(2) sc by (simp add: path_relative_def segs_mk_abs)
  have down: "clean down" using ns(2) k(2) by simp
  have noabs: "\<not> isAbsolute (join_with ''/'' (replicate (length up) ''..'' @ down))"
    using down by (cases up; cases down)
      (auto simp: isAbsolute_def join_with_Cons clean_seg_def neq_Nil_conv)
  have esc: "startsWith (join_with ''/'' (replicate (length up) ''..'' @ down)) ''..'' \<longleftrightarrow>
      up \<noteq> [] \<or> down \<noteq> [] \<and> startsWith (hd down) ''..''"
    using down by (cases up; cases down)
      (auto simp: startsWith_dotdot_join clean_seg_def simp del: join_with.simps,
       auto simp: join_with_Cons startsWith_iff)
  have ext: "(\<exists>rest. ns = rs @ rest \<and> (rest = [] \<or> \<not> startsWith (hd rest) ''..'')) \<longleftrightarrow>
      up = [] \<and> (down = [] \<or> \<not> startsWith (hd down) ''..'')" (is "?L \<longleftrightarrow> ?R")
  proof
    assume ?L
    then obtain rest where "ns = rs @ rest" "rest = [] \<or> \<not> startsWith (hd rest) ''..''" by blast
    with sc show ?R by (auto simp: strip_common_append)
  next
    assume ?R
    with k show ?L by auto
  qed
  have ne: "isAbsolute c \<Longrightarrow> c \<noteq> []" by (auto simp: isAbsolute_def)
  let ?rel = "join_with ''/'' (replicate (length up) ''..'' @ down)"
  have "resolveWithinRoot cwd (mk_abs rs) c =
      (if isAbsolute c \<and> \<not> startsWith ?rel ''..'' then Some (mk_abs ns) else None)"
    using ne noabs unfolding resolveWithinRoot_def ns(1) Let_def rel by (simp del: replicate.simps)
  then have val: "resolveWithinRoot cwd (mk_abs rs) c =
      (if isAbsolute c \<and> (\<exists>rest. ns = rs @ rest \<and> (rest = [] \<or> \<not> startsWith (hd rest) ''..''))
       then Some (mk_abs ns) else None)"
    unfolding esc ext by simp
  show ?thesis
  proof (cases "n = mk_abs ns")
    case True
    then show ?thesis unfolding val ns(1) using segs_mk_abs[OF ns(2)] by simp
  next
    case False
    then show ?thesis unfolding val ns(1) by simp
  qed
qed

end
