(* ===== verification/Ingestion.thy ===== *)
theory Ingestion
  imports Outbox Quota Paths
begin

text \<open>
  The webhook: \<^verbatim>\<open>ingestion/guards/webhook-auth.guard.ts\<close>, \<^verbatim>\<open>ingestion/dto/sftpgo-webhook.dto.ts\<close>,
  \<^verbatim>\<open>ingestion/ingestion.service.ts\<close> and \<^verbatim>\<open>ingestion/ingestion.controller.ts\<close>. The guard runs
  first, then the validation of the body, then \<^verbatim>\<open>accept\<close>, which turns a successful upload into a
  PENDING row with its outbox event.
\<close>

section \<open>The webhook guard\<close>

definition utf8_bytes :: "string \<Rightarrow> byte list" where
  "utf8_bytes s = map of_nat (utf8 s)"

text \<open>\<^verbatim>\<open>matches\<close>: the lengths of the UTF-8 buffers, then \<^verbatim>\<open>timingSafeEqual\<close>, which is true on
  equal buffers of one length.\<close>

definition token_matches :: "string \<Rightarrow> string \<Rightarrow> bool" where
  "token_matches secret provided =
     (let a = utf8_bytes provided; b = utf8_bytes secret
      in if length a \<noteq> length b then False else a = b)"

text \<open>The request as the guard reads it: the header \<^verbatim>\<open>x-syncbridge-token\<close> and the query parameter
  \<^verbatim>\<open>token\<close> where it is a single string.\<close>

record HookRequest =
  hr_headerToken :: "string option"
  hr_queryToken :: "string option"

definition webhook_canActivate :: "app_section \<Rightarrow> HookRequest \<Rightarrow> (world, bool) act" where
  "webhook_canActivate app req =
     (let provided = (case hr_headerToken req of Some t \<Rightarrow> Some t | None \<Rightarrow> hr_queryToken req)
      in case provided of
           None \<Rightarrow> throw (HttpException 401 ''UnauthorizedException'' ''Invalid webhook token'')
         | Some t \<Rightarrow>
             if t = [] \<or> \<not> token_matches (app_webhookSecret app) t
             then throw (HttpException 401 ''UnauthorizedException'' ''Invalid webhook token'')
             else ret True)"

section \<open>The payload\<close>

text \<open>Optional fields are absent (\<^term>\<open>None\<close>) or have a value. \<^verbatim>\<open>status\<close> alone is compared with
  \<^verbatim>\<open>undefined\<close>, so it also keeps an explicit \<^verbatim>\<open>null\<close>, as \<^term>\<open>Some None\<close>.\<close>

record SftpgoWebhookDto =
  pw_action :: string
  pw_username :: string
  pw_path :: string
  pw_virtual_path :: string
  pw_file_size :: int
  pw_status :: "int option option"
  pw_protocol :: "string option"
  pw_session_id :: "string option"
  pw_timestamp :: "int option"

text \<open>The decorators of the DTO, as the global \<^verbatim>\<open>ValidationPipe\<close> applies them.\<close>

definition dto_valid :: "SftpgoWebhookDto \<Rightarrow> bool" where
  "dto_valid p \<longleftrightarrow> pw_action p \<noteq> [] \<and> pw_username p \<noteq> [] \<and> pw_path p \<noteq> [] \<and>
     pw_virtual_path p \<noteq> [] \<and> 0 \<le> pw_file_size p"

section \<open>IngestionService\<close>

definition SFTPGO_STATUS_OK :: int where
  "SFTPGO_STATUS_OK = 1"

datatype AcceptOutcome = ACCEPTED | DUPLICATE | IGNORED

definition key_fields :: "SftpgoWebhookDto \<Rightarrow> string list" where
  "key_fields p =
     [pw_username p, pw_virtual_path p, show_int (pw_file_size p),
      (case pw_timestamp p of None \<Rightarrow> [] | Some t \<Rightarrow> show_int t),
      (case pw_session_id p of None \<Rightarrow> [] | Some s \<Rightarrow> s)]"

definition buildIdempotencyKey :: "services \<Rightarrow> SftpgoWebhookDto \<Rightarrow> string" where
  "buildIdempotencyKey sv p = sv_sha256 sv (utf8_bytes (join_with ''|'' (key_fields p)))"

definition pending_input ::
    "services \<Rightarrow> app_config \<Rightarrow> string \<Rightarrow> SftpgoWebhookDto \<Rightarrow> CreatePendingInput" where
  "pending_input sv cfg sourcePath p =
     \<lparr>cp_idempotencyKey = buildIdempotencyKey sv p,
      cp_tenantId = tenant_resolve (cfg_tenancy cfg) (pw_username p),
      cp_filename = basename (pw_virtual_path p), cp_virtualPath = pw_virtual_path p,
      cp_sourcePath = sourcePath, cp_bucket = s3_bucket (cfg_s3 cfg),
      cp_sizeBytes = show_int (pw_file_size p), cp_username = pw_username p,
      cp_protocol = pw_protocol p, cp_sessionId = pw_session_id p\<rparr>"

text \<open>The service's \<^verbatim>\<open>dataRoot\<close>, resolved in its constructor.\<close>

definition data_root :: "string \<Rightarrow> app_config \<Rightarrow> string" where
  "data_root cwd cfg = path_resolve cwd (app_ingestionDataRoot (cfg_app cfg))"

definition accept ::
    "services \<Rightarrow> app_config \<Rightarrow> string \<Rightarrow> (string \<times> string) list \<Rightarrow> SftpgoWebhookDto \<Rightarrow>
     (world, AcceptOutcome) act" where
  "accept sv cfg cwd carrier p =
     (if pw_action p \<noteq> ''upload'' then ret IGNORED
      else if pw_status p \<noteq> None \<and> pw_status p \<noteq> Some (Some SFTPGO_STATUS_OK) then ret IGNORED
      else
        case resolveWithinRoot cwd (data_root cwd cfg) (pw_path p) of
          None \<Rightarrow> ret IGNORED
        | Some sourcePath \<Rightarrow>
            bnd (createTransferWithOutbox sv (pending_input sv cfg sourcePath p) carrier)
              (\<lambda>record. case record of None \<Rightarrow> ret DUPLICATE | Some _ \<Rightarrow> ret ACCEPTED))"

text \<open>\<^verbatim>\<open>POST /v1/sftp/on-upload\<close>: guard, validation pipe, handler.\<close>

definition handleWebhook ::
    "services \<Rightarrow> app_config \<Rightarrow> string \<Rightarrow> (string \<times> string) list \<Rightarrow> HookRequest \<Rightarrow> SftpgoWebhookDto \<Rightarrow>
     (world, AcceptOutcome) act" where
  "handleWebhook sv cfg cwd carrier req p =
     seq (webhook_canActivate (cfg_app cfg) req)
       (if dto_valid p then accept sv cfg cwd carrier p
        else throw (HttpException 400 ''BadRequestException'' ''Bad Request Exception''))"

section \<open>Lemmas\<close>

lemma utf8_char_bound: "n \<in> set (utf8_char c) \<Longrightarrow> n < 256"
  using less_mult_imp_div_less[of "of_char c" 4 64] of_char_less_256[of c]
  by (auto simp: utf8_char_def Let_def split: if_splits)

lemma utf8_bytes_inj: "utf8_bytes s = utf8_bytes t \<longleftrightarrow> s = t"
proof
  have inv: "map unat (utf8_bytes s) = utf8 s" for s
    by (auto simp: utf8_bytes_def utf8_def unat_of_nat intro!: map_idI mod_less dest: utf8_char_bound)
  assume "utf8_bytes s = utf8_bytes t"
  then show "s = t" by (metis inv utf8_inj)
qed simp

lemma token_matches_iff: "token_matches secret t \<longleftrightarrow> t = secret"
  by (auto simp: token_matches_def Let_def utf8_bytes_inj)

text \<open>The data root is clean, so the traversal check is the one on segments.\<close>

lemma accept_root:
  assumes "resolveWithinRoot cwd (data_root cwd cfg) p = Some n"
  shows "\<exists>rest. segs n = segs (data_root cwd cfg) @ rest \<and> clean (segs n) \<and> n = mk_abs (segs n)"
proof -
  obtain rs where rs: "data_root cwd cfg = mk_abs rs" "clean rs" "segs (data_root cwd cfg) = rs"
    unfolding data_root_def by (rule path_resolve_clean)
  obtain ns where ns: "path_resolve cwd p = mk_abs ns" "clean ns" "segs (path_resolve cwd p) = ns"
    by (rule path_resolve_clean)
  from assms rs have "n = path_resolve cwd p" "\<exists>rest. segs n = rs @ rest"
    by (auto simp: resolveWithinRoot_segs)
  with rs ns show ?thesis by auto
qed

text \<open>An event the service acts on.\<close>

definition actionable :: "app_config \<Rightarrow> string \<Rightarrow> SftpgoWebhookDto \<Rightarrow> bool" where
  "actionable cfg cwd p \<longleftrightarrow> pw_action p = ''upload'' \<and>
     (pw_status p = None \<or> pw_status p = Some (Some SFTPGO_STATUS_OK)) \<and>
     resolveWithinRoot cwd (data_root cwd cfg) (pw_path p) \<noteq> None"

abbreviation accept_input :: "services \<Rightarrow> app_config \<Rightarrow> string \<Rightarrow> SftpgoWebhookDto \<Rightarrow> CreatePendingInput" where
  "accept_input sv cfg cwd p \<equiv>
     pending_input sv cfg (the (resolveWithinRoot cwd (data_root cwd cfg) (pw_path p))) p"

lemma accept_ignored: "\<not> actionable cfg cwd p \<Longrightarrow> accept sv cfg cwd carrier p w = (Done IGNORED, w)"
  by (auto simp: accept_def actionable_def ret_def split: option.splits)

lemma accept_actionable:
  "actionable cfg cwd p \<Longrightarrow> accept sv cfg cwd carrier p =
     bnd (createTransferWithOutbox sv (accept_input sv cfg cwd p) carrier)
       (\<lambda>record. ret (case record of None \<Rightarrow> DUPLICATE | Some _ \<Rightarrow> ACCEPTED))"
  by (auto simp: accept_def actionable_def intro!: arg_cong[where f = "bnd _"] split: option.splits)

lemma accept_state:
  "snd (accept sv cfg cwd carrier p w) = w \<or>
   actionable cfg cwd p \<and> fresh_for sv (accept_input sv cfg cwd p) w \<and>
   snd (accept sv cfg cwd carrier p w) = with_transfer sv (accept_input sv cfg cwd p) carrier w"
proof (cases "actionable cfg cwd p")
  case True
  then show ?thesis
    using create_atomic[of sv "accept_input sv cfg cwd p" carrier w]
    by (simp add: accept_actionable snd_bnd_ret) blast
qed (simp add: accept_ignored)

lemma accept_ACCEPTED:
  assumes "accept sv cfg cwd carrier p w = (Done ACCEPTED, w')"
  shows "actionable cfg cwd p \<and> w' = with_transfer sv (accept_input sv cfg cwd p) carrier w \<and>
    fresh_for sv (accept_input sv cfg cwd p) w"
proof -
  have a: "actionable cfg cwd p"
    using assms accept_ignored[of cfg cwd p sv carrier w] by auto
  then obtain row where "createTransferWithOutbox sv (accept_input sv cfg cwd p) carrier w = (Done (Some row), w')"
    using assms by (auto simp: accept_actionable bnd_Done_iff split: option.splits)
  with a show ?thesis by (auto dest: create_Done_Some)
qed

text \<open>The fields of the idempotency key, when the separator occurs in none of the first four.\<close>

lemma show_int_no_bar: "CHR ''|'' \<notin> set (show_int i)"
  using show_int_chars[of "CHR ''|''" i] by auto

lemma key_fields_inj:
  assumes "CHR ''|'' \<notin> set (pw_username p @ pw_virtual_path p @ pw_username q @ pw_virtual_path q)"
    and "join_with ''|'' (key_fields p) = join_with ''|'' (key_fields q)"
  shows "key_fields p = key_fields q"
proof -
  have ts: "CHR ''|'' \<notin> set (case t of None \<Rightarrow> [] | Some t \<Rightarrow> show_int t)" for t
    by (simp add: show_int_no_bar split: option.splits)
  from assms show ?thesis
    unfolding key_fields_def by (simp add: sep_prefix_inj show_int_no_bar ts)
qed

section \<open>Properties\<close>

text \<open>The webhook never persists a path outside the data root, whatever faults occur: a row that
  handling an event adds to the table has a normalized absolute source path whose segments
  start with those of the resolved data root.\<close>

theorem accept_stays_in_root:
  assumes "w' = snd (handleWebhook sv cfg cwd carrier req p w)"
    and "r \<in> set (w_transfers w') - set (w_transfers w)"
  shows "\<exists>rest. segs (ft_sourcePath r) = segs (data_root cwd cfg) @ rest \<and>
     clean (segs (ft_sourcePath r)) \<and> ft_sourcePath r = mk_abs (segs (ft_sourcePath r))"
proof -
  have cases: "w' = w \<or> w' = snd (accept sv cfg cwd carrier p w)"
    using assms(1)
    by (auto simp: handleWebhook_def webhook_canActivate_def seq_def Let_def throw_def bnd_def ret_def
        split: option.splits if_splits)
  with assms(2) have "w' \<noteq> w" by auto
  with cases accept_state[of sv cfg cwd carrier p w] have a: "actionable cfg cwd p"
    and w': "w' = with_transfer sv (accept_input sv cfg cwd p) carrier w" by auto
  obtain n where n: "resolveWithinRoot cwd (data_root cwd cfg) (pw_path p) = Some n"
    using a by (auto simp: actionable_def)
  have "ft_sourcePath r = n"
    using assms(2) w' n by (auto simp: with_transfer_def new_transfer_def pending_input_def Let_def)
  with accept_root[OF n] show ?thesis by simp
qed

definition hook1 :: SftpgoWebhookDto where
  "hook1 = \<lparr>pw_action = ''upload'', pw_username = ''alice'', pw_path = ''/data/x/../a.txt'',
     pw_virtual_path = ''/a.txt'', pw_file_size = 2, pw_status = Some (Some 1),
     pw_protocol = Some ''SFTP'', pw_session_id = Some ''s1'', pw_timestamp = Some 5\<rparr>"

definition req1 :: HookRequest where
  "req1 = \<lparr>hr_headerToken = Some ''s3cret'', hr_queryToken = None\<rparr>"

lemma hook1_root: "resolveWithinRoot ''/srv'' (data_root ''/srv'' cfg0) (pw_path hook1) = Some ''/data/a.txt''"
  by (simp add: resolveWithinRoot_def data_root_def hook1_def cfg0_def app0_def isAbsolute_def path_resolve_def
      mk_abs_def path_relative_def segs_def startsWith_def Let_def)

lemma hook1_actionable: "actionable cfg0 ''/srv'' hook1"
  unfolding actionable_def hook1_root by (simp add: hook1_def SFTPGO_STATUS_OK_def)

lemma accepted_run:
  assumes "actionable cfg0 ''/srv'' p" "dto_valid p" "w_transfers w = []" "w_outbox w = []"
  shows "handleWebhook sv0 cfg0 ''/srv'' [] req1 p w =
     (Done ACCEPTED, with_transfer sv0 (accept_input sv0 cfg0 ''/srv'' p) [] w)"
proof -
  have guard: "webhook_canActivate (cfg_app cfg0) req1 = ret True"
    by (simp add: webhook_canActivate_def req1_def token_matches_iff cfg0_def app0_def)
  have "createTransferWithOutbox sv0 inp [] w =
      (Done (Some (new_transfer (sv_uuid sv0 ''file_transfers'') (w_now w) inp)), with_transfer sv0 inp [] w)" for inp
  proof -
    have "sv_fault sv0 c = Healthy" for c by (simp add: sv0_def)
    moreover have "write_transfer sv0 inp [] w =
        (Done (new_transfer (sv_uuid sv0 ''file_transfers'') (w_now w) inp), with_transfer sv0 inp [] w)"
      by (simp add: write_transfer_Done fresh_for_def sv0_def assms(3,4))
    ultimately show ?thesis
      by (simp add: createTransferWithOutbox_def try_catch_def bnd_def transaction_def ret_def)
  qed
  then show ?thesis
    unfolding handleWebhook_def guard
    by (simp add: assms(1,2) accept_actionable seq_def bnd_def ret_def)
qed

lemma hook1_run:
  "handleWebhook sv0 cfg0 ''/srv'' [] req1 hook1 world0 =
     (Done ACCEPTED, with_transfer sv0 (accept_input sv0 cfg0 ''/srv'' hook1) [] world0)"
  by (rule accepted_run[OF hook1_actionable]) (simp_all add: dto_valid_def hook1_def world0_def)

theorem accept_stays_in_root_witness:
  "\<exists>rest. segs (ft_sourcePath (last (w_transfers (snd (handleWebhook sv0 cfg0 ''/srv'' [] req1 hook1 world0))))) =
     segs (data_root ''/srv'' cfg0) @ rest"
  using accept_stays_in_root[OF refl, of
      "last (w_transfers (snd (handleWebhook sv0 cfg0 ''/srv'' [] req1 hook1 world0)))"
      sv0 cfg0 "''/srv''" "[]" req1 hook1 world0]
  unfolding hook1_run by (auto simp: with_transfer_def world0_def Let_def)

text \<open>C20: Redelivery: once an event was accepted, a second delivery of the same event (in any later
  state that still holds the row's key, with the same hash function) is answered as a duplicate
  and changes nothing.\<close>

theorem redelivery_is_duplicate:
  assumes "accept sv cfg cwd carrier p w = (Done ACCEPTED, w1)"
    and "ft_idempotencyKey ` set (w_transfers w1) \<subseteq> ft_idempotencyKey ` set (w_transfers w2)"
    and "sv_sha256 sv' = sv_sha256 sv" "sv_fault sv' C_InsertTransfer = Healthy"
  shows "accept sv' cfg cwd carrier' p w2 = (Done DUPLICATE, w2)"
proof -
  from accept_ACCEPTED[OF assms(1)] have a: "actionable cfg cwd p"
    and w1: "w1 = with_transfer sv (accept_input sv cfg cwd p) carrier w" by auto
  have "cp_idempotencyKey (accept_input sv' cfg cwd p) \<in> ft_idempotencyKey ` set (w_transfers w1)"
    using assms(3) by (simp add: w1 with_transfer_def new_transfer_def pending_input_def buildIdempotencyKey_def Let_def)
  with assms(2) have "cp_idempotencyKey (accept_input sv' cfg cwd p) \<in> ft_idempotencyKey ` set (w_transfers w2)"
    by blast
  then have "createTransferWithOutbox sv' (accept_input sv' cfg cwd p) carrier' w2 = (Done None, w2)"
    using assms(4)
    by (auto simp: createTransferWithOutbox_def write_transfer_def call_Healthy insert_transfer_def
        act_defs Let_def)
  with a show ?thesis by (simp add: accept_actionable bnd_def ret_def)
qed

theorem redelivery_is_duplicate_witness:
  "accept sv0 cfg0 ''/srv'' [] hook1 (snd (accept sv0 cfg0 ''/srv'' [] hook1 world0)) =
     (Done DUPLICATE, snd (accept sv0 cfg0 ''/srv'' [] hook1 world0))"
proof (rule redelivery_is_duplicate)
  have "handleWebhook sv0 cfg0 ''/srv'' [] req1 hook1 world0 = accept sv0 cfg0 ''/srv'' [] hook1 world0"
    by (simp add: handleWebhook_def webhook_canActivate_def req1_def token_matches_iff cfg0_def app0_def
        dto_valid_def hook1_def seq_def)
  then show "accept sv0 cfg0 ''/srv'' [] hook1 world0 = (Done ACCEPTED, snd (accept sv0 cfg0 ''/srv'' [] hook1 world0))"
    using hook1_run by (metis snd_conv)
qed (auto simp: sv0_def)

text \<open>Distinct uploads get distinct idempotency keys, provided the hash does not collide on them
  and neither the user names nor the virtual paths contain the separator of the key: equal keys
  mean equal user, path, size, timestamp and session (an absent session counts as an empty
  one).\<close>

theorem idempotency_key_separates:
  assumes "inj_on (sv_sha256 sv)
             {utf8_bytes (join_with ''|'' (key_fields p)), utf8_bytes (join_with ''|'' (key_fields q))}"
    and "CHR ''|'' \<notin> set (pw_username p @ pw_virtual_path p @ pw_username q @ pw_virtual_path q)"
    and "buildIdempotencyKey sv p = buildIdempotencyKey sv q"
  shows "pw_username p = pw_username q \<and> pw_virtual_path p = pw_virtual_path q \<and>
     pw_file_size p = pw_file_size q \<and> pw_timestamp p = pw_timestamp q \<and>
     (case pw_session_id p of None \<Rightarrow> [] | Some s \<Rightarrow> s) = (case pw_session_id q of None \<Rightarrow> [] | Some s \<Rightarrow> s)"
proof -
  have "utf8_bytes (join_with ''|'' (key_fields p)) = utf8_bytes (join_with ''|'' (key_fields q))"
    using assms(3) unfolding buildIdempotencyKey_def by (rule inj_onD[OF assms(1)]) simp_all
  then have "key_fields p = key_fields q"
    using assms(2) key_fields_inj by (simp add: utf8_bytes_inj)
  then have eqs: "pw_username p = pw_username q" "pw_virtual_path p = pw_virtual_path q"
      "pw_file_size p = pw_file_size q"
      "(case pw_session_id p of None \<Rightarrow> [] | Some s \<Rightarrow> s) = (case pw_session_id q of None \<Rightarrow> [] | Some s \<Rightarrow> s)"
      "(case pw_timestamp p of None \<Rightarrow> [] | Some t \<Rightarrow> show_int t) =
       (case pw_timestamp q of None \<Rightarrow> [] | Some t \<Rightarrow> show_int t)"
    unfolding key_fields_def list.inject show_int_inj by blast+
  have "pw_timestamp p = pw_timestamp q"
    using eqs(5) show_int_not_Nil show_int_not_Nil[symmetric]
    by (cases "pw_timestamp p"; cases "pw_timestamp q") (simp_all add: show_int_inj)
  with eqs show ?thesis by blast
qed

theorem idempotency_key_separates_witness:
  "buildIdempotencyKey sv0 hook1 \<noteq> buildIdempotencyKey sv0 (hook1\<lparr>pw_timestamp := Some 6\<rparr>)"
proof
  assume eq: "buildIdempotencyKey sv0 hook1 = buildIdempotencyKey sv0 (hook1\<lparr>pw_timestamp := Some 6\<rparr>)"
  have "inj (sv_sha256 sv0)" by (simp add: sv0_def show_bytes_inj)
  then have "inj_on (sv_sha256 sv0) S" for S by (rule inj_on_subset) simp
  from idempotency_key_separates[OF this _ eq] show False by (simp add: hook1_def)
qed

text \<open>C40: Without that proviso the key does not separate uploads: the fields are joined with an
  unescaped separator, so two different users' events have one key under every hash function, and
  the second upload is dropped as a duplicate.\<close>

theorem idempotency_key_collision:
  "\<exists>p q. dto_valid p \<and> dto_valid q \<and> pw_username p \<noteq> pw_username q \<and>
     (\<forall>sv. buildIdempotencyKey sv p = buildIdempotencyKey sv q)"
proof (intro exI conjI allI)
  let ?p = "hook1\<lparr>pw_username := ''a'', pw_virtual_path := ''/b|/c''\<rparr>"
  let ?q = "hook1\<lparr>pw_username := ''a|/b'', pw_virtual_path := ''/c''\<rparr>"
  show "dto_valid ?p" "dto_valid ?q" "pw_username ?p \<noteq> pw_username ?q"
    by (simp_all add: dto_valid_def hook1_def)
  show "buildIdempotencyKey sv ?p = buildIdempotencyKey sv ?q" for sv
    by (simp add: buildIdempotencyKey_def key_fields_def)
qed


end
