(* ===== verification/Clamd.thy ===== *)
theory Clamd
  imports Services
begin

text \<open>
  \<^verbatim>\<open>ingestion/pipeline/clamd.client.ts\<close>: the INSTREAM client of clamd. The promise it returns is
  settled by callbacks of a socket and of a file stream, in whatever order Node delivers their
  events; the model is the state the callbacks share and one handler for each event, so the
  lemmas hold for every interleaving. \<open>scanFileWithClamd\<close> is the run in which clamd answers, as
  the pipeline awaits it.
\<close>

section \<open>The client\<close>

record ScanResult =
  sr_clean :: bool
  sr_signature :: "string option"

datatype clam_event =
    SocketConnect
  | SocketData string
  | SocketEnd
  | SocketError js_error
  | SocketTimeout
  | FileData "byte list"
  | FileEnd
  | FileError js_error

text \<open>The closure of the callbacks: the reply so far, the \<^verbatim>\<open>settled\<close> flag, the bytes written to the
  socket, and the promise: unsettled, rejected or resolved.\<close>

record ScanState =
  ss_response :: string
  ss_settled :: bool
  ss_written :: "byte list"
  ss_promise :: "(js_error + ScanResult) option"

definition scan_start :: ScanState where
  "scan_start = \<lparr>ss_response = [], ss_settled = False, ss_written = [], ss_promise = None\<rparr>"

text \<open>\<^verbatim>\<open>Buffer.alloc(4)\<close> with \<^verbatim>\<open>writeUInt32BE\<close>.\<close>

definition uint32BE :: "nat \<Rightarrow> byte list" where
  "uint32BE n = [of_nat (n div 2 ^ 24), of_nat (n div 2 ^ 16), of_nat (n div 2 ^ 8), of_nat n]"

definition bytes_of :: "string \<Rightarrow> byte list" where
  "bytes_of s = map (\<lambda>c. of_nat (of_char c)) s"

definition INSTREAM :: "byte list" where
  "INSTREAM = bytes_of ''zINSTREAM'' @ [0]"

text \<open>\<^verbatim>\<open>text.replace(/^stream:\s*/, '').replace(/\s*FOUND$/, '')\<close>\<close>

definition clamd_signature :: "string \<Rightarrow> string" where
  "clamd_signature text =
     (let t = (if startsWith text ''stream:'' then dropWhile is_space (drop 7 text) else text)
      in if endsWith t ''FOUND'' then rev (dropWhile is_space (rev (take (length t - 5) t))) else t)"

definition classify :: "string \<Rightarrow> js_error + ScanResult" where
  "classify response =
     (let text = trim response in
      if str_includes text ''FOUND'' then
        Inr \<lparr>sr_clean = False, sr_signature = Some (clamd_signature text)\<rparr>
      else if str_includes text ''OK'' then Inr \<lparr>sr_clean = True, sr_signature = None\<rparr>
      else Inl (JsError ''Error'' (''Unexpected clamd response: '' @ text)))"

definition scan_fail :: "js_error \<Rightarrow> ScanState \<Rightarrow> ScanState" where
  "scan_fail e st =
     (if ss_settled st then st else st\<lparr>ss_settled := True, ss_promise := Some (Inl e)\<rparr>)"

fun on_event :: "clam_event \<Rightarrow> ScanState \<Rightarrow> ScanState" where
  "on_event (SocketError e) st = scan_fail e st"
| "on_event SocketTimeout st = scan_fail (JsError ''Error'' ''clamd scan timed out'') st"
| "on_event (SocketData d) st = st\<lparr>ss_response := ss_response st @ d\<rparr>"
| "on_event SocketEnd st =
     (if ss_settled st then st
      else st\<lparr>ss_settled := True, ss_promise := Some (classify (ss_response st))\<rparr>)"
| "on_event SocketConnect st = st\<lparr>ss_written := ss_written st @ INSTREAM\<rparr>"
| "on_event (FileError e) st = scan_fail e st"
| "on_event (FileData chunk) st = st\<lparr>ss_written := ss_written st @ uint32BE (length chunk) @ chunk\<rparr>"
| "on_event FileEnd st = st\<lparr>ss_written := ss_written st @ uint32BE 0\<rparr>"

definition scan_run :: "clam_event list \<Rightarrow> ScanState \<Rightarrow> ScanState" where
  "scan_run evs st = fold on_event evs st"

text \<open>The bytes the client has sent once the file ended.\<close>

definition scan_sent :: "byte list list \<Rightarrow> byte list" where
  "scan_sent chunks =
     ss_written (scan_run (SocketConnect # map FileData chunks @ [FileEnd]) scan_start)"

definition scanFileWithClamd :: "services \<Rightarrow> string \<Rightarrow> (world, ScanResult) act" where
  "scanFileWithClamd sv filePath =
     call sv C_Scan
       (let chunks = sv_chunks sv C_Scan filePath;
            st = scan_run (SocketConnect # map FileData chunks @
                   [FileEnd, SocketData (sv_clamd sv (scan_sent chunks)), SocketEnd]) scan_start
        in case ss_promise st of
             Some (Inr r) \<Rightarrow> ret r
           | Some (Inl e) \<Rightarrow> throw e
           | None \<Rightarrow> throw (JsError ''Error'' ''clamd scan timed out''))"

section \<open>What clamd reads\<close>

text \<open>The other end of the protocol, as clamd's documentation has it: the command, then chunks of a
  32-bit big-endian length and as many bytes, ended by a length of zero. The fuel is the number
  of bytes to read, which is enough, since every chunk takes some.\<close>

definition read_uint32BE :: "byte list \<Rightarrow> nat" where
  "read_uint32BE bs = foldl (\<lambda>n b. n * 256 + unat b) 0 bs"

fun read_chunks :: "nat \<Rightarrow> byte list \<Rightarrow> byte list option" where
  "read_chunks 0 bs = None"
| "read_chunks (Suc n) bs =
     (if length bs < 4 then None
      else
        let k = read_uint32BE (take 4 bs); rest = drop 4 bs in
        if k = 0 then (if rest = [] then Some [] else None)
        else if length rest < k then None
        else map_option (\<lambda>tail. take k rest @ tail) (read_chunks n (drop k rest)))"

definition clamd_reads :: "byte list \<Rightarrow> byte list option" where
  "clamd_reads bs =
     (if take (length INSTREAM) bs = INSTREAM
      then read_chunks (length bs) (drop (length INSTREAM) bs) else None)"

section \<open>Lemmas\<close>

lemma length_uint32BE [simp]: "length (uint32BE n) = 4"
  by (simp add: uint32BE_def)

lemma read_uint32BE_inverse: "n < 2 ^ 32 \<Longrightarrow> read_uint32BE (uint32BE n) = n"
proof -
  assume n: "n < 2 ^ 32"
  have byte: "unat (of_nat m :: byte) = m mod 256" for m
    by (simp add: unat_of_nat)
  have "n div 2 ^ 24 mod 256 = n div 2 ^ 24" using n by (simp add: less_mult_imp_div_less)
  moreover have "n div 2 ^ 16 = n div 2 ^ 24 * 256 + n div 2 ^ 16 mod 256"
    "n div 2 ^ 8 = n div 2 ^ 16 * 256 + n div 2 ^ 8 mod 256" "n = n div 2 ^ 8 * 256 + n mod 256"
    by (simp_all add: div_mult2_eq[of n "2 ^ 16" 256, simplified] div_mult2_eq[of n "2 ^ 8" 256, simplified])
  ultimately show ?thesis
    by (simp add: read_uint32BE_def uint32BE_def byte)
qed

definition frames :: "byte list list \<Rightarrow> byte list" where
  "frames chunks = concat (map (\<lambda>c. uint32BE (length c) @ c) chunks)"

lemma scan_run_simps [simp]:
  "scan_run [] st = st" "scan_run (e # evs) st = scan_run evs (on_event e st)"
  "scan_run (xs @ ys) st = scan_run ys (scan_run xs st)"
  by (simp_all add: scan_run_def)

lemma scan_run_data:
  "scan_run (map FileData chunks) st = st\<lparr>ss_written := ss_written st @ frames chunks\<rparr>"
  by (induction chunks arbitrary: st) (simp_all add: frames_def)

lemma scan_sent_frames: "scan_sent chunks = INSTREAM @ frames chunks @ uint32BE 0"
  by (simp add: scan_sent_def scan_run_data scan_start_def)

lemma read_chunks_frames:
  "\<lbrakk>\<forall>c\<in>set chunks. 0 < length c \<and> length c < 2 ^ 32; length chunks < n\<rbrakk> \<Longrightarrow>
   read_chunks n (frames chunks @ uint32BE 0) = Some (concat chunks)"
proof (induction chunks arbitrary: n)
  case Nil
  then obtain m where "n = Suc m" by (cases n) auto
  then show ?case by (simp add: frames_def read_uint32BE_inverse)
next
  case (Cons c cs)
  then obtain m where m: "n = Suc m" "length cs < m" by (cases n) auto
  have "read_chunks m (frames cs @ uint32BE 0) = Some (concat cs)"
    using Cons m(2) by simp
  then show ?case
    using Cons.prems(1) m(1) by (simp add: frames_def read_uint32BE_inverse Let_def)
qed

lemma length_frames: "length chunks \<le> length (frames chunks)"
  by (induction chunks) (auto simp: frames_def)

text \<open>Once the flag is set the promise is settled, and it never changes again.\<close>

definition scan_inv :: "ScanState \<Rightarrow> bool" where
  "scan_inv st \<longleftrightarrow> (ss_settled st \<longleftrightarrow> ss_promise st \<noteq> None)"

lemma on_event_inv: "scan_inv st \<Longrightarrow> scan_inv (on_event e st)"
  by (cases e) (auto simp: scan_inv_def scan_fail_def)

lemma on_event_settled:
  "scan_inv st \<Longrightarrow> ss_promise st = Some r \<Longrightarrow> ss_promise (on_event e st) = Some r"
  by (cases e) (auto simp: scan_inv_def scan_fail_def)

lemma scan_run_inv: "scan_inv st \<Longrightarrow> scan_inv (scan_run evs st)"
  by (induction evs arbitrary: st) (auto simp: on_event_inv)

lemma scan_run_settled:
  "scan_inv st \<Longrightarrow> ss_promise st = Some r \<Longrightarrow> ss_promise (scan_run evs st) = Some r"
  by (induction evs arbitrary: st) (auto simp: on_event_inv on_event_settled)

lemma scan_start_inv: "scan_inv scan_start"
  by (simp add: scan_inv_def scan_start_def)

text \<open>A reply in which a virus name precedes the word FOUND, and one in which it does not.\<close>

lemma classify_clean_iff:
  "classify response = Inr r \<and> sr_clean r \<longleftrightarrow>
     \<not> str_includes (trim response) ''FOUND'' \<and> str_includes (trim response) ''OK'' \<and>
     r = \<lparr>sr_clean = True, sr_signature = None\<rparr>"
  by (auto simp: classify_def Let_def)

lemma scanFileWithClamd_eq:
  "scanFileWithClamd sv p =
     call sv C_Scan (case classify (sv_clamd sv (scan_sent (sv_chunks sv C_Scan p))) of
        Inr r \<Rightarrow> ret r | Inl e \<Rightarrow> throw e)"
  by (simp add: scanFileWithClamd_def scan_run_data scan_start_def)

lemma frame_scan [eff]: "frame f (scanFileWithClamd sv p)"
  unfolding scanFileWithClamd_eq by (intro eff) (auto split: sum.splits intro: eff)

section \<open>Properties\<close>

text \<open>C22: The INSTREAM framing is right: what clamd decodes from the bytes the client sends is
  exactly the contents of the file, whatever the chunks the file stream delivered (each non-empty
  and shorter than 2^32 bytes).\<close>

theorem instream_framing_roundtrip:
  assumes "\<forall>c\<in>set chunks. 0 < length c \<and> length c < 2 ^ 32"
  shows "clamd_reads (scan_sent chunks) = Some (concat chunks)"
proof -
  have "read_chunks (length (scan_sent chunks)) (frames chunks @ uint32BE 0) = Some (concat chunks)"
    using assms length_frames[of chunks]
    by (intro read_chunks_frames) (auto simp: scan_sent_frames INSTREAM_def)
  then show ?thesis
    by (simp add: clamd_reads_def scan_sent_frames)
qed

theorem instream_framing_roundtrip_witness:
  "clamd_reads (scan_sent [[1, 2, 3], replicate 300 0]) = Some ([1, 2, 3] @ replicate 300 0)"
  using instream_framing_roundtrip[of "[[1, 2, 3], replicate 300 0]"] by simp

text \<open>The promise of a scan is settled once: after any sequence of socket and file events that
  settles it, no later event changes the result. A file error, a socket error or a timeout before
  clamd's reply has ended rejects it, so the file does not pass as scanned.\<close>

theorem scan_settles_once:
  assumes "ss_promise (scan_run evs scan_start) = Some r"
  shows "ss_promise (scan_run (evs @ later) scan_start) = Some r \<and>
    (SocketEnd \<notin> set evs \<longrightarrow> (\<exists>e. r = Inl e))"
proof -
  have "\<exists>e. ss_promise (scan_run evs st) = Some (Inl e)"
    if "SocketEnd \<notin> set evs" "ss_promise (scan_run evs st) \<noteq> None" "scan_inv st"
      "ss_promise st = None \<or> (\<exists>e. ss_promise st = Some (Inl e))" for st
    using that
  proof (induction evs arbitrary: st)
    case (Cons e evs)
    have "ss_promise (on_event e st) = None \<or> (\<exists>x. ss_promise (on_event e st) = Some (Inl x))"
      using Cons.prems by (cases e) (auto simp: scan_fail_def)
    with Cons show ?case by (simp add: on_event_inv)
  qed auto
  from this[of scan_start] show ?thesis
    using assms scan_run_settled[OF scan_run_inv[OF scan_start_inv] assms, of later] scan_start_inv
    by (auto simp: scan_start_def)
qed

theorem scan_settles_once_witness:
  "ss_promise (scan_run [SocketConnect, FileData [1], SocketTimeout, SocketData ''stream: OK'', SocketEnd] scan_start)
     = Some (Inl (JsError ''Error'' ''clamd scan timed out''))"
  using scan_settles_once[of "[SocketConnect, FileData [1], SocketTimeout]" "Inl (JsError ''Error'' ''clamd scan timed out'')"
      "[SocketData ''stream: OK'', SocketEnd]"]
  by (simp add: scan_start_def scan_fail_def)

end
