(* ===== verification/Routing.thy ===== *)
theory Routing
  imports Config Paths
begin

text \<open>
  \<^verbatim>\<open>ingestion/routing.service.ts\<close>: the destination of a transfer is found from the configured
  rules, the first that matches; an empty string in a rule counts as absent, as \<^verbatim>\<open>||\<close> and the
  truthiness tests of the source have it.
\<close>

record RouteTarget =
  rt_bucket :: string
  rt_key :: string

definition strip_dot :: "string \<Rightarrow> string" where
  "strip_dot s = (case s of [] \<Rightarrow> [] | c # cs \<Rightarrow> if c = CHR ''.'' then cs else s)"

definition strip_slashes :: "string \<Rightarrow> string" where
  "strip_slashes s = dropWhile (\<lambda>c. c = CHR ''/'') s"

definition rule_matches :: "RoutingRule \<Rightarrow> FileTransfer \<Rightarrow> bool" where
  "rule_matches rule t =
     (let m = rr_match rule in
      if truthy (rm_username m) \<and> the (rm_username m) \<noteq> ft_username t then False
      else if truthy (rm_extension m) \<and>
        toLowerCase (extname (ft_filename t)) \<noteq> ''.'' @ strip_dot (toLowerCase (the (rm_extension m)))
      then False
      else if truthy (rm_pathPrefix m) \<and> \<not> startsWith (ft_virtualPath t) (the (rm_pathPrefix m))
      then False
      else True)"

definition route_resolve :: "string \<Rightarrow> RoutingRule list \<Rightarrow> FileTransfer \<Rightarrow> RouteTarget" where
  "route_resolve defaultBucket rules t =
     (let rule = find (\<lambda>r. rule_matches r t) rules;
          bucket = (case rule of Some r \<Rightarrow> if truthy (rr_bucket r) then the (rr_bucket r) else defaultBucket
                               | None \<Rightarrow> defaultBucket);
          prefix = (case rule of Some r \<Rightarrow> (case rr_prefix r of Some p \<Rightarrow> p | None \<Rightarrow> []) | None \<Rightarrow> []);
          rel = strip_slashes (ft_virtualPath t)
      in \<lparr>rt_bucket = bucket, rt_key = prefix @ ft_username t @ ''/'' @ rel\<rparr>)"

text \<open>The service as it is configured.\<close>

definition route :: "app_config \<Rightarrow> FileTransfer \<Rightarrow> RouteTarget" where
  "route cfg t = route_resolve (s3_bucket (cfg_s3 cfg)) (cfg_routingRules cfg) t"

text \<open>The target of a transfer only depends on the columns no operation changes.\<close>

lemma route_ident:
  "ft_username s = ft_username t \<Longrightarrow> ft_filename s = ft_filename t \<Longrightarrow> ft_virtualPath s = ft_virtualPath t \<Longrightarrow>
   route cfg s = route cfg t"
  by (simp add: route_def route_resolve_def rule_matches_def)

lemma find_Some_split:
  "find P xs = Some x \<Longrightarrow> \<exists>us vs. xs = us @ x # vs \<and> P x \<and> (\<forall>u\<in>set us. \<not> P u)"
proof (induction xs)
  case (Cons y ys)
  show ?case
  proof (cases "P y")
    case True
    then show ?thesis using Cons.prems by (intro exI[of _ "[]"] exI[of _ ys]) auto
  next
    case False
    then obtain us vs where "ys = us @ x # vs \<and> P x \<and> (\<forall>u\<in>set us. \<not> P u)" using Cons by auto
    then show ?thesis using False by (intro exI[of _ "y # us"] exI[of _ vs]) auto
  qed
qed simp

section \<open>Properties\<close>

text \<open>Routing is the first match: either no rule matches and the object goes to the default
  bucket under the user's name, or the rules split at the first rule that matches, whose bucket
  (the default one where it names none) and prefix the target has. The key always ends in the
  user's name, a slash and the virtual path without its leading slashes.\<close>

theorem route_first_match_wins:
  "(\<forall>r\<in>set rules. \<not> rule_matches r t) \<and>
     route_resolve b rules t = \<lparr>rt_bucket = b, rt_key = ft_username t @ ''/'' @ strip_slashes (ft_virtualPath t)\<rparr>
   \<or> (\<exists>us r vs. rules = us @ r # vs \<and> rule_matches r t \<and> (\<forall>u\<in>set us. \<not> rule_matches u t) \<and>
       rt_bucket (route_resolve b rules t) = (if truthy (rr_bucket r) then the (rr_bucket r) else b) \<and>
       rt_key (route_resolve b rules t) =
         (case rr_prefix r of Some p \<Rightarrow> p | None \<Rightarrow> []) @ ft_username t @ ''/'' @ strip_slashes (ft_virtualPath t))"
proof (cases "find (\<lambda>r. rule_matches r t) rules")
  case None
  then show ?thesis by (intro disjI1) (simp add: route_resolve_def, simp add: find_None_iff)
next
  case (Some r)
  from find_Some_split[OF this] Some show ?thesis
    by (intro disjI2) (auto simp: route_resolve_def Let_def)
qed

theorem route_first_match_wins_witness:
  "(\<exists>us r vs. cfg_routingRules cfg0 = us @ r # vs \<and> rule_matches r transfer1 \<and>
     rt_bucket (route cfg0 transfer1) = (if truthy (rr_bucket r) then the (rr_bucket r) else ''landing''))
   \<and> route cfg0 transfer1 = \<lparr>rt_bucket = ''reports'', rt_key = ''csv/alice/in/q.csv''\<rparr>"
proof -
  have eval: "\<exists>r\<in>set (cfg_routingRules cfg0). rule_matches r transfer1"
    "route cfg0 transfer1 = \<lparr>rt_bucket = ''reports'', rt_key = ''csv/alice/in/q.csv''\<rparr>"
    by (simp_all add: cfg0_def route_def route_resolve_def rule_matches_def transfer1_def truthy_def extname_def
        segs_def toLowerCase_def lower_char_def strip_dot_def strip_slashes_def Let_def char_of_def bit_0)
  have b: "s3_bucket (cfg_s3 cfg0) = ''landing''" by (simp add: cfg0_def)
  from route_first_match_wins[of "cfg_routingRules cfg0" transfer1 "''landing''"] eval(1)
  have "\<exists>us r vs. cfg_routingRules cfg0 = us @ r # vs \<and> rule_matches r transfer1 \<and>
     rt_bucket (route cfg0 transfer1) = (if truthy (rr_bucket r) then the (rr_bucket r) else ''landing'')"
    unfolding route_def b by blast
  with eval(2) show ?thesis by blast
qed

text \<open>Under the default routing two users never share an object: when user names have no slash, equal
  keys mean the same user and the same path (up to leading slashes).\<close>

lemma default_routing_separates_users:
  assumes "CHR ''/'' \<notin> set (ft_username s)" "CHR ''/'' \<notin> set (ft_username t)"
    and "rt_key (route_resolve b [] s) = rt_key (route_resolve b [] t)"
  shows "ft_username s = ft_username t \<and> strip_slashes (ft_virtualPath s) = strip_slashes (ft_virtualPath t)"
  using assms by (simp add: route_resolve_def sep_prefix_inj)

end
