(* ===== verification/Pipeline.thy ===== *)
theory Pipeline
  imports Clamd Quota Routing
begin

text \<open>
  \<^verbatim>\<open>ingestion/pipeline/\<close>: the processing steps that run before the upload and the pipeline that
  runs them in order. A step reads the context, may enrich its metadata, and may throw; the
  context it mutates is returned. The contract of a step is the locale \<open>processing_step\<close>; each
  of the four steps of \<^verbatim>\<open>ingestion.module.ts\<close> and every pipeline of such steps is an instance.
\<close>

record ProcessingContext =
  pc_transfer :: FileTransfer
  pc_sourcePath :: string
  pc_sizeBytes :: int
  pc_contentType :: "string option"

type_synonym step = "ProcessingContext \<Rightarrow> (world, ProcessingContext) act"

section \<open>The steps\<close>

definition validation_execute :: "pipeline_section \<Rightarrow> step" where
  "validation_execute cfg ctx =
     (if pc_sizeBytes ctx \<le> 0 then throw (NonRetryableError ''File is empty'')
      else if pipeline_maxFileSizeBytes cfg > 0 \<and> pc_sizeBytes ctx > pipeline_maxFileSizeBytes cfg then
        throw (NonRetryableError (''File size '' @ show_int (pc_sizeBytes ctx) @ '' exceeds limit '' @
          show_int (pipeline_maxFileSizeBytes cfg) @ '' bytes''))
      else ret ctx)"

definition quota_execute :: "services \<Rightarrow> quotas_section \<Rightarrow> step" where
  "quota_execute sv cfg ctx =
     seq (assertWithinQuota sv cfg (ft_tenantId (pc_transfer ctx)) (pc_sizeBytes ctx)) (ret ctx)"

definition antivirus_execute :: "services \<Rightarrow> pipeline_section \<Rightarrow> step" where
  "antivirus_execute sv cfg ctx =
     (if \<not> pipeline_avEnabled cfg then ret ctx
      else
        bnd (scanFileWithClamd sv (pc_sourcePath ctx)) (\<lambda>result.
          if \<not> sr_clean result then
            throw (NonRetryableError (''Virus detected: '' @
              (case sr_signature result of None \<Rightarrow> ''unknown'' | Some s \<Rightarrow> s)))
          else ret ctx))"

definition MIME_BY_EXT :: "(string \<times> string) list" where
  "MIME_BY_EXT =
     [(''.csv'', ''text/csv''), (''.txt'', ''text/plain''), (''.json'', ''application/json''),
      (''.xml'', ''application/xml''), (''.pdf'', ''application/pdf''), (''.zip'', ''application/zip''),
      (''.gz'', ''application/gzip''), (''.png'', ''image/png''), (''.jpg'', ''image/jpeg''),
      (''.jpeg'', ''image/jpeg'')]"

definition mime_type :: "string \<Rightarrow> string" where
  "mime_type filename =
     (case map_of MIME_BY_EXT (toLowerCase (extname filename)) of
        None \<Rightarrow> ''application/octet-stream'' | Some m \<Rightarrow> m)"

definition contentType_execute :: "step" where
  "contentType_execute ctx = ret (ctx\<lparr>pc_contentType := Some (mime_type (ft_filename (pc_transfer ctx)))\<rparr>)"

section \<open>The pipeline\<close>

fun pipeline_run :: "step list \<Rightarrow> step" where
  "pipeline_run [] ctx = ret ctx"
| "pipeline_run (s # ss) ctx = bnd (s ctx) (\<lambda>ctx'. pipeline_run ss ctx')"

text \<open>The ordered assembly of \<^verbatim>\<open>ingestion.module.ts\<close>.\<close>

definition PROCESSING_STEPS :: "services \<Rightarrow> app_config \<Rightarrow> step list" where
  "PROCESSING_STEPS sv cfg =
     [validation_execute (cfg_pipeline cfg), quota_execute sv (cfg_quotas cfg),
      antivirus_execute sv (cfg_pipeline cfg), contentType_execute]"

section \<open>The contract of a step\<close>

text \<open>A step leaves the shared state alone and never changes what is uploaded: of the context, only
  the metadata.\<close>

locale processing_step =
  fixes execute :: "step"
  assumes pure_state: "snd (execute ctx w) = w"
    and keeps_file: "fst (execute ctx w) = Done ctx' \<Longrightarrow>
      pc_transfer ctx' = pc_transfer ctx \<and> pc_sourcePath ctx' = pc_sourcePath ctx \<and>
      pc_sizeBytes ctx' = pc_sizeBytes ctx"
begin

lemma execute_pair: "execute ctx w = (fst (execute ctx w), w)"
  using pure_state[of ctx w] by (metis prod.collapse)

lemma execute_frame: "frame f (execute ctx)"
  by (simp add: frame_def pure_state)

lemma then_step:
  assumes "processing_step next_step"
  shows "processing_step (\<lambda>ctx. bnd (execute ctx) next_step)"
proof
  fix ctx w ctx'
  note n = processing_step.pure_state[OF assms] processing_step.keeps_file[OF assms]
  show "snd (bnd (execute ctx) next_step w) = w"
    using n(1) pure_state[of ctx w]
    by (auto simp: bnd_def split: prod.splits outcome.splits)
  assume "fst (bnd (execute ctx) next_step w) = Done ctx'"
  then obtain c where "fst (execute ctx w) = Done c" "fst (next_step c w) = Done ctx'"
    using pure_state[of ctx w] by (auto simp: bnd_def split: prod.splits outcome.splits)
  with keeps_file[of ctx w c] n(2)[of c w ctx']
  show "pc_transfer ctx' = pc_transfer ctx \<and> pc_sourcePath ctx' = pc_sourcePath ctx \<and>
      pc_sizeBytes ctx' = pc_sizeBytes ctx" by auto
qed

end

lemma frame_id_step: "frame (\<lambda>w. w) m \<Longrightarrow> snd (m w) = w"
  by (simp add: frame_def)

interpretation validation: processing_step "validation_execute cfg" for cfg
  by unfold_locales (auto simp: validation_execute_def ret_def throw_def split: if_splits)

interpretation quota: processing_step "quota_execute sv cfg" for sv cfg
proof
  fix ctx w ctx'
  show "snd (quota_execute sv cfg ctx w) = w"
    unfolding quota_execute_def by (rule frame_id_step) (intro eff)
  show "fst (quota_execute sv cfg ctx w) = Done ctx' \<Longrightarrow>
      pc_transfer ctx' = pc_transfer ctx \<and> pc_sourcePath ctx' = pc_sourcePath ctx \<and>
      pc_sizeBytes ctx' = pc_sizeBytes ctx"
    by (auto simp: quota_execute_def seq_def bnd_def ret_def split: prod.splits outcome.splits)
qed

interpretation antivirus: processing_step "antivirus_execute sv cfg" for sv cfg
proof
  fix ctx w ctx'
  show "snd (antivirus_execute sv cfg ctx w) = w"
    unfolding antivirus_execute_def by (rule frame_id_step) (intro eff)
  show "fst (antivirus_execute sv cfg ctx w) = Done ctx' \<Longrightarrow>
      pc_transfer ctx' = pc_transfer ctx \<and> pc_sourcePath ctx' = pc_sourcePath ctx \<and>
      pc_sizeBytes ctx' = pc_sizeBytes ctx"
    by (auto simp: antivirus_execute_def bnd_def ret_def throw_def split: prod.splits outcome.splits if_splits)
qed

interpretation contentType: processing_step contentType_execute
  by unfold_locales (auto simp: contentType_execute_def ret_def)

lemma pipeline_step:
  "(\<And>s. s \<in> set steps \<Longrightarrow> processing_step s) \<Longrightarrow> processing_step (pipeline_run steps)"
proof (induction steps)
  case Nil
  then show ?case by unfold_locales (auto simp: ret_def)
next
  case (Cons s ss)
  have "pipeline_run (s # ss) = (\<lambda>ctx. bnd (s ctx) (pipeline_run ss))" by auto
  then show ?case using Cons by (simp add: processing_step.then_step)
qed

interpretation pipeline: processing_step "pipeline_run (PROCESSING_STEPS sv cfg)" for sv cfg
  by (rule pipeline_step)
    (auto simp: PROCESSING_STEPS_def intro: validation.processing_step_axioms quota.processing_step_axioms
      antivirus.processing_step_axioms contentType.processing_step_axioms)

section \<open>What passes\<close>

definition scan_reply :: "services \<Rightarrow> string \<Rightarrow> string" where
  "scan_reply sv path = trim (sv_clamd sv (scan_sent (sv_chunks sv C_Scan path)))"

text \<open>The policy the steps enforce together.\<close>

definition admitted :: "services \<Rightarrow> app_config \<Rightarrow> ProcessingContext \<Rightarrow> world \<Rightarrow> bool" where
  "admitted sv cfg ctx w \<longleftrightarrow>
     0 < pc_sizeBytes ctx \<and>
     (0 < pipeline_maxFileSizeBytes (cfg_pipeline cfg) \<longrightarrow>
        pc_sizeBytes ctx \<le> pipeline_maxFileSizeBytes (cfg_pipeline cfg)) \<and>
     within_quota (cfg_quotas cfg) (ft_tenantId (pc_transfer ctx))
       (plus_object (usage_of (ft_tenantId (pc_transfer ctx)) w) (pc_sizeBytes ctx)) \<and>
     (pipeline_avEnabled (cfg_pipeline cfg) \<longrightarrow> \<not> str_includes (scan_reply sv (pc_sourcePath ctx)) ''FOUND'')"

lemma antivirus_Done:
  "antivirus_execute sv cfg ctx w = (Done ctx', w') \<longleftrightarrow> ctx' = ctx \<and> w' = w \<and>
     (pipeline_avEnabled cfg \<longrightarrow> sv_fault sv C_Scan = Healthy \<and>
        \<not> str_includes (scan_reply sv (pc_sourcePath ctx)) ''FOUND'' \<and>
        str_includes (scan_reply sv (pc_sourcePath ctx)) ''OK'')"
  by (auto simp: antivirus_execute_def scanFileWithClamd_eq bnd_Done_iff call_Done_iff classify_def
      scan_reply_def Let_def split: sum.splits if_splits)

lemma validation_Done:
  "validation_execute cfg ctx w = (Done ctx', w') \<longleftrightarrow> ctx' = ctx \<and> w' = w \<and> 0 < pc_sizeBytes ctx \<and>
     (0 < pipeline_maxFileSizeBytes cfg \<longrightarrow> pc_sizeBytes ctx \<le> pipeline_maxFileSizeBytes cfg)"
  by (auto simp: validation_execute_def)

lemma quota_Done:
  "quota_execute sv cfg ctx w = (Done ctx', w') \<longleftrightarrow> ctx' = ctx \<and> w' = w \<and> sv_fault sv C_GetUsage = Healthy \<and>
     within_quota cfg (ft_tenantId (pc_transfer ctx))
       (plus_object (usage_of (ft_tenantId (pc_transfer ctx)) w) (pc_sizeBytes ctx))"
  by (auto simp: quota_execute_def seq_Done_iff assertWithinQuota_Done)

text \<open>The outcome of the pipeline, step by step.\<close>

lemma pipeline_Done:
  "pipeline_run (PROCESSING_STEPS sv cfg) ctx w = (Done ctx', w') \<longleftrightarrow>
     admitted sv cfg ctx w \<and> sv_fault sv C_GetUsage = Healthy \<and>
     (pipeline_avEnabled (cfg_pipeline cfg) \<longrightarrow> sv_fault sv C_Scan = Healthy \<and>
        str_includes (scan_reply sv (pc_sourcePath ctx)) ''OK'') \<and>
     w' = w \<and> ctx' = ctx\<lparr>pc_contentType := Some (mime_type (ft_filename (pc_transfer ctx)))\<rparr>"
  by (auto simp: PROCESSING_STEPS_def bnd_Done_iff validation_Done quota_Done antivirus_Done contentType_execute_def
      admitted_def)

section \<open>Properties\<close>

text \<open>C18: The pipeline lets a file through exactly when it is non-empty, within the size limit,
  fits the tenant's quota and, with the antivirus on, clamd was reached and answered OK without
  a finding to the bytes of this file. It then adds the content type and changes nothing else;
  in particular an unreachable scanner never lets a file pass.\<close>

theorem pipeline_admits_exactly:
  "(\<exists>ctx' w'. pipeline_run (PROCESSING_STEPS sv cfg) ctx w = (Done ctx', w')) \<longleftrightarrow>
     admitted sv cfg ctx w \<and> sv_fault sv C_GetUsage = Healthy \<and>
     (pipeline_avEnabled (cfg_pipeline cfg) \<longrightarrow> sv_fault sv C_Scan = Healthy \<and>
        str_includes (scan_reply sv (pc_sourcePath ctx)) ''OK'')"
  by (simp add: pipeline_Done)

definition ctx1 :: ProcessingContext where
  "ctx1 = \<lparr>pc_transfer = transfer1, pc_sourcePath = ''/data/in/q.csv'', pc_sizeBytes = 2, pc_contentType = None\<rparr>"

lemma ctx1_admitted: "admitted sv0 cfg0 ctx1 world0"
  "str_includes (scan_reply sv0 (pc_sourcePath ctx1)) ''OK''"
  by (simp_all add: admitted_def ctx1_def cfg0_def within_quota_def getQuota_def transfer1_def usage_of_def world0_def
      row_find_def scan_reply_def sv0_def trim_def is_space_def startsWith_def)

theorem pipeline_admits_exactly_witness:
  "\<exists>ctx' w'. pipeline_run (PROCESSING_STEPS sv0 cfg0) ctx1 world0 = (Done ctx', w')"
  unfolding pipeline_admits_exactly using ctx1_admitted by (simp add: sv0_def)

text \<open>The errors are classified right: when the database and the scanner can be reached, the
  pipeline fails permanently (a NonRetryableError) exactly when the file violates the policy;
  the only other failure, a reply of clamd it does not know, is left to a retry.\<close>

theorem pipeline_permanent_iff_policy:
  assumes "sv_fault sv C_GetUsage = Healthy" "sv_fault sv C_Scan = Healthy"
    and "fst (pipeline_run (PROCESSING_STEPS sv cfg) ctx w) = Raised e"
  shows "is_NonRetryable e \<longleftrightarrow> \<not> admitted sv cfg ctx w"
  using assms(3)
  by (auto simp: PROCESSING_STEPS_def bnd_def validation_execute_def quota_execute_def seq_def assertWithinQuota_def
      getUsage_def antivirus_execute_def scanFileWithClamd_eq contentType_execute_def call_Healthy assms(1,2)
      gets_def ret_def throw_def classify_def scan_reply_def admitted_def within_quota_def Let_def
      split: if_splits)

theorem pipeline_permanent_iff_policy_witness:
  "is_NonRetryable (NonRetryableError ''File is empty'') \<longleftrightarrow> \<not> admitted sv0 cfg0 (ctx1\<lparr>pc_sizeBytes := 0\<rparr>) world0"
  by (rule pipeline_permanent_iff_policy)
    (simp_all add: sv0_def PROCESSING_STEPS_def validation_execute_def ctx1_def)

end
