(* ===== verification/Base64.thy ===== *)
theory Base64
  imports Prelude "HOL-Library.Word"
begin

text \<open>
  \<^verbatim>\<open>Buffer.toString('base64')\<close> and \<^verbatim>\<open>Buffer.from(s, 'base64')\<close>, which carry the wrapped keys and
  the master key. The decoder reads up to the padding, accepts the URL-safe alphabet too and
  skips every other character, as Node documents it; text after the padding is not read.
\<close>

definition B64 :: string where
  "B64 = ''ABCDEFGHIJKLMNOPQRSTUVWXYZabcdefghijklmnopqrstuvwxyz0123456789+/''"

definition b64_char :: "nat \<Rightarrow> char" where
  "b64_char n = B64 ! n"

definition b64_val :: "char \<Rightarrow> nat option" where
  "b64_val c =
     (if c \<in> set B64 then Some (length (takeWhile (\<lambda>x. x \<noteq> c) B64))
      else if c = CHR ''-'' then Some 62
      else if c = CHR ''_'' then Some 63
      else None)"

text \<open>Bytes as numbers below 256; three bytes are four sextets.\<close>

fun b64_sextets :: "nat list \<Rightarrow> nat list" where
  "b64_sextets [] = []"
| "b64_sextets [a] = [a div 4, a mod 4 * 16]"
| "b64_sextets [a, b] = [a div 4, a mod 4 * 16 + b div 16, b mod 16 * 4]"
| "b64_sextets (a # b # c # bs) =
     [a div 4, a mod 4 * 16 + b div 16, b mod 16 * 4 + c div 64, c mod 64] @ b64_sextets bs"

fun b64_bytes :: "nat list \<Rightarrow> nat list" where
  "b64_bytes (p # q # r # s # ss) =
     [p * 4 + q div 16, q mod 16 * 16 + r div 4, r mod 4 * 64 + s] @ b64_bytes ss"
| "b64_bytes [p, q, r] = [p * 4 + q div 16, q mod 16 * 16 + r div 4]"
| "b64_bytes [p, q] = [p * 4 + q div 16]"
| "b64_bytes _ = []"

definition b64_padding :: "nat \<Rightarrow> string" where
  "b64_padding n = (if n mod 3 = 1 then ''=='' else if n mod 3 = 2 then ''='' else [])"

definition base64_encode :: "8 word list \<Rightarrow> string" where
  "base64_encode bs = map b64_char (b64_sextets (map unat bs)) @ b64_padding (length bs)"

definition base64_decode :: "string \<Rightarrow> 8 word list" where
  "base64_decode s =
     map of_nat (b64_bytes (List.map_filter b64_val (takeWhile (\<lambda>c. c \<noteq> CHR ''='') s)))"

section \<open>The round trip\<close>

lemma length_B64: "length B64 = 64"
  by (simp add: B64_def)

lemma distinct_B64: "distinct B64"
  by (simp add: B64_def)

lemma takeWhile_nth_distinct:
  "distinct xs \<Longrightarrow> n < length xs \<Longrightarrow> length (takeWhile (\<lambda>x. x \<noteq> xs ! n) xs) = n"
proof (induction xs arbitrary: n)
  case (Cons x xs)
  then show ?case by (cases n) auto
qed simp

lemma b64_val_char: "n < 64 \<Longrightarrow> b64_val (b64_char n) = Some n"
  using takeWhile_nth_distinct[OF distinct_B64] by (simp add: b64_val_def b64_char_def length_B64)

lemma pad_not_B64: "CHR ''='' \<notin> set B64"
  by (simp add: B64_def)

lemma b64_char_not_pad: "n < 64 \<Longrightarrow> b64_char n \<noteq> CHR ''=''"
  by (metis b64_char_def length_B64 nth_mem pad_not_B64)

lemma sextet_bounds:
  assumes "\<forall>b\<in>set bs. b < 256"
  shows "\<forall>s\<in>set (b64_sextets bs). s < 64"
  using assms
proof (induction bs rule: b64_sextets.induct)
  case (4 a b c bs)
  have "a mod 4 < 4" "b div 16 < 16" "b mod 16 < 16" "c div 64 < 4" "a div 4 < 64" "c mod 64 < 64"
    using "4.prems" by (auto simp: less_mult_imp_div_less)
  with 4 show ?case by auto
next
  case (3 a b)
  have "a mod 4 < 4" "b div 16 < 16" "b mod 16 < 16" "a div 4 < 64"
    using "3.prems" by (auto simp: less_mult_imp_div_less)
  then show ?case by auto
next
  case (2 a)
  have "a mod 4 < 4" "a div 4 < 64"
    using "2.prems" by (auto simp: less_mult_imp_div_less)
  then show ?case by auto
qed simp

lemma sextet_arith:
  fixes a b c :: nat
  assumes "b < 256" "c < 256"
  shows "a div 4 * 4 + (a mod 4 * 16 + b div 16) div 16 = a"
    and "(a mod 4 * 16 + b div 16) mod 16 * 16 + (b mod 16 * 4 + c div 64) div 4 = b"
    and "(b mod 16 * 4 + c div 64) mod 4 * 64 + c mod 64 = c"
proof -
  have "b div 16 < 16" "c div 64 < 4" using assms by (auto simp: less_mult_imp_div_less)
  then show "a div 4 * 4 + (a mod 4 * 16 + b div 16) div 16 = a"
    and "(a mod 4 * 16 + b div 16) mod 16 * 16 + (b mod 16 * 4 + c div 64) div 4 = b"
    and "(b mod 16 * 4 + c div 64) mod 4 * 64 + c mod 64 = c"
    by simp_all
qed

lemma b64_bytes_sextets:
  assumes "\<forall>b\<in>set bs. b < 256"
  shows "b64_bytes (b64_sextets bs) = bs"
  using assms
proof (induction bs rule: b64_sextets.induct)
  case (4 a b c bs)
  then have "b < 256" "c < 256" by auto
  with sextet_arith(1,2)[of b c a] sextet_arith(3)[of b c] 4 show ?case by simp
next
  case (3 a b)
  then show ?case using sextet_arith(1,2)[of b 0 a] by simp
next
  case (2 a)
  then show ?case using sextet_arith(1)[of 0 0 a] by simp
qed simp_all

lemma base64_decode_encode [simp]: "base64_decode (base64_encode bs) = bs"
proof -
  let ?s = "b64_sextets (map unat bs)"
  have bound: "unat b < 256" for b :: "8 word"
    by (rule order.strict_trans2[OF unsigned_less]) simp
  then have s: "\<forall>s\<in>set ?s. s < 64" by (intro sextet_bounds) auto
  have pad: "takeWhile (\<lambda>c. c \<noteq> CHR ''='') (map b64_char ?s @ b64_padding n) = map b64_char ?s" for n
    using s by (subst takeWhile_append2) (auto simp: b64_char_not_pad b64_padding_def)
  have "List.map_filter b64_val (map b64_char xs) = xs" if "\<forall>x\<in>set xs. x < 64" for xs
    using that by (induction xs) (auto simp: List.map_filter_simps b64_val_char)
  then show ?thesis
    using s bound by (simp add: base64_encode_def base64_decode_def pad b64_bytes_sextets comp_def map_idI)
qed

end
