(* ===== verification/Crypto.thy ===== *)
theory Crypto
  imports Services Config Base64
begin

text \<open>
  \<^verbatim>\<open>crypto/crypto.service.ts\<close>: client-side envelope encryption. AES-256-GCM is the cipher of
  \<^verbatim>\<open>node:crypto\<close>; of it the model keeps what the service relies on: a key stream that depends on
  key, IV and position, which is added to the data, and an authentication tag that depends on
  key, IV and ciphertext. The two \<^verbatim>\<open>Transform\<close> streams are state machines over the chunks they
  are fed, in the order of the source.
\<close>

unbundle bit_operations_syntax

section \<open>Buffers and the cipher object\<close>

definition rel_index :: "nat \<Rightarrow> int \<Rightarrow> nat" where
  "rel_index n i = nat (if i < 0 then max (int n + i) 0 else min i (int n))"

text \<open>\<^verbatim>\<open>buf.subarray(start, end)\<close>: negative indices count from the end.\<close>

definition subarray :: "byte list \<Rightarrow> int \<Rightarrow> int \<Rightarrow> byte list" where
  "subarray bs i j =
     take (rel_index (length bs) j - rel_index (length bs) i) (drop (rel_index (length bs) i) bs)"

fun gcm_xor :: "(nat \<Rightarrow> byte) \<Rightarrow> nat \<Rightarrow> byte list \<Rightarrow> byte list" where
  "gcm_xor ks p [] = []"
| "gcm_xor ks p (b # bs) = (b XOR ks p) # gcm_xor ks (Suc p) bs"

text \<open>A cipher or decipher object: key, IV, the ciphertext seen so far, the expected tag.\<close>

record Gcm =
  g_key :: "byte list"
  g_iv :: "byte list"
  g_text :: "byte list"
  g_tag :: "byte list option"

definition createCipheriv :: "byte list \<Rightarrow> byte list \<Rightarrow> js_error + Gcm" where
  "createCipheriv key iv =
     (if length key \<noteq> 32 then Inl (JsError ''RangeError'' ''Invalid key length'')
      else if iv = [] then Inl (JsError ''TypeError'' ''Invalid initialization vector'')
      else Inr \<lparr>g_key = key, g_iv = iv, g_text = [], g_tag = None\<rparr>)"

definition cipher_update :: "services \<Rightarrow> Gcm \<Rightarrow> byte list \<Rightarrow> byte list \<times> Gcm" where
  "cipher_update sv g chunk =
     (let out = gcm_xor (sv_keystream sv (g_key g) (g_iv g)) (length (g_text g)) chunk
      in (out, g\<lparr>g_text := g_text g @ out\<rparr>))"

definition decipher_update :: "services \<Rightarrow> Gcm \<Rightarrow> byte list \<Rightarrow> byte list \<times> Gcm" where
  "decipher_update sv g chunk =
     (gcm_xor (sv_keystream sv (g_key g) (g_iv g)) (length (g_text g)) chunk,
      g\<lparr>g_text := g_text g @ chunk\<rparr>)"

definition getAuthTag :: "services \<Rightarrow> Gcm \<Rightarrow> byte list" where
  "getAuthTag sv g = sv_tag sv (g_key g) (g_iv g) (g_text g)"

definition setAuthTag :: "byte list \<Rightarrow> Gcm \<Rightarrow> js_error + Gcm" where
  "setAuthTag tag g =
     (if length tag \<in> {4, 8, 12, 13, 14, 15, 16} then Inr (g\<lparr>g_tag := Some tag\<rparr>)
      else Inl (JsError ''TypeError'' (''Invalid authentication tag length: '' @ show_nat (length tag))))"

definition AUTH_ERROR :: js_error where
  "AUTH_ERROR = JsError ''Error'' ''Unsupported state or unable to authenticate data''"

definition decipher_final :: "services \<Rightarrow> Gcm \<Rightarrow> js_error + byte list" where
  "decipher_final sv g =
     (case g_tag g of
        None \<Rightarrow> Inl AUTH_ERROR
      | Some t \<Rightarrow> if take (length t) (getAuthTag sv g) = t then Inr [] else Inl AUTH_ERROR)"

fun rbind :: "js_error + 'a \<Rightarrow> ('a \<Rightarrow> js_error + 'b) \<Rightarrow> js_error + 'b" where
  "rbind (Inl e) k = Inl e"
| "rbind (Inr a) k = k a"

section \<open>CryptoService\<close>

definition IV_LEN :: nat where "IV_LEN = 12"

definition TAG_LEN :: nat where "TAG_LEN = 16"

definition overheadBytes :: int where
  "overheadBytes = int (IV_LEN + TAG_LEN)"

text \<open>The constructor: the master key where the configuration has one, or why it refuses to start.\<close>

record CryptoService =
  cs_enabled :: bool
  cs_kek :: "byte list option"

definition crypto_init :: "EncryptionSection \<Rightarrow> js_error + CryptoService" where
  "crypto_init enc =
     rbind (case enc_kek enc of
              None \<Rightarrow> Inr None
            | Some k \<Rightarrow>
                if k = [] then Inr None
                else if length (base64_decode k) \<noteq> 32
                then Inl (JsError ''Error'' ''ENCRYPTION_KEK must decode to 32 bytes (base64)'')
                else Inr (Some (base64_decode k)))
       (\<lambda>kek. if enc_enabled enc \<and> kek = None
              then Inl (JsError ''Error'' ''ENCRYPTION_ENABLED but ENCRYPTION_KEK is not set'')
              else Inr \<lparr>cs_enabled = enc_enabled enc, cs_kek = kek\<rparr>)"

definition NO_KEK :: js_error where
  "NO_KEK = JsError ''TypeError'' ''The key argument must be of type string or an instance of Buffer''"

definition kek_of :: "CryptoService \<Rightarrow> js_error + byte list" where
  "kek_of cs = (case cs_kek cs of None \<Rightarrow> Inl NO_KEK | Some k \<Rightarrow> Inr k)"

definition wrapDek :: "services \<Rightarrow> CryptoService \<Rightarrow> byte list \<Rightarrow> js_error + string" where
  "wrapDek sv cs dek =
     (let iv = sv_wrapIv sv in
      rbind (kek_of cs) (\<lambda>kek.
      rbind (createCipheriv kek iv) (\<lambda>cipher.
        let (enc, cipher') = cipher_update sv cipher dek
        in Inr (base64_encode (iv @ enc @ getAuthTag sv cipher')))))"

text \<open>The common tail of \<^verbatim>\<open>unwrapDek\<close> and \<^verbatim>\<open>decrypt\<close>: \<^verbatim>\<open>[IV || ciphertext || tag]\<close> under a key.\<close>

definition open_buffer :: "services \<Rightarrow> byte list \<Rightarrow> byte list \<Rightarrow> js_error + byte list" where
  "open_buffer sv key buf =
     (let iv = subarray buf 0 (int IV_LEN);
          tag = subarray buf (int (length buf) - int TAG_LEN) (int (length buf));
          enc = subarray buf (int IV_LEN) (int (length buf) - int TAG_LEN)
      in rbind (createCipheriv key iv) (\<lambda>decipher.
         rbind (setAuthTag tag decipher) (\<lambda>decipher1.
           let (out, decipher2) = decipher_update sv decipher1 enc
           in rbind (decipher_final sv decipher2) (\<lambda>final. Inr (out @ final)))))"

definition unwrapDek :: "services \<Rightarrow> CryptoService \<Rightarrow> string \<Rightarrow> js_error + byte list" where
  "unwrapDek sv cs wrapped =
     (let buf = base64_decode wrapped
      in rbind (kek_of cs) (\<lambda>kek. open_buffer sv kek buf))"

definition decrypt :: "services \<Rightarrow> CryptoService \<Rightarrow> byte list \<Rightarrow> string \<Rightarrow> js_error + byte list" where
  "decrypt sv cs encrypted wrappedDek =
     rbind (unwrapDek sv cs wrappedDek) (\<lambda>dek. open_buffer sv dek encrypted)"

subsection \<open>The encrypting stream\<close>

record EncStream =
  es_iv :: "byte list"
  es_cipher :: Gcm
  es_ivEmitted :: bool

definition enc_transform :: "services \<Rightarrow> EncStream \<Rightarrow> byte list \<Rightarrow> EncStream \<times> byte list" where
  "enc_transform sv st chunk =
     (let pre = (if es_ivEmitted st then [] else es_iv st);
          (out, cipher) = cipher_update sv (es_cipher st) chunk
      in (st\<lparr>es_ivEmitted := True, es_cipher := cipher\<rparr>, pre @ out))"

definition enc_flush :: "services \<Rightarrow> EncStream \<Rightarrow> byte list" where
  "enc_flush sv st =
     (if es_ivEmitted st then [] else es_iv st) @ getAuthTag sv (es_cipher st)"

fun enc_run :: "services \<Rightarrow> EncStream \<Rightarrow> byte list list \<Rightarrow> byte list" where
  "enc_run sv st [] = enc_flush sv st"
| "enc_run sv st (c # cs) = (let (st', out) = enc_transform sv st c in out @ enc_run sv st' cs)"

definition createEncryptStream :: "services \<Rightarrow> CryptoService \<Rightarrow> js_error + (EncStream \<times> string)" where
  "createEncryptStream sv cs =
     (let dek = sv_dek sv; iv = sv_iv sv in
      rbind (createCipheriv dek iv) (\<lambda>cipher.
      rbind (wrapDek sv cs dek) (\<lambda>wrapped.
        Inr (\<lparr>es_iv = iv, es_cipher = cipher, es_ivEmitted = False\<rparr>, wrapped))))"

subsection \<open>The decrypting stream\<close>

record DecStream =
  ds_dek :: "byte list"
  ds_decipher :: "Gcm option"
  ds_buffered :: "byte list"

text \<open>The second half of \<^verbatim>\<open>transform\<close>, once there is a decipher: all but the last bytes are fed.\<close>

definition dec_feed :: "services \<Rightarrow> DecStream \<Rightarrow> Gcm \<Rightarrow> byte list \<Rightarrow> DecStream \<times> byte list" where
  "dec_feed sv st g buffered =
     (if length buffered > TAG_LEN then
        let feed = take (length buffered - TAG_LEN) buffered;
            (out, g') = decipher_update sv g feed
        in (st\<lparr>ds_decipher := Some g', ds_buffered := drop (length buffered - TAG_LEN) buffered\<rparr>, out)
      else (st\<lparr>ds_decipher := Some g, ds_buffered := buffered\<rparr>, []))"

definition dec_transform :: "services \<Rightarrow> DecStream \<Rightarrow> byte list \<Rightarrow> js_error + (DecStream \<times> byte list)" where
  "dec_transform sv st chunk =
     (let buffered = ds_buffered st @ chunk in
      case ds_decipher st of
        Some g \<Rightarrow> Inr (dec_feed sv st g buffered)
      | None \<Rightarrow>
          if length buffered < IV_LEN then Inr (st\<lparr>ds_buffered := buffered\<rparr>, [])
          else rbind (createCipheriv (ds_dek st) (take IV_LEN buffered))
                 (\<lambda>g. Inr (dec_feed sv st g (drop IV_LEN buffered))))"

definition dec_flush :: "services \<Rightarrow> DecStream \<Rightarrow> js_error + byte list" where
  "dec_flush sv st =
     (case ds_decipher st of
        None \<Rightarrow> Inl (JsError ''Error'' ''ciphertext too short'')
      | Some g \<Rightarrow> rbind (setAuthTag (ds_buffered st) g) (decipher_final sv))"

text \<open>A run of the stream: the bytes it emitted and the error that ended it, if one did.\<close>

fun dec_run :: "services \<Rightarrow> DecStream \<Rightarrow> byte list list \<Rightarrow> byte list \<times> js_error option" where
  "dec_run sv st [] = (case dec_flush sv st of Inl e \<Rightarrow> ([], Some e) | Inr out \<Rightarrow> (out, None))"
| "dec_run sv st (c # cs) =
     (case dec_transform sv st c of
        Inl e \<Rightarrow> ([], Some e)
      | Inr (st', out) \<Rightarrow> (let (outs, r) = dec_run sv st' cs in (out @ outs, r)))"

definition createDecryptStream :: "services \<Rightarrow> CryptoService \<Rightarrow> string \<Rightarrow> js_error + DecStream" where
  "createDecryptStream sv cs wrappedDek =
     rbind (unwrapDek sv cs wrappedDek)
       (\<lambda>dek. Inr \<lparr>ds_dek = dek, ds_decipher = None, ds_buffered = []\<rparr>)"

section \<open>Lemmas\<close>

lemma length_gcm_xor [simp]: "length (gcm_xor ks p bs) = length bs"
  by (induction bs arbitrary: p) auto

lemma gcm_xor_append: "gcm_xor ks p (xs @ ys) = gcm_xor ks p xs @ gcm_xor ks (p + length xs) ys"
  by (induction xs arbitrary: p) auto

lemma gcm_xor_involution [simp]: "gcm_xor ks p (gcm_xor ks p bs) = bs"
  by (induction bs arbitrary: p) (auto simp: xor.assoc)

lemma gcm_xor_take_drop:
  "gcm_xor ks p (take n bs) @ gcm_xor ks (p + length (take n bs)) (drop n bs) = gcm_xor ks p bs"
  using gcm_xor_append[of ks p "take n bs" "drop n bs"] by simp

text \<open>The layout \<^verbatim>\<open>[IV || ciphertext || tag]\<close>.\<close>

definition seal :: "services \<Rightarrow> byte list \<Rightarrow> byte list \<Rightarrow> byte list \<Rightarrow> byte list" where
  "seal sv key iv plain =
     (let ct = gcm_xor (sv_keystream sv key iv) 0 plain in iv @ ct @ sv_tag sv key iv ct)"

text \<open>The stream seals its input whatever the chunks are.\<close>

lemma enc_run_general:
  "enc_run sv st cs =
     (let g = es_cipher st;
          ct = gcm_xor (sv_keystream sv (g_key g) (g_iv g)) (length (g_text g)) (concat cs)
      in (if es_ivEmitted st then [] else es_iv st) @ ct @ sv_tag sv (g_key g) (g_iv g) (g_text g @ ct))"
proof (induction cs arbitrary: st)
  case Nil
  then show ?case by (simp add: enc_flush_def getAuthTag_def Let_def)
next
  case (Cons c cs)
  show ?case
    by (simp add: Cons enc_transform_def cipher_update_def gcm_xor_append Let_def)
qed

text \<open>What the service relies on of its random numbers and of the tag: their lengths.\<close>

definition crypto_sizes :: "services \<Rightarrow> bool" where
  "crypto_sizes sv \<longleftrightarrow> length (sv_dek sv) = 32 \<and> length (sv_iv sv) = IV_LEN \<and> length (sv_wrapIv sv) = IV_LEN \<and>
     (\<forall>k i c. length (sv_tag sv k i c) = TAG_LEN)"

lemma createEncryptStream_seal:
  assumes "createEncryptStream sv cs = Inr (st, wrapped)"
  shows "enc_run sv st chunks = seal sv (sv_dek sv) (sv_iv sv) (concat chunks)"
    and "wrapDek sv cs (sv_dek sv) = Inr wrapped"
proof -
  obtain g where g: "createCipheriv (sv_dek sv) (sv_iv sv) = Inr g"
    using assms by (cases "createCipheriv (sv_dek sv) (sv_iv sv)") (auto simp: createEncryptStream_def Let_def)
  then have "wrapDek sv cs (sv_dek sv) = Inr wrapped \<and> st = \<lparr>es_iv = sv_iv sv, es_cipher = g, es_ivEmitted = False\<rparr>"
    using assms by (cases "wrapDek sv cs (sv_dek sv)") (auto simp: createEncryptStream_def Let_def)
  with g show "enc_run sv st chunks = seal sv (sv_dek sv) (sv_iv sv) (concat chunks)"
    and "wrapDek sv cs (sv_dek sv) = Inr wrapped"
    by (auto simp: enc_run_general seal_def createCipheriv_def Let_def split: if_splits)
qed

subsection \<open>Opening a buffer\<close>

lemma subarray_parts:
  assumes "IV_LEN + TAG_LEN \<le> length buf"
  shows "subarray buf 0 (int IV_LEN) = take IV_LEN buf"
    and "subarray buf (int (length buf) - int TAG_LEN) (int (length buf)) = drop (length buf - TAG_LEN) buf"
    and "subarray buf (int IV_LEN) (int (length buf) - int TAG_LEN) =
      take (length buf - (IV_LEN + TAG_LEN)) (drop IV_LEN buf)"
  using assms by (simp_all add: subarray_def rel_index_def IV_LEN_def TAG_LEN_def nat_diff_distrib')

definition authentic :: "services \<Rightarrow> byte list \<Rightarrow> byte list \<Rightarrow> bool" where
  "authentic sv key buf \<longleftrightarrow>
     sv_tag sv key (take IV_LEN buf) (take (length buf - (IV_LEN + TAG_LEN)) (drop IV_LEN buf)) =
     drop (length buf - TAG_LEN) buf"

abbreviation opened :: "services \<Rightarrow> byte list \<Rightarrow> byte list \<Rightarrow> byte list" where
  "opened sv key buf \<equiv> gcm_xor (sv_keystream sv key (take IV_LEN buf)) 0
     (take (length buf - (IV_LEN + TAG_LEN)) (drop IV_LEN buf))"

lemma open_buffer_eq:
  assumes "IV_LEN + TAG_LEN \<le> length buf" "length key = 32" "\<And>k i c. length (sv_tag sv k i c) = TAG_LEN"
  shows "open_buffer sv key buf = (if authentic sv key buf then Inr (opened sv key buf) else Inl AUTH_ERROR)"
proof -
  have "take IV_LEN buf \<noteq> []" "length (drop (length buf - TAG_LEN) buf) = TAG_LEN" "TAG_LEN = 16"
    using assms(1) by (auto simp: IV_LEN_def TAG_LEN_def)
  moreover have "length (sv_tag sv k i c) = 16" for k i c
    using assms(3)[of k i c] by (simp add: TAG_LEN_def)
  ultimately show ?thesis
    using assms(2)
    by (simp add: open_buffer_def subarray_parts[OF assms(1)] createCipheriv_def setAuthTag_def decipher_update_def
        decipher_final_def getAuthTag_def authentic_def Let_def)
qed

lemma seal_parts:
  assumes "length iv = IV_LEN" "\<And>k i c. length (sv_tag sv k i c) = TAG_LEN"
  shows "take IV_LEN (seal sv key iv p) = iv"
    and "take (length (seal sv key iv p) - (IV_LEN + TAG_LEN)) (drop IV_LEN (seal sv key iv p)) =
      gcm_xor (sv_keystream sv key iv) 0 p"
    and "drop (length (seal sv key iv p) - TAG_LEN) (seal sv key iv p) =
      sv_tag sv key iv (gcm_xor (sv_keystream sv key iv) 0 p)"
    and "IV_LEN + TAG_LEN \<le> length (seal sv key iv p)"
  using assms by (simp_all add: seal_def Let_def)

lemma open_seal:
  assumes "length key = 32" "length iv = IV_LEN" "\<And>k i c. length (sv_tag sv k i c) = TAG_LEN"
  shows "open_buffer sv key (seal sv key iv p) = Inr p"
  using open_buffer_eq[of "seal sv key iv p" key sv] seal_parts[of iv sv key p] assms
  by (simp add: authentic_def)

lemma unwrap_wrap:
  assumes "crypto_sizes sv" "length kek = 32" "cs_kek cs = Some kek" "wrapDek sv cs dek = Inr wrapped"
  shows "unwrapDek sv cs wrapped = Inr dek"
proof -
  have iv: "length (sv_wrapIv sv) = IV_LEN" "\<And>k i c. length (sv_tag sv k i c) = TAG_LEN"
    using assms(1) by (auto simp: crypto_sizes_def)
  then have "sv_wrapIv sv \<noteq> []" by (auto simp: IV_LEN_def)
  then have "wrapped = base64_encode (seal sv kek (sv_wrapIv sv) dek)"
    using assms(2-4)
    by (auto simp: wrapDek_def kek_of_def createCipheriv_def cipher_update_def getAuthTag_def seal_def Let_def)
  then show ?thesis
    using open_seal[OF assms(2) iv] assms(3) by (simp add: unwrapDek_def kek_of_def)
qed

subsection \<open>The decrypting stream\<close>

text \<open>The state of the stream after it was fed \<open>t\<close>, and what it has emitted.\<close>

definition dec_state :: "byte list \<Rightarrow> byte list \<Rightarrow> DecStream" where
  "dec_state dek t =
     (if length t < IV_LEN then \<lparr>ds_dek = dek, ds_decipher = None, ds_buffered = t\<rparr>
      else \<lparr>ds_dek = dek,
            ds_decipher = Some \<lparr>g_key = dek, g_iv = take IV_LEN t,
              g_text = take (length t - (IV_LEN + TAG_LEN)) (drop IV_LEN t), g_tag = None\<rparr>,
            ds_buffered = drop (length t - (IV_LEN + TAG_LEN)) (drop IV_LEN t)\<rparr>)"

definition dec_out :: "services \<Rightarrow> byte list \<Rightarrow> byte list \<Rightarrow> byte list" where
  "dec_out sv dek t = (if length t < IV_LEN then [] else opened sv dek t)"

lemma dec_feed_state:
  assumes "IV_LEN \<le> length t" "m \<le> length t - (IV_LEN + TAG_LEN)"
  shows "dec_feed sv st \<lparr>g_key = dek, g_iv = take IV_LEN t, g_text = take m (drop IV_LEN t), g_tag = None\<rparr>
           (drop m (drop IV_LEN t)) =
    (st\<lparr>ds_decipher := ds_decipher (dec_state dek t), ds_buffered := ds_buffered (dec_state dek t)\<rparr>,
     gcm_xor (sv_keystream sv dek (take IV_LEN t)) (length (take m (drop IV_LEN t)))
       (drop m (take (length t - (IV_LEN + TAG_LEN)) (drop IV_LEN t))))"
proof (cases "TAG_LEN < length (drop m (drop IV_LEN t))")
  case True
  let ?n = "length t - (IV_LEN + TAG_LEN)"
  have len: "length (drop m (drop IV_LEN t)) - TAG_LEN = ?n - m" using assms by auto
  have "take m (drop IV_LEN t) @ take (?n - m) (drop m (drop IV_LEN t)) = take ?n (drop IV_LEN t)"
    using assms(2) by (metis le_add_diff_inverse take_add)
  moreover have "drop (?n - m) (drop m (drop IV_LEN t)) = drop ?n (drop IV_LEN t)"
    using assms(2) by (metis drop_drop le_add_diff_inverse2)
  moreover have "take (?n - m) (drop m (drop IV_LEN t)) = drop m (take ?n (drop IV_LEN t))"
    by (simp add: drop_take)
  ultimately show ?thesis
    using True assms(1) unfolding dec_feed_def len
    by (simp add: decipher_update_def dec_state_def Let_def del: drop_drop)
next
  case False
  then have "m = length t - (IV_LEN + TAG_LEN)" using assms by auto
  with False assms(1) show ?thesis
    unfolding dec_feed_def by (simp add: dec_state_def)
qed

lemma dec_transform_state:
  assumes "length dek = 32"
  shows "\<exists>o'. dec_transform sv (dec_state dek t) c = Inr (dec_state dek (t @ c), o') \<and>
    dec_out sv dek (t @ c) = dec_out sv dek t @ o'"
proof (cases "length (t @ c) < IV_LEN")
  case True
  then show ?thesis by (simp add: dec_transform_def dec_state_def dec_out_def)
next
  case long: False
  define u where "u = t @ c"
  have u: "IV_LEN \<le> length u" using long by (simp add: u_def)
  show ?thesis
  proof (cases "length t < IV_LEN")
    case True
    have "take IV_LEN u \<noteq> []" using u by (auto simp: IV_LEN_def)
    then have "dec_transform sv (dec_state dek t) c =
        Inr (dec_feed sv (dec_state dek t) \<lparr>g_key = dek, g_iv = take IV_LEN u, g_text = take 0 (drop IV_LEN u), g_tag = None\<rparr>
          (drop 0 (drop IV_LEN u)))"
      using True u assms by (simp add: dec_transform_def dec_state_def createCipheriv_def Let_def u_def[symmetric])
    then show ?thesis
      using u True unfolding dec_feed_state[OF u le0] u_def[symmetric]
      by (simp add: dec_state_def dec_out_def)
  next
    case False
    let ?m = "length t - (IV_LEN + TAG_LEN)"
    have iv: "take IV_LEN u = take IV_LEN t" and tx: "take ?m (drop IV_LEN u) = take ?m (drop IV_LEN t)"
      and bf: "drop ?m (drop IV_LEN t) @ c = drop ?m (drop IV_LEN u)"
      using False by (simp_all add: u_def)
    have "dec_transform sv (dec_state dek t) c =
        Inr (dec_feed sv (dec_state dek t) \<lparr>g_key = dek, g_iv = take IV_LEN u, g_text = take ?m (drop IV_LEN u), g_tag = None\<rparr>
          (drop ?m (drop IV_LEN u)))"
      using False unfolding dec_transform_def Let_def iv tx bf[symmetric] by (simp add: dec_state_def)
    moreover have m: "?m \<le> length u - (IV_LEN + TAG_LEN)" by (simp add: u_def)
    moreover have "opened sv dek t @ gcm_xor (sv_keystream sv dek (take IV_LEN u)) (length (take ?m (drop IV_LEN u)))
        (drop ?m (take (length u - (IV_LEN + TAG_LEN)) (drop IV_LEN u))) = opened sv dek u"
      using gcm_xor_take_drop[of "sv_keystream sv dek (take IV_LEN u)" 0 ?m "take (length u - (IV_LEN + TAG_LEN)) (drop IV_LEN u)"]
        m by (simp add: iv tx min_absorb1 del: drop_drop)
    ultimately show ?thesis
      using u False unfolding dec_feed_state[OF u m] u_def[symmetric]
      by (simp add: dec_state_def dec_out_def del: drop_drop)
  qed
qed

lemma dec_run_state:
  assumes "length dek = 32"
  shows "dec_run sv (dec_state dek t) cs =
    (case dec_flush sv (dec_state dek (t @ concat cs)) of
       Inl e \<Rightarrow> (drop (length (dec_out sv dek t)) (dec_out sv dek (t @ concat cs)), Some e)
     | Inr out \<Rightarrow> (drop (length (dec_out sv dek t)) (dec_out sv dek (t @ concat cs)) @ out, None))"
proof (induction cs arbitrary: t)
  case Nil
  then show ?case by (simp split: sum.splits)
next
  case (Cons c cs)
  obtain o' where o': "dec_transform sv (dec_state dek t) c = Inr (dec_state dek (t @ c), o')"
    "dec_out sv dek (t @ c) = dec_out sv dek t @ o'"
    using dec_transform_state[OF assms, of sv t c] by blast
  have pre: "\<exists>r. dec_out sv dek (s @ u) = dec_out sv dek s @ r" for s u
    using dec_transform_state[OF assms, of sv s u] by blast
  obtain r where r: "dec_out sv dek ((t @ c) @ concat cs) = dec_out sv dek (t @ c) @ r"
    using pre by blast
  show ?case
    using r o'(2) by (simp add: o'(1) Cons split: sum.splits)
qed

lemma dec_flush_full:
  assumes "IV_LEN + TAG_LEN \<le> length buf" "\<And>k i c. length (sv_tag sv k i c) = TAG_LEN"
  shows "dec_flush sv (dec_state dek buf) = (if authentic sv dek buf then Inr [] else Inl AUTH_ERROR)"
proof -
  have "drop (length buf - (IV_LEN + TAG_LEN)) (drop IV_LEN buf) = drop (length buf - TAG_LEN) buf"
    using assms(1) by (simp add: add.commute)
  moreover have "length (sv_tag sv k i c) = 16" for k i c using assms(2)[of k i c] by (simp add: TAG_LEN_def)
  moreover have "length (drop (length buf - TAG_LEN) buf) = 16" using assms(1) by (simp add: TAG_LEN_def)
  ultimately show ?thesis
    using assms(1) unfolding dec_flush_def
    by (simp add: dec_state_def setAuthTag_def decipher_final_def getAuthTag_def authentic_def del: drop_drop)
qed

text \<open>The stream and the buffer decryption agree, whatever the chunks are.\<close>

lemma dec_stream_open:
  assumes "length dek = 32" "IV_LEN + TAG_LEN \<le> length (concat cs)" "\<And>k i c. length (sv_tag sv k i c) = TAG_LEN"
  shows "dec_run sv \<lparr>ds_dek = dek, ds_decipher = None, ds_buffered = []\<rparr> cs =
    (opened sv dek (concat cs), if authentic sv dek (concat cs) then None else Some AUTH_ERROR)"
proof -
  have "\<lparr>ds_dek = dek, ds_decipher = None, ds_buffered = []\<rparr> = dec_state dek []"
    by (simp add: dec_state_def IV_LEN_def)
  moreover have "dec_out sv dek [] = []" by (simp add: dec_out_def IV_LEN_def)
  moreover have "dec_out sv dek (concat cs) = opened sv dek (concat cs)"
    using assms(2) by (simp add: dec_out_def)
  ultimately show ?thesis
    using dec_run_state[OF assms(1), of sv "[]" cs] dec_flush_full[OF assms(2,3), of dek] by simp
qed

text \<open>Decryption uses the cipher of the services and nothing else of them.\<close>

lemma decrypt_services:
  assumes "sv_keystream sv' = sv_keystream sv" "sv_tag sv' = sv_tag sv"
  shows "createDecryptStream sv' = createDecryptStream sv" and "dec_run sv' = dec_run sv"
proof -
  have dec: "decipher_update sv' = decipher_update sv" "decipher_final sv' = decipher_final sv"
    unfolding decipher_update_def decipher_final_def getAuthTag_def assms by (rule refl)+
  then show "createDecryptStream sv' = createDecryptStream sv"
    unfolding createDecryptStream_def unwrapDek_def open_buffer_def by simp
  have step: "dec_transform sv' = dec_transform sv" "dec_flush sv' = dec_flush sv"
    unfolding dec_transform_def dec_feed_def dec_flush_def dec by (rule refl)+
  have "dec_run sv' st cs = dec_run sv st cs" for st cs
    by (induction cs arbitrary: st) (simp_all add: step split: sum.split prod.split)
  then show "dec_run sv' = dec_run sv" by (simp add: fun_eq_iff)
qed

lemma envelope_opens:
  assumes "crypto_sizes sv" "cs_kek cs = Some kek" "length kek = 32"
    and "createEncryptStream sv cs = Inr (st, wrapped)" "concat stored = enc_run sv st chunks"
  shows "\<exists>ds. createDecryptStream sv cs wrapped = Inr ds \<and> dec_run sv ds stored = (concat chunks, None)"
proof -
  note sizes = assms(1)[unfolded crypto_sizes_def]
  have tag: "\<And>k i c. length (sv_tag sv k i c) = TAG_LEN" and iv: "length (sv_iv sv) = IV_LEN"
    and dek: "length (sv_dek sv) = 32" using sizes by auto
  have sealed: "concat stored = seal sv (sv_dek sv) (sv_iv sv) (concat chunks)"
    using createEncryptStream_seal(1)[OF assms(4)] assms(5) by simp
  have "unwrapDek sv cs wrapped = Inr (sv_dek sv)"
    using unwrap_wrap[OF assms(1,3,2) createEncryptStream_seal(2)[OF assms(4)]] .
  moreover have "dec_run sv \<lparr>ds_dek = sv_dek sv, ds_decipher = None, ds_buffered = []\<rparr> stored = (concat chunks, None)"
    using dec_stream_open[OF dek _ tag, of stored] seal_parts[OF iv tag, of "sv_dek sv" "concat chunks"]
    by (simp add: sealed authentic_def)
  ultimately show ?thesis by (simp add: createDecryptStream_def)
qed

section \<open>Properties\<close>

text \<open>C16: Envelope encryption round trip: whatever chunks the plaintext is read in and whatever
  chunks the stored object is read back in, the decrypting stream opened with the wrapped key
  that the encryption produced emits the plaintext and ends without an error. (The hypotheses
  are the lengths of the random keys and of the GCM tag and a master key of 32 bytes.)\<close>

theorem envelope_roundtrip:
  assumes "crypto_sizes sv" "cs_kek cs = Some kek" "length kek = 32"
    and "createEncryptStream sv cs = Inr (st, wrapped)"
    and "concat stored = enc_run sv st chunks"
  shows "\<exists>ds. createDecryptStream sv cs wrapped = Inr ds \<and> dec_run sv ds stored = (concat chunks, None)"
  using assms by (rule envelope_opens)

definition cs1 :: CryptoService where
  "cs1 = \<lparr>cs_enabled = True, cs_kek = Some (replicate 32 5)\<rparr>"

lemma crypto_sizes_sv0: "crypto_sizes sv0"
  by (simp add: crypto_sizes_def sv0_def IV_LEN_def TAG_LEN_def)

lemma create_sv0: "\<exists>st wrapped. createEncryptStream sv0 cs1 = Inr (st, wrapped)"
  by (simp add: createEncryptStream_def createCipheriv_def sv0_def wrapDek_def kek_of_def cs1_def cipher_update_def Let_def)

theorem envelope_roundtrip_witness:
  "\<exists>st wrapped ds. createEncryptStream sv0 cs1 = Inr (st, wrapped) \<and>
     createDecryptStream sv0 cs1 wrapped = Inr ds \<and>
     dec_run sv0 ds (map (\<lambda>b. [b]) (enc_run sv0 st [[1, 2], [], [3]])) = ([1, 2, 3], None)"
proof -
  obtain st wrapped where e: "createEncryptStream sv0 cs1 = Inr (st, wrapped)" using create_sv0 by blast
  have "cs_kek cs1 = Some (replicate 32 5)" by (simp add: cs1_def)
  from envelope_roundtrip[OF crypto_sizes_sv0 this _ e, of "map (\<lambda>b. [b]) (enc_run sv0 st [[1, 2], [], [3]])"
      "[[1, 2], [], [3]]"] e
  show ?thesis by auto
qed



text \<open>The service starts exactly with a usable master key, and then every encryption can start.\<close>

lemma crypto_starts_with_usable_key:
  assumes "crypto_init enc = Inr cs" "crypto_sizes sv"
  shows "(cs_enabled cs \<longrightarrow> cs_kek cs \<noteq> None) \<and> (\<forall>k. cs_kek cs = Some k \<longrightarrow> length k = 32) \<and>
    (cs_enabled cs \<longrightarrow> (\<exists>st wrapped. createEncryptStream sv cs = Inr (st, wrapped)))"
proof -
  have init: "cs_enabled cs \<longrightarrow> cs_kek cs \<noteq> None" "\<forall>k. cs_kek cs = Some k \<longrightarrow> length k = 32"
    using assms(1) by (auto simp: crypto_init_def split: option.splits if_splits)
  have "\<exists>st wrapped. createEncryptStream sv cs = Inr (st, wrapped)" if "cs_enabled cs"
  proof -
    obtain k where "cs_kek cs = Some k" "length k = 32" using init \<open>cs_enabled cs\<close> by (cases "cs_kek cs") auto
    then show ?thesis
      using assms(2)
      by (auto simp: createEncryptStream_def createCipheriv_def wrapDek_def kek_of_def cipher_update_def crypto_sizes_def
          IV_LEN_def Let_def)
  qed
  with init show ?thesis by blast
qed

end
