(* ===== verification/Storage.thy ===== *)
theory Storage
  imports Services Config
begin

text \<open>
  \<^verbatim>\<open>storage/storage.service.ts\<close>: the facade over the S3 client. The object store is the part
  \<^term>\<open>w_objects\<close>, \<^term>\<open>w_buckets\<close> of the state; the commands the service sends have their
  documented effect: HEAD and GET of what is not there answer 404, a PUT into a bucket that does
  not exist is refused, and so is a PUT whose body has not the announced length.
\<close>

section \<open>The commands of the S3 client\<close>

definition head_bucket :: "string \<Rightarrow> (world, unit) act" where
  "head_bucket b = (\<lambda>w. if b \<in> set (w_buckets w) then (Done (), w)
     else (Raised (S3Error ''NotFound'' (Some 404) ''UnknownError''), w))"

definition create_bucket :: "string \<Rightarrow> (world, unit) act" where
  "create_bucket b = modify (\<lambda>w. w\<lparr>w_buckets := (if b \<in> set (w_buckets w) then w_buckets w else w_buckets w @ [b])\<rparr>)"

definition NoSuchBucket :: js_error where
  "NoSuchBucket = S3Error ''NoSuchBucket'' (Some 404) ''The specified bucket does not exist''"

definition put_object :: "string \<Rightarrow> string \<Rightarrow> byte list \<Rightarrow> string option \<Rightarrow> int option \<Rightarrow> (world, unit) act" where
  "put_object b key body contentType len = (\<lambda>w.
     if b \<notin> set (w_buckets w) then (Raised NoSuchBucket, w)
     else if len \<noteq> None \<and> len \<noteq> Some (int (length body)) then
       (Raised (S3Error ''IncompleteBody'' (Some 400) ''The body does not have the announced length''), w)
     else (Done (), w\<lparr>w_objects := (w_objects w)((b, key) \<mapsto> \<lparr>so_body = body, so_contentType = contentType\<rparr>)\<rparr>))"

definition get_object :: "string \<Rightarrow> string \<Rightarrow> (world, StoredObject) act" where
  "get_object b key = (\<lambda>w.
     if b \<notin> set (w_buckets w) then (Raised NoSuchBucket, w)
     else case w_objects w (b, key) of
            None \<Rightarrow> (Raised (S3Error ''NoSuchKey'' (Some 404) ''The specified key does not exist.''), w)
          | Some obj \<Rightarrow> (Done obj, w))"

definition head_object :: "string \<Rightarrow> string \<Rightarrow> (world, unit) act" where
  "head_object b key = (\<lambda>w. if b \<in> set (w_buckets w) \<and> w_objects w (b, key) \<noteq> None then (Done (), w)
     else (Raised (S3Error ''NotFound'' (Some 404) ''UnknownError''), w))"

section \<open>StorageService\<close>

record UploadResult =
  ur_bucket :: string
  ur_key :: string
  ur_etag :: "string option"

record UploadParams =
  up_key :: string
  up_body :: "byte list"
  up_contentLength :: "int option"
  up_contentType :: "string option"
  up_bucket :: "string option"

definition normalizeEtag :: "string option \<Rightarrow> string option" where
  "normalizeEtag etag = map_option (filter (\<lambda>c. c \<noteq> CHR 0x22)) etag"

fun isNotFound :: "js_error \<Rightarrow> bool" where
  "isNotFound (S3Error n s m) = (n = ''NotFound'' \<or> s = Some 404)"
| "isNotFound e = (err_name e = ''NotFound'')"

definition ensureBucket :: "services \<Rightarrow> string \<Rightarrow> (world, unit) act" where
  "ensureBucket sv bucket =
     try_catch (call sv C_HeadBucket (head_bucket bucket))
       (\<lambda>err. if isNotFound err then call sv C_CreateBucket (create_bucket bucket) else throw err)"

definition uploadStream :: "services \<Rightarrow> s3_section \<Rightarrow> UploadParams \<Rightarrow> (world, UploadResult) act" where
  "uploadStream sv cfg params =
     (let size = (case up_contentLength params of None \<Rightarrow> 0 | Some n \<Rightarrow> n);
          bucket = (case up_bucket params of None \<Rightarrow> s3_bucket cfg | Some b \<Rightarrow> b)
      in seq (if bucket \<noteq> s3_bucket cfg then ensureBucket sv bucket else ret ())
          (if size > 0 \<and> size \<le> s3_uploadPartSizeBytes cfg then
             seq (call sv C_Upload (put_object bucket (up_key params) (up_body params) (up_contentType params) (Some size)))
               (ret \<lparr>ur_bucket = bucket, ur_key = up_key params,
                     ur_etag = normalizeEtag (sv_etag sv False (up_body params))\<rparr>)
           else
             seq (call sv C_Upload (put_object bucket (up_key params) (up_body params) (up_contentType params) None))
               (ret \<lparr>ur_bucket = bucket, ur_key = up_key params,
                     ur_etag = normalizeEtag (sv_etag sv True (up_body params))\<rparr>)))"

definition getObject :: "services \<Rightarrow> string \<Rightarrow> string \<Rightarrow> (world, byte list \<times> string option) act" where
  "getObject sv bucket key =
     bnd (call sv C_GetObject (get_object bucket key)) (\<lambda>obj. ret (so_body obj, so_contentType obj))"

definition objectExists :: "services \<Rightarrow> s3_section \<Rightarrow> string \<Rightarrow> (world, bool) act" where
  "objectExists sv cfg key =
     try_catch (seq (call sv C_HeadObject (head_object (s3_bucket cfg) key)) (ret True))
       (\<lambda>err. if isNotFound err then ret False else throw err)"

definition checkBucket :: "services \<Rightarrow> s3_section \<Rightarrow> (world, unit) act" where
  "checkBucket sv cfg = call sv C_HeadBucket (head_bucket (s3_bucket cfg))"

section \<open>Lemmas\<close>

text \<open>The storage commands only touch the object store: a frame rule for any other part.\<close>

abbreviation target_bucket :: "s3_section \<Rightarrow> UploadParams \<Rightarrow> string" where
  "target_bucket cfg params \<equiv> (case up_bucket params of None \<Rightarrow> s3_bucket cfg | Some b \<Rightarrow> b)"

lemma frame_upload:
  assumes "\<And>w x. f (w\<lparr>w_buckets := x\<rparr>) = f w"
    and "\<And>w x. f (w\<lparr>w_objects := (w_objects w)((target_bucket cfg params, up_key params) := x)\<rparr>) = f w"
  shows "frame f (uploadStream sv cfg params)"
proof -
  have "frame f (head_bucket b)" "frame f (create_bucket b)"
    "frame f (put_object (target_bucket cfg params) (up_key params) body ct len)" for b body ct len
    using assms by (auto simp: frame_def head_bucket_def create_bucket_def put_object_def modify_def)
  note prim = this
  show ?thesis unfolding uploadStream_def ensureBucket_def Let_def by (intro eff prim)
qed

lemma frame_getObject [eff]: "frame f (getObject sv b k)"
proof -
  have "frame f (get_object b k)" by (auto simp: frame_def get_object_def split: option.splits)
  then show ?thesis unfolding getObject_def by (intro eff)
qed

lemma put_object_Done:
  "put_object b k body ct len w = (Done u, w') \<longleftrightarrow> b \<in> set (w_buckets w) \<and>
     (len = None \<or> len = Some (int (length body))) \<and>
     w' = w\<lparr>w_objects := (w_objects w)((b, k) \<mapsto> \<lparr>so_body = body, so_contentType = ct\<rparr>)\<rparr>"
  by (auto simp: put_object_def)

lemma ensureBucket_Done:
  "ensureBucket sv b w = (Done u, w') \<Longrightarrow> w' = w \<and> b \<in> set (w_buckets w) \<or> w' = snd (create_bucket b w)"
  by (auto simp: ensureBucket_def try_catch_Done_iff call_Done_iff head_bucket_def call_def await_def
      split: if_splits fault.splits)

lemma ensureBucket_objects:
  assumes "ensureBucket sv b w = (Done u, w')"
  shows "w_objects w' = w_objects w" and "b \<in> set (w_buckets w')"
  using ensureBucket_Done[OF assms] by (auto simp: create_bucket_def modify_def)

text \<open>What a successful upload leaves.\<close>

lemma uploadStream_Done:
  assumes "uploadStream sv cfg params w = (Done r, w')"
  shows "ur_bucket r = target_bucket cfg params \<and> ur_key r = up_key params \<and>
    (\<exists>multi. ur_etag r = normalizeEtag (sv_etag sv multi (up_body params)) \<and>
       (\<not> multi \<longrightarrow> up_contentLength params = Some (int (length (up_body params))))) \<and>
    target_bucket cfg params \<in> set (w_buckets w') \<and>
    w_objects w' = (w_objects w)((target_bucket cfg params, up_key params) \<mapsto>
        \<lparr>so_body = up_body params, so_contentType = up_contentType params\<rparr>)"
proof -
  let ?b = "target_bucket cfg params"
  obtain w1 where pre: "(if ?b \<noteq> s3_bucket cfg then ensureBucket sv ?b else ret ()) w = (Done (), w1)"
    and up: "\<exists>multi len. put_object ?b (up_key params) (up_body params) (up_contentType params) len w1 = (Done (), w') \<and>
      r = \<lparr>ur_bucket = ?b, ur_key = up_key params, ur_etag = normalizeEtag (sv_etag sv multi (up_body params))\<rparr> \<and>
      (\<not> multi \<longrightarrow> len = up_contentLength params \<and> len \<noteq> None)"
    using assms unfolding uploadStream_def Let_def
    by (auto simp: seq_Done_iff call_Done_iff split: if_splits option.splits)
  have "w_objects w1 = w_objects w"
    using pre by (auto split: if_splits dest: ensureBucket_objects)
  then show ?thesis using up by (auto simp: put_object_Done)
qed

section \<open>Properties\<close>

text \<open>Store and fetch: after a successful upload, fetching the bucket and key of the result gives
  back exactly the uploaded bytes and content type, and every other object is as it was, also
  when the destination bucket had to be created first.\<close>

theorem upload_then_get:
  assumes "uploadStream sv cfg params w = (Done r, w')" "sv_fault sv' C_GetObject = Healthy"
  shows "getObject sv' (ur_bucket r) (ur_key r) w' = (Done (up_body params, up_contentType params), w') \<and>
    (\<forall>x. x = (ur_bucket r, ur_key r) \<or> w_objects w' x = w_objects w x)"
  using uploadStream_Done[OF assms(1)] assms(2)
  by (auto simp: getObject_def call_Healthy get_object_def bnd_def ret_def)

definition params1 :: UploadParams where
  "params1 = \<lparr>up_key = ''alice/a'', up_body = [1, 2], up_contentLength = Some 2, up_contentType = Some ''text/plain'',
     up_bucket = Some ''reports''\<rparr>"

theorem upload_then_get_witness:
  "\<exists>r w'. uploadStream sv0 (cfg_s3 cfg0) params1 world0 = (Done r, w') \<and>
     getObject sv0 (ur_bucket r) (ur_key r) w' = (Done ([1, 2], Some ''text/plain''), w')"
proof -
  have "\<exists>r w'. uploadStream sv0 (cfg_s3 cfg0) params1 world0 = (Done r, w')"
    by (simp add: uploadStream_def params1_def cfg0_def ensureBucket_def head_bucket_def create_bucket_def put_object_def
        act_defs world0_def Let_def)
  then obtain r w' where run: "uploadStream sv0 (cfg_s3 cfg0) params1 world0 = (Done r, w')" by blast
  from upload_then_get[OF run, of sv0] run show ?thesis by (auto simp: params1_def sv0_def)
qed

text \<open>An existence check answers whether the key is in the configured bucket, and reports every other
  error of the store.\<close>

lemma objectExists_truthful:
  "objectExists sv cfg key w =
     (case sv_fault sv C_HeadObject of
        Healthy \<Rightarrow> (Done (s3_bucket cfg \<in> set (w_buckets w) \<and> w_objects w (s3_bucket cfg, key) \<noteq> None), w)
      | CrashBefore \<Rightarrow> (Crashed, w) | CrashAfter \<Rightarrow> (Crashed, w)
      | FailBefore e \<Rightarrow> (if isNotFound e then Done False else Raised e, w)
      | FailAfter e \<Rightarrow> (if isNotFound e then Done False else Raised e, w))"
  by (auto simp: objectExists_def call_def act_defs head_object_def split: fault.splits)

end
