(* ===== verification/Telemetry.thy ===== *)
theory Telemetry
  imports Data_Model
begin

text \<open>
  \<^verbatim>\<open>metrics/metrics.service.ts\<close>: the facade over the counters, as updates of the metrics in the
  state. \<open>endTimer\<close> is the function that \<^verbatim>\<open>startTimer\<close> returns: one more observation of the
  duration histogram.
\<close>

definition upd_metrics :: "(Metrics \<Rightarrow> Metrics) \<Rightarrow> world \<Rightarrow> world" where
  "upd_metrics f w = w\<lparr>w_metrics := f (w_metrics w)\<rparr>"

definition endTimer :: "world \<Rightarrow> world" where
  "endTimer = upd_metrics (\<lambda>m. m\<lparr>m_durations := m_durations m + 1\<rparr>)"

definition incInFlight :: "world \<Rightarrow> world" where
  "incInFlight = upd_metrics (\<lambda>m. m\<lparr>m_inFlight := m_inFlight m + 1\<rparr>)"

definition decInFlight :: "world \<Rightarrow> world" where
  "decInFlight = upd_metrics (\<lambda>m. m\<lparr>m_inFlight := m_inFlight m - 1\<rparr>)"

definition recordSuccess :: "int \<Rightarrow> world \<Rightarrow> world" where
  "recordSuccess bytes = upd_metrics (\<lambda>m. m\<lparr>m_success := m_success m + 1, m_bytes := m_bytes m + bytes\<rparr>)"

definition recordFailure :: "world \<Rightarrow> world" where
  "recordFailure = upd_metrics (\<lambda>m. m\<lparr>m_failed := m_failed m + 1\<rparr>)"

definition recordDeadLetter :: "world \<Rightarrow> world" where
  "recordDeadLetter = upd_metrics (\<lambda>m. m\<lparr>m_deadLetter := m_deadLetter m + 1\<rparr>)"

definition recordWebhookDelivery :: "bool \<Rightarrow> world \<Rightarrow> world" where
  "recordWebhookDelivery delivered = upd_metrics (\<lambda>m.
     if delivered then m\<lparr>m_delivered := m_delivered m + 1\<rparr>
     else m\<lparr>m_deliveryFailed := m_deliveryFailed m + 1\<rparr>)"

lemmas metric_defs = endTimer_def incInFlight_def decInFlight_def recordSuccess_def recordFailure_def
  recordDeadLetter_def recordWebhookDelivery_def

text \<open>A metric is no part of the rest of the state.\<close>

lemma upd_metrics_frame [simp]:
  "w_transfers (upd_metrics f w) = w_transfers w" "w_outbox (upd_metrics f w) = w_outbox w"
  "w_usage (upd_metrics f w) = w_usage w" "w_subs (upd_metrics f w) = w_subs w"
  "w_users (upd_metrics f w) = w_users w" "w_queue (upd_metrics f w) = w_queue w"
  "w_dlq (upd_metrics f w) = w_dlq w" "w_deliveries (upd_metrics f w) = w_deliveries w"
  "w_kafka (upd_metrics f w) = w_kafka w" "w_objects (upd_metrics f w) = w_objects w"
  "w_buckets (upd_metrics f w) = w_buckets w" "w_metrics (upd_metrics f w) = f (w_metrics w)"
  "w_alerts (upd_metrics f w) = w_alerts w" "w_posts (upd_metrics f w) = w_posts w"
  "w_relaying (upd_metrics f w) = w_relaying w" "w_sweeping (upd_metrics f w) = w_sweeping w"
  "w_now (upd_metrics f w) = w_now w"
  by (simp_all add: upd_metrics_def)

lemma frame_metrics:
  assumes "\<And>w x. f (w\<lparr>w_metrics := x\<rparr>) = f w"
  shows "f (endTimer w) = f w" "f (incInFlight w) = f w" "f (decInFlight w) = f w" "f (recordSuccess b w) = f w"
    "f (recordFailure w) = f w" "f (recordDeadLetter w) = f w" "f (recordWebhookDelivery d w) = f w"
  using assms by (simp_all add: metric_defs upd_metrics_def)

end
