(* ===== verification/Events.thy ===== *)
theory Events
  imports Services Config Telemetry
begin

text \<open>
  \<^verbatim>\<open>events/\<close> and \<^verbatim>\<open>kafka/\<close>: a domain event is published to Kafka (best effort) and fanned out to
  the tenant's active subscriptions, one delivery job for each; the delivery worker posts the
  signed event. Subscriptions are managed per tenant.
\<close>

section \<open>The body of an event\<close>

definition event_json :: "DomainEvent \<Rightarrow> json" where
  "event_json e =
     JObj [(''type'', JStr (event_name (de_type e))), (''transferId'', JStr (de_transferId e)),
       (''tenantId'', JStr (de_tenantId e)), (''data'', JObj (de_data e))]"

section \<open>KafkaProducerService\<close>

definition kafka_onModuleInit :: "services \<Rightarrow> KafkaSection \<Rightarrow> (world, unit) act" where
  "kafka_onModuleInit sv k =
     (if \<not> kafka_enabled k then ret ()
      else
        seq (modify (\<lambda>w. w\<lparr>w_kafkaProducer := True\<rparr>))
          (try_catch
            (seq (call sv C_KafkaConnect (ret ())) (modify (\<lambda>w. w\<lparr>w_kafkaReady := True\<rparr>)))
            (\<lambda>e. ret ())))"

definition kafka_onModuleDestroy :: "services \<Rightarrow> (world, unit) act" where
  "kafka_onModuleDestroy sv =
     bnd (gets w_kafkaProducer) (\<lambda>producer.
       if producer then try_catch (call sv C_KafkaDisconnect (ret ())) (\<lambda>e. ret ()) else ret ())"

definition kafka_publish :: "services \<Rightarrow> KafkaSection \<Rightarrow> string \<Rightarrow> DomainEvent \<Rightarrow> (world, unit) act" where
  "kafka_publish sv k key value =
     bnd (gets w_kafkaProducer) (\<lambda>producer.
       if \<not> kafka_enabled k \<or> \<not> producer then ret ()
       else
         try_catch
           (seq (bnd (gets w_kafkaReady) (\<lambda>ready.
                   if \<not> ready then
                     seq (call sv C_KafkaConnect (ret ())) (modify (\<lambda>w. w\<lparr>w_kafkaReady := True\<rparr>))
                   else ret ()))
                (call sv C_KafkaSend (modify (\<lambda>w. w\<lparr>w_kafka := w_kafka w @ [(key, value)]\<rparr>))))
           (\<lambda>e. ret ()))"

section \<open>EventPublisherService\<close>

definition mk_event :: "FileTransfer \<Rightarrow> EventType \<Rightarrow> (string \<times> json) list \<Rightarrow> DomainEvent" where
  "mk_event transfer type data =
     \<lparr>de_type = type, de_transferId = ft_id transfer, de_tenantId = ft_tenantId transfer, de_data = data\<rparr>"

definition active_subs :: "string \<Rightarrow> world \<Rightarrow> EventSubscription list" where
  "active_subs tenantId w = filter (\<lambda>s. es_tenantId s = tenantId \<and> es_active s) (w_subs w)"

definition delivery_job :: "EventSubscription \<Rightarrow> DomainEvent \<Rightarrow> WebhookDeliveryJob" where
  "delivery_job s e =
     \<lparr>wd_subscriptionId = es_id s, wd_url = es_url s, wd_secret = es_secret s, wd_event = e\<rparr>"

definition enqueue_delivery :: "services \<Rightarrow> DomainEvent \<Rightarrow> EventSubscription \<Rightarrow> (world, unit) act" where
  "enqueue_delivery sv e s =
     call sv (C_DeliveryAdd (es_id s)) (modify (\<lambda>w. w\<lparr>w_deliveries := w_deliveries w @ [delivery_job s e]\<rparr>))"

definition publishTransferEvent ::
    "services \<Rightarrow> KafkaSection \<Rightarrow> FileTransfer \<Rightarrow> EventType \<Rightarrow> (string \<times> json) list \<Rightarrow> (world, unit) act" where
  "publishTransferEvent sv k transfer type data =
     seq (kafka_publish sv k (ft_tenantId transfer) (mk_event transfer type data))
       (bnd (call sv C_FindSubs (gets (active_subs (ft_tenantId transfer)))) (\<lambda>subscriptions.
         let targets = filter (\<lambda>s. event_name type \<in> set (es_events s)) subscriptions
         in for_each (enqueue_delivery sv (mk_event transfer type data)) targets))"

section \<open>WebhookDeliveryProcessor\<close>

definition delivery_headers :: "services \<Rightarrow> WebhookDeliveryJob \<Rightarrow> (string \<times> string) list" where
  "delivery_headers sv job =
     [(''Content-Type'', ''application/json''), (''X-SyncBridge-Event'', event_name (de_type (wd_event job))),
      (''X-SyncBridge-Signature'', ''sha256='' @ sv_hmac sv (wd_secret job) (stringify (event_json (wd_event job))))]"

definition delivery_process :: "services \<Rightarrow> WebhookDeliveryJob \<Rightarrow> (world, unit) act" where
  "delivery_process sv job =
     (let body = stringify (event_json (wd_event job)) in
      try_catch
        (seq (call sv C_Deliver (modify (\<lambda>w. w\<lparr>w_posts := w_posts w @ [(wd_url job, delivery_headers sv job, body)]\<rparr>)))
          (if \<not> (200 \<le> sv_status sv (wd_url job) \<and> sv_status sv (wd_url job) \<le> 299) then
             throw (JsError ''Error'' (''subscriber returned '' @ show_int (sv_status sv (wd_url job))))
           else modify (recordWebhookDelivery True)))
        (\<lambda>err. seq (modify (recordWebhookDelivery False)) (throw err)))"

section \<open>SubscriptionsService\<close>

record CreateSubscriptionDto =
  csd_url :: string
  csd_events :: "string list"
  csd_secret :: "string option"

text \<open>The decorators; \<^verbatim>\<open>@IsUrl\<close> is validator.js, a parameter.\<close>

definition subscription_dto_valid :: "(string \<Rightarrow> bool) \<Rightarrow> CreateSubscriptionDto \<Rightarrow> bool" where
  "subscription_dto_valid isUrl dto \<longleftrightarrow>
     isUrl (csd_url dto) \<and> csd_events dto \<noteq> [] \<and> set (csd_events dto) \<subseteq> set EVENT_TYPES"

definition sub_create :: "services \<Rightarrow> AuthUser \<Rightarrow> CreateSubscriptionDto \<Rightarrow> (world, EventSubscription) act" where
  "sub_create sv user dto =
     call sv C_SaveSub (\<lambda>w.
       let i = sv_uuid sv ''event_subscriptions'';
           sub = \<lparr>es_id = i, es_tenantId = au_tenantId user, es_url = csd_url dto, es_events = csd_events dto,
                  es_secret = (case csd_secret dto of None \<Rightarrow> sv_secret sv | Some s \<Rightarrow> s), es_active = True,
                  es_createdAt = w_now w\<rparr>
       in if i \<in> es_id ` set (w_subs w) then (Raised (QueryFailedError ''23505'' ''duplicate key value''), w)
          else (Done sub, w\<lparr>w_subs := w_subs w @ [sub]\<rparr>))"

definition sub_list :: "services \<Rightarrow> AuthUser \<Rightarrow> (world, EventSubscription list) act" where
  "sub_list sv user = call sv C_FindSubs (gets (\<lambda>w.
     order_desc es_createdAt (filter (\<lambda>s. es_tenantId s = au_tenantId user) (w_subs w))))"

definition sub_remove :: "services \<Rightarrow> AuthUser \<Rightarrow> string \<Rightarrow> (world, unit) act" where
  "sub_remove sv user i =
     bnd (call sv C_FindSubs (gets (\<lambda>w. find (\<lambda>s. es_id s = i \<and> es_tenantId s = au_tenantId user) (w_subs w))))
       (\<lambda>sub. case sub of
          None \<Rightarrow> throw (HttpException 404 ''NotFoundException'' (''Subscription '' @ i @ '' not found''))
        | Some _ \<Rightarrow> call sv C_DeleteSub (modify (\<lambda>w. w\<lparr>w_subs := filter (\<lambda>s. es_id s \<noteq> i) (w_subs w)\<rparr>)))"

section \<open>Lemmas\<close>

text \<open>Publishing touches Kafka and the delivery queue only.\<close>

lemma frame_kafka_publish:
  assumes "\<And>w x. f (w\<lparr>w_kafkaReady := x\<rparr>) = f w" "\<And>w x. f (w\<lparr>w_kafka := x\<rparr>) = f w"
  shows "frame f (kafka_publish sv k key v)"
  unfolding kafka_publish_def by (intro eff frame_modify assms)

lemma frame_publish:
  assumes "\<And>w x. f (w\<lparr>w_kafkaReady := x\<rparr>) = f w" "\<And>w x. f (w\<lparr>w_kafka := x\<rparr>) = f w"
    "\<And>w x. f (w\<lparr>w_deliveries := x\<rparr>) = f w"
  shows "frame f (publishTransferEvent sv k t ty d)"
  unfolding publishTransferEvent_def enqueue_delivery_def Let_def
  by (intro eff frame_modify frame_kafka_publish assms)

lemma frame_publish_parts [eff]:
  "frame w_transfers (publishTransferEvent sv k t ty d)" "frame w_objects (publishTransferEvent sv k t ty d)"
  "frame w_usage (publishTransferEvent sv k t ty d)" "frame w_queue (publishTransferEvent sv k t ty d)"
  "frame w_dlq (publishTransferEvent sv k t ty d)" "frame w_metrics (publishTransferEvent sv k t ty d)"
  "frame w_outbox (publishTransferEvent sv k t ty d)" "frame w_now (publishTransferEvent sv k t ty d)"
  "frame w_subs (publishTransferEvent sv k t ty d)"
  by (rule frame_publish; simp)+

text \<open>The jobs a fan-out adds, under any faults: a part of the wanted ones, in order.\<close>

definition fan_targets :: "FileTransfer \<Rightarrow> EventType \<Rightarrow> world \<Rightarrow> EventSubscription list" where
  "fan_targets t ty w = filter (\<lambda>s. event_name ty \<in> set (es_events s)) (active_subs (ft_tenantId t) w)"

lemma enqueue_loop:
  "\<exists>n. w_deliveries (snd (for_each (enqueue_delivery sv e) ss w)) = w_deliveries w @ map (\<lambda>s. delivery_job s e) (take n ss)
     \<and> (fst (for_each (enqueue_delivery sv e) ss w) = Done () \<longrightarrow> length ss \<le> n)"
proof (induction ss arbitrary: w)
  case Nil
  then show ?case by (auto simp: ret_def)
next
  case (Cons s ss)
  let ?w = "w\<lparr>w_deliveries := w_deliveries w @ [delivery_job s e]\<rparr>"
  obtain n where n: "w_deliveries (snd (for_each (enqueue_delivery sv e) ss ?w)) =
      w_deliveries w @ [delivery_job s e] @ map (\<lambda>s. delivery_job s e) (take n ss)"
    "fst (for_each (enqueue_delivery sv e) ss ?w) = Done () \<longrightarrow> length ss \<le> n"
    using Cons[of ?w] by auto
  show ?case
  proof (cases "sv_fault sv (C_DeliveryAdd (es_id s))")
    case Healthy
    then have "enqueue_delivery sv e s w = (Done (), ?w)"
      by (simp add: enqueue_delivery_def call_Healthy modify_def)
    with n show ?thesis by (intro exI[of _ "Suc n"]) (auto simp: seq_def bnd_def)
  next
    case (FailBefore x)
    then show ?thesis by (intro exI[of _ 0]) (auto simp: seq_def bnd_def enqueue_delivery_def call_def await_def)
  next
    case (FailAfter x)
    then show ?thesis
      by (intro exI[of _ 1]) (auto simp: seq_def bnd_def enqueue_delivery_def call_def await_def modify_def)
  next
    case CrashBefore
    then show ?thesis by (intro exI[of _ 0]) (auto simp: seq_def bnd_def enqueue_delivery_def call_def await_def)
  next
    case CrashAfter
    then show ?thesis
      by (intro exI[of _ 1]) (auto simp: seq_def bnd_def enqueue_delivery_def call_def await_def modify_def)
  qed
qed

lemma kafka_publish_no_error: "fst (kafka_publish sv k key v w) \<noteq> Raised e"
  by (auto simp: kafka_publish_def act_defs call_def split: fault.splits if_splits)

lemma publish_deliveries:
  "\<exists>n. w_deliveries (snd (publishTransferEvent sv k t ty d w)) =
       w_deliveries w @ map (\<lambda>s. delivery_job s (mk_event t ty d)) (take n (fan_targets t ty w)) \<and>
     (fst (publishTransferEvent sv k t ty d w) = Done () \<longrightarrow> length (fan_targets t ty w) \<le> n)"
proof -
  let ?e = "mk_event t ty d" and ?k = "kafka_publish sv k (ft_tenantId t) (mk_event t ty d)"
  have fr: "frame w_deliveries ?k" "frame w_subs ?k"
    by (rule frame_kafka_publish; simp)+
  obtain r w1 where run: "?k w = (r, w1)" by fastforce
  then have w1: "w_deliveries w1 = w_deliveries w" "fan_targets t ty w1 = fan_targets t ty w"
    using frameD[OF fr(1), of w] frameD[OF fr(2), of w] by (simp_all add: fan_targets_def active_subs_def)
  from enqueue_loop[of sv ?e "fan_targets t ty w1" w1] w1 obtain n where n:
    "w_deliveries (snd (for_each (enqueue_delivery sv ?e) (fan_targets t ty w1) w1)) =
       w_deliveries w @ map (\<lambda>s. delivery_job s ?e) (take n (fan_targets t ty w))"
    "fst (for_each (enqueue_delivery sv ?e) (fan_targets t ty w1) w1) = Done () \<longrightarrow> length (fan_targets t ty w) \<le> n"
    by auto
  show ?thesis
  proof (cases "r = Done () \<and> sv_fault sv C_FindSubs = Healthy")
    case True
    then have "publishTransferEvent sv k t ty d w = for_each (enqueue_delivery sv ?e) (fan_targets t ty w1) w1"
      by (simp add: publishTransferEvent_def seq_def bnd_def[of ?k] run call_Healthy fan_targets_def Let_def)
    with n show ?thesis by auto
  next
    case False
    then have "w_deliveries (snd (publishTransferEvent sv k t ty d w)) = w_deliveries w \<and>
        fst (publishTransferEvent sv k t ty d w) \<noteq> Done ()"
      using w1 by (cases r) (auto simp: publishTransferEvent_def seq_def bnd_def run call_def await_def gets_def split: fault.splits)
    then show ?thesis by (intro exI[of _ 0]) auto
  qed
qed

section \<open>Properties\<close>

text \<open>An event reaches exactly the tenant's subscribers: under any faults the delivery jobs that
  publishing adds are a prefix of the list of jobs of the active subscriptions of the transfer's
  own tenant that want the event, each with its own URL and secret, and all of them when
  publishing returns. Nothing but Kafka and that queue changes.\<close>

theorem event_fanout:
  "let w' = snd (publishTransferEvent sv k t ty d w);
       wanted = filter (\<lambda>s. event_name ty \<in> set (es_events s))
                  (filter (\<lambda>s. es_tenantId s = ft_tenantId t \<and> es_active s) (w_subs w))
   in (\<exists>n. w_deliveries w' = w_deliveries w @ map (\<lambda>s. delivery_job s (mk_event t ty d)) (take n wanted) \<and>
        (fst (publishTransferEvent sv k t ty d w) = Done () \<longrightarrow> length wanted \<le> n)) \<and>
      w_transfers w' = w_transfers w \<and> w_queue w' = w_queue w \<and> w_objects w' = w_objects w"
  using publish_deliveries[of sv k t ty d w] frame_publish_parts[of sv k t ty d]
  unfolding fan_targets_def active_subs_def Let_def by (auto simp: frameD)

definition sub1 :: EventSubscription where
  "sub1 = \<lparr>es_id = ''s1'', es_tenantId = ''acme'', es_url = ''https://a'', es_events = [''transfer.completed''],
     es_secret = ''k'', es_active = True, es_createdAt = 0\<rparr>"

definition world_subs :: world where
  "world_subs = world0\<lparr>w_subs := [sub1, sub1\<lparr>es_id := ''s2'', es_tenantId := ''other''\<rparr>]\<rparr>"

theorem event_fanout_witness:
  "\<exists>n. w_deliveries (snd (publishTransferEvent sv0 (cfg_kafka cfg0) transfer1 transfer_completed [] world_subs)) =
     map (\<lambda>s. delivery_job s (mk_event transfer1 transfer_completed [])) (take n [sub1])"
  using event_fanout[of sv0 "cfg_kafka cfg0" transfer1 transfer_completed "[]" world_subs]
  by (auto simp: world_subs_def world0_def sub1_def transfer1_def Let_def)

text \<open>Kafka is best effort: publishing to it never rejects, whatever the broker does, and records an
  event at most once.\<close>

lemma kafka_publish_never_throws:
  "(fst (kafka_publish sv k key v w) = Done () \<or> fst (kafka_publish sv k key v w) = Crashed) \<and>
   (w_kafka (snd (kafka_publish sv k key v w)) = w_kafka w \<or>
    kafka_enabled k \<and> w_kafka (snd (kafka_publish sv k key v w)) = w_kafka w @ [(key, v)])"
  by (auto simp: kafka_publish_def act_defs call_def split: fault.splits)

text \<open>Closing the producer: whatever the broker does, the hook never throws, and it keeps no record of having run; a
  publication after it goes to the same producer.\<close>

lemma kafka_shutdown_never_throws:
  "fst (kafka_onModuleDestroy sv w) \<noteq> Raised e" "snd (kafka_onModuleDestroy sv w) = w"
  by (auto simp: kafka_onModuleDestroy_def act_defs call_def split: fault.splits)

text \<open>A delivery is signed and its failure is visible: a run of the delivery worker that returns has
  posted the event's JSON to the subscription's URL with the HMAC of exactly that body under the
  subscription's secret, got a 2xx answer and counted one delivery; a run that rejects (so that
  BullMQ retries it) counted one failure.\<close>

theorem delivery_signed_and_counted:
  "case delivery_process sv job w of
     (Done u, w') \<Rightarrow> 200 \<le> sv_status sv (wd_url job) \<and> sv_status sv (wd_url job) < 300 \<and>
        (\<exists>hs body. w_posts w' = w_posts w @ [(wd_url job, hs, body)] \<and> body = stringify (event_json (wd_event job)) \<and>
           (''X-SyncBridge-Signature'', ''sha256='' @ sv_hmac sv (wd_secret job) body) \<in> set hs) \<and>
        m_delivered (w_metrics w') = m_delivered (w_metrics w) + 1 \<and>
        m_deliveryFailed (w_metrics w') = m_deliveryFailed (w_metrics w)
   | (Raised e, w') \<Rightarrow> m_deliveryFailed (w_metrics w') = m_deliveryFailed (w_metrics w) + 1 \<and>
        m_delivered (w_metrics w') = m_delivered (w_metrics w)
   | (Crashed, w') \<Rightarrow> w_metrics w' = w_metrics w"
  by (auto simp: delivery_process_def act_defs call_def recordWebhookDelivery_def delivery_headers_def Let_def
      split: fault.splits)

lemma delivery_posts:
  assumes "fst (delivery_process sv job w) = Done ()"
  shows "w_posts (snd (delivery_process sv job w)) =
      w_posts w @ [(wd_url job, delivery_headers sv job, stringify (event_json (wd_event job)))] \<and>
    200 \<le> sv_status sv (wd_url job) \<and> sv_status sv (wd_url job) < 300"
  using assms by (auto simp: delivery_process_def act_defs call_def recordWebhookDelivery_def Let_def split: fault.splits)

text \<open>C31: What a subscriber receives is signed and decodes to the event: a run of the delivery worker that
  returns has posted one body to the subscription's URL and got a 2xx answer; the headers carry the HMAC of
  exactly that body under the subscription's secret, and parsing the body as JSON gives the event's type,
  transfer, tenant and data, whatever characters the strings hold. (The data has distinct keys and integers
  below 2^53, as the worker's has.)\<close>

theorem delivered_body_decodes:
  assumes "fst (delivery_process sv job w) = Done ()" "json_ok (JObj (de_data (wd_event job)))"
  shows "\<exists>hs body. w_posts (snd (delivery_process sv job w)) = w_posts w @ [(wd_url job, hs, body)] \<and>
     200 \<le> sv_status sv (wd_url job) \<and> sv_status sv (wd_url job) < 300 \<and>
     (''X-SyncBridge-Signature'', ''sha256='' @ sv_hmac sv (wd_secret job) body) \<in> set hs \<and>
     JSON_parse body = Some (JObj
       [(''type'', JStr (event_name (de_type (wd_event job)))), (''transferId'', JStr (de_transferId (wd_event job))),
        (''tenantId'', JStr (de_tenantId (wd_event job))), (''data'', as_read (JObj (de_data (wd_event job))))])"
proof -
  have "json_ok (event_json (wd_event job))" using assms(2) by (simp add: event_json_def)
  then have "JSON_parse (stringify (event_json (wd_event job))) = Some (as_read (event_json (wd_event job)))"
    by (rule JSON_parse_stringify)
  moreover have "(''X-SyncBridge-Signature'', ''sha256='' @ sv_hmac sv (wd_secret job) (stringify (event_json (wd_event job))))
      \<in> set (delivery_headers sv job)" by (simp add: delivery_headers_def)
  ultimately show ?thesis using delivery_posts[OF assms(1)] by (auto simp: event_json_def)
qed

definition awkward_job :: WebhookDeliveryJob where
  "awkward_job = \<lparr>wd_subscriptionId = ''s1'', wd_url = ''https://hook'', wd_secret = ''k'',
     wd_event = \<lparr>de_type = transfer_completed, de_transferId = ''t1'', de_tenantId = [CHR 0x22, CHR 0x5C, CHR 0x0A, CHR 0x01],
       de_data = [(''sizeBytes'', JNum 42), (''encrypted'', JBool False)]\<rparr>\<rparr>"

theorem delivered_body_decodes_witness:
  "\<exists>hs body. w_posts (snd (delivery_process sv0 awkward_job world0)) = [(''https://hook'', hs, body)] \<and>
     JSON_parse body = Some (JObj [(''type'', JStr ''transfer.completed''), (''transferId'', JStr ''t1''),
       (''tenantId'', JStr [CHR 0x22, CHR 0x5C, CHR 0x0A, CHR 0x01]),
       (''data'', JObj [(''sizeBytes'', JNum (Fin 42)), (''encrypted'', JBool False)])])"
proof -
  have "fst (delivery_process sv0 awkward_job world0) = Done ()"
    by (simp add: delivery_process_def act_defs call_def sv0_def Let_def awkward_job_def)
  from delivered_body_decodes[OF this] show ?thesis
    by (simp add: awkward_job_def world0_def) blast
qed

text \<open>Subscriptions are isolated by tenant: a user lists exactly the subscriptions of their own
  tenant, and removing one, under any faults, deletes no subscription but the named one, and that
  one only if it belongs to the user's own tenant.\<close>

theorem subscriptions_isolated:
  assumes "distinct (map es_id (w_subs w))"
  shows "(sub_list sv user w = (Done subs, w') \<longrightarrow>
      set subs = {s \<in> set (w_subs w). es_tenantId s = au_tenantId user}) \<and>
    (\<forall>s\<in>set (w_subs w). s \<in> set (w_subs (snd (sub_remove sv user i w))) \<or> es_id s = i \<and> es_tenantId s = au_tenantId user)"
proof -
  have "s \<in> set (w_subs (snd (sub_remove sv user i w))) \<or> es_id s = i \<and> es_tenantId s = au_tenantId user"
    if s: "s \<in> set (w_subs w)" for s
  proof (cases "find (\<lambda>s. es_id s = i \<and> es_tenantId s = au_tenantId user) (w_subs w)")
    case None
    then have "w_subs (snd (sub_remove sv user i w)) = w_subs w"
      by (auto simp: sub_remove_def bnd_def call_def await_def gets_def throw_def split: fault.splits)
    with s show ?thesis by simp
  next
    case (Some x)
    then have x: "x \<in> set (w_subs w)" "es_id x = i" "es_tenantId x = au_tenantId user"
      by (auto dest: find_Some_set)
    then have "s = x" if "es_id s = i" using that s assms by (auto simp: distinct_map inj_on_def)
    moreover have "w_subs (snd (sub_remove sv user i w)) \<in> {w_subs w, filter (\<lambda>s. es_id s \<noteq> i) (w_subs w)}"
      using Some by (auto simp: sub_remove_def bnd_def call_def await_def gets_def modify_def split: fault.splits)
    ultimately show ?thesis using s x by auto
  qed
  then show ?thesis by (auto simp: sub_list_def call_Done_iff)
qed

theorem subscriptions_isolated_witness:
  "sub1\<lparr>es_id := ''s2'', es_tenantId := ''other''\<rparr> \<in> set (w_subs (snd (sub_remove sv0
     \<lparr>au_userId = ''u'', au_username = ''v'', au_roles = [OPERATOR], au_tenantId = ''acme''\<rparr> ''s2'' world_subs)))"
proof -
  have "distinct (map es_id (w_subs world_subs))" by (simp add: world_subs_def sub1_def)
  from subscriptions_isolated[OF this, of sv0 "\<lparr>au_userId = ''u'', au_username = ''v'', au_roles = [OPERATOR], au_tenantId = ''acme''\<rparr>"
      "[]" world_subs "''s2''"] show ?thesis
    by (auto simp: world_subs_def sub1_def)
qed

end
