(* ===== verification/Processor.thy ===== *)
theory Processor
  imports Repository Pipeline Crypto Storage Events Outbox
begin

text \<open>
  \<^verbatim>\<open>ingestion/ingestion.processor.ts\<close> and \<^verbatim>\<open>common/checksum.util.ts\<close>: the worker that moves one file
  from the landing volume to the object store. \<open>runTransfer\<close> is the source's function, with its
  long \<^verbatim>\<open>try\<close> block in two parts: what is done before the upload (\<open>prepare\<close>, which only reads) and
  the upload and what follows it (\<open>complete\<close>). \<open>onFailed\<close> is the handler of BullMQ's \<^verbatim>\<open>failed\<close> event.
\<close>

section \<open>Checksums\<close>

record FileChecksums =
  fc_md5 :: string
  fc_sha256 :: string

text \<open>A hash object collects what it is updated with, chunk by chunk.\<close>

definition computeFileChecksums :: "services \<Rightarrow> string \<Rightarrow> (world, FileChecksums) act" where
  "computeFileChecksums sv path =
     call sv C_ReadSource (gets (\<lambda>_.
       let fed = foldl (\<lambda>acc chunk. acc @ chunk) [] (sv_chunks sv C_ReadSource path)
       in \<lparr>fc_md5 = sv_md5 sv fed, fc_sha256 = sv_sha256 sv fed\<rparr>))"

section \<open>Small helpers\<close>

definition is_hex :: "char \<Rightarrow> bool" where
  "is_hex c =
     (let n = (of_char c :: nat) in 48 \<le> n \<and> n \<le> 57 \<or> 97 \<le> n \<and> n \<le> 102 \<or> 65 \<le> n \<and> n \<le> 70)"

definition SINGLE_PART_ETAG :: "string \<Rightarrow> bool" where
  "SINGLE_PART_ETAG s \<longleftrightarrow> length s = 32 \<and> list_all is_hex s"

definition verifyIntegrity :: "string option \<Rightarrow> string \<Rightarrow> (world, unit) act" where
  "verifyIntegrity etag expectedMd5 =
     (case etag of
        None \<Rightarrow> ret ()
      | Some e \<Rightarrow>
          if e \<noteq> [] \<and> SINGLE_PART_ETAG e \<and> toLowerCase e \<noteq> toLowerCase expectedMd5 then
            throw (JsError ''Error'' (''Integrity check failed: ETag '' @ e @ '' != source MD5 '' @ expectedMd5))
          else ret ())"

definition errMessage :: "js_error \<Rightarrow> string" where
  "errMessage e = err_name e @ '': '' @ err_message e"

definition toDeadLetter :: "services \<Rightarrow> string \<Rightarrow> string \<Rightarrow> (world, unit) act" where
  "toDeadLetter sv transferId reason =
     call sv C_DlqAdd (modify (\<lambda>w. w\<lparr>w_dlq := w_dlq w @ [\<lparr>dl_transferId = transferId, dl_reason = reason\<rparr>]\<rparr>))"

section \<open>The transfer\<close>

record Prepared =
  pr_sizeBytes :: int
  pr_checksums :: FileChecksums
  pr_upload :: UploadParams
  pr_wrappedDek :: "string option"

text \<open>\<^verbatim>\<open>await stat(path).catch(() => null)\<close>\<close>

definition stat_or_null :: "services \<Rightarrow> string \<Rightarrow> (world, (bool \<times> int) option) act" where
  "stat_or_null sv path = try_catch (call sv C_Stat (gets (\<lambda>_. sv_stat sv path))) (\<lambda>e. ret None)"

definition prepare :: "services \<Rightarrow> app_config \<Rightarrow> CryptoService \<Rightarrow> FileTransfer \<Rightarrow> (world, Prepared) act" where
  "prepare sv cfg cs transfer =
     bnd (stat_or_null sv (ft_sourcePath transfer)) (\<lambda>stats.
       case stats of
         None \<Rightarrow> throw (NonRetryableError (''Source unreadable: '' @ ft_sourcePath transfer))
       | Some (isFile, fileSize) \<Rightarrow>
           if \<not> isFile then throw (NonRetryableError (''Source unreadable: '' @ ft_sourcePath transfer))
           else
             bnd (pipeline_run (PROCESSING_STEPS sv cfg)
                    \<lparr>pc_transfer = transfer, pc_sourcePath = ft_sourcePath transfer, pc_sizeBytes = fileSize,
                     pc_contentType = None\<rparr>) (\<lambda>ctx.
             bnd (computeFileChecksums sv (pc_sourcePath ctx)) (\<lambda>checksums.
               let target = route cfg transfer;
                   chunks = sv_chunks sv C_Upload (pc_sourcePath ctx);
                   mk = (\<lambda>body len wrapped.
                     \<lparr>pr_sizeBytes = pc_sizeBytes ctx, pr_checksums = checksums,
                      pr_upload = \<lparr>up_key = rt_key target, up_body = body, up_contentLength = Some len,
                        up_contentType = Some (case pc_contentType ctx of None \<Rightarrow> ''application/octet-stream'' | Some c \<Rightarrow> c),
                        up_bucket = Some (rt_bucket target)\<rparr>,
                      pr_wrappedDek = wrapped\<rparr>)
               in if cs_enabled cs then
                    (case createEncryptStream sv cs of
                       Inl e \<Rightarrow> throw e
                     | Inr (st, wrapped) \<Rightarrow>
                         ret (mk (enc_run sv st chunks) (pc_sizeBytes ctx + overheadBytes) (Some wrapped)))
                  else ret (mk (concat chunks) (pc_sizeBytes ctx) None))))"

definition completed_data :: "UploadResult \<Rightarrow> int \<Rightarrow> bool \<Rightarrow> (string \<times> json) list" where
  "completed_data result sizeBytes encrypted =
     [(''bucket'', JStr (ur_bucket result)), (''objectKey'', JStr (ur_key result)), (''sizeBytes'', JNum sizeBytes),
      (''encrypted'', JBool encrypted)]"

text \<open>After the row is SUCCESS: the metric, the usage, the event.\<close>

definition after_success ::
    "services \<Rightarrow> app_config \<Rightarrow> FileTransfer \<Rightarrow> Prepared \<Rightarrow> UploadResult \<Rightarrow> (world, unit) act" where
  "after_success sv cfg transfer pr result =
     seq (modify (recordSuccess (pr_sizeBytes pr)))
    (seq (recordUsage sv (ft_tenantId transfer) (pr_sizeBytes pr))
         (publishTransferEvent sv (cfg_kafka cfg) transfer transfer_completed
           (completed_data result (pr_sizeBytes pr) (truthy (pr_wrappedDek pr)))))"

definition complete :: "services \<Rightarrow> app_config \<Rightarrow> FileTransfer \<Rightarrow> Prepared \<Rightarrow> (world, unit) act" where
  "complete sv cfg transfer pr =
     bnd (uploadStream sv (cfg_s3 cfg) (pr_upload pr)) (\<lambda>result.
     seq (if \<not> truthy (pr_wrappedDek pr) then verifyIntegrity (ur_etag result) (fc_md5 (pr_checksums pr)) else ret ())
    (seq (markSuccess sv (ft_id transfer) (ur_bucket result) (ur_key result) (ur_etag result)
            (Some (fc_sha256 (pr_checksums pr))) (truthy (pr_wrappedDek pr)) (pr_wrappedDek pr))
         (after_success sv cfg transfer pr result)))"

text \<open>The \<^verbatim>\<open>catch\<close> block.\<close>

definition on_error :: "services \<Rightarrow> app_config \<Rightarrow> FileTransfer \<Rightarrow> js_error \<Rightarrow> (world, unit) act" where
  "on_error sv cfg transfer err =
     (if is_NonRetryable err then
        seq (markFailed sv (ft_id transfer) (err_message err))
       (seq (modify recordFailure)
       (seq (publishTransferEvent sv (cfg_kafka cfg) transfer transfer_failed [(''reason'', JStr (err_message err))])
            (toDeadLetter sv (ft_id transfer) (err_message err))))
      else throw err)"

definition runTransfer ::
    "services \<Rightarrow> app_config \<Rightarrow> CryptoService \<Rightarrow> TransferJob \<Rightarrow> (world, unit) act" where
  "runTransfer sv cfg cs job =
     bnd (findById sv C_FindById (tj_transferId (qj_data job))) (\<lambda>row.
       case row of
         None \<Rightarrow> ret ()
       | Some transfer \<Rightarrow>
           if ft_status transfer = SUCCESS then ret ()
           else
             seq (modify incInFlight)
            (seq (markProcessing sv (ft_id transfer))
              (try_finally
                (try_catch
                  (bnd (prepare sv cfg cs transfer) (\<lambda>pr. complete sv cfg transfer pr))
                  (on_error sv cfg transfer))
                (\<lambda>w. endTimer (decInFlight w)))))"

text \<open>The span wrapper rethrows what it records.\<close>

definition process_job :: "services \<Rightarrow> app_config \<Rightarrow> CryptoService \<Rightarrow> TransferJob \<Rightarrow> (world, unit) act" where
  "process_job sv cfg cs job = try_catch (runTransfer sv cfg cs job) (\<lambda>err. throw err)"

definition totalAttempts :: "TransferJob \<Rightarrow> int" where
  "totalAttempts job = (case qj_attempts job of None \<Rightarrow> 1 | Some n \<Rightarrow> n)"

definition exhausted_message :: "TransferJob \<Rightarrow> js_error \<Rightarrow> string" where
  "exhausted_message job err =
     ''Exhausted '' @ show_int (totalAttempts job) @ '' attempts. Last error: '' @ errMessage err"

definition onFailed :: "services \<Rightarrow> app_config \<Rightarrow> TransferJob \<Rightarrow> js_error \<Rightarrow> (world, unit) act" where
  "onFailed sv cfg job err =
     (let transferId = tj_transferId (qj_data job); message = exhausted_message job err in
      if qj_attemptsMade job < totalAttempts job then ret ()
      else
        seq (markFailed sv transferId message)
       (seq (modify recordFailure)
       (bnd (findById sv C_FindFailed transferId) (\<lambda>transfer.
         seq (case transfer of
                None \<Rightarrow> ret ()
              | Some t \<Rightarrow> publishTransferEvent sv (cfg_kafka cfg) t transfer_failed [(''reason'', JStr message)])
             (toDeadLetter sv transferId message)))))"

section \<open>Lemmas\<close>

lemma fed_concat: "foldl (\<lambda>acc chunk. acc @ chunk) a cs = a @ concat cs"
  by (induction cs arbitrary: a) auto

lemma frame_computeFileChecksums [eff]: "frame f (computeFileChecksums sv p)"
  unfolding computeFileChecksums_def by (intro eff)

lemma frame_stat [eff]: "frame f (stat_or_null sv p)"
  unfolding stat_or_null_def by (intro eff)

lemma frame_sum [eff]:
  "(\<And>e. x = Inl e \<Longrightarrow> frame f (m e)) \<Longrightarrow> (\<And>a b. x = Inr (a, b) \<Longrightarrow> frame f (k a b)) \<Longrightarrow>
   frame f (case x of Inl e \<Rightarrow> m e | Inr (a, b) \<Rightarrow> k a b)"
  by (auto split: sum.splits)

lemma frame_pair [eff]: "(\<And>a b. p = (a, b) \<Longrightarrow> frame f (k a b)) \<Longrightarrow> frame f (case p of (a, b) \<Rightarrow> k a b)"
  by (cases p) auto

lemma frame_prepare [eff]: "frame f (prepare sv cfg cs t)"
  unfolding prepare_def Let_def by (intro eff pipeline.execute_frame)

lemma prepare_pure: "snd (prepare sv cfg cs t w) = w"
  by (rule frame_id_step) (rule frame_prepare)

lemma base64_encode_not_Nil: "bs \<noteq> [] \<Longrightarrow> base64_encode bs \<noteq> []"
  using base64_decode_encode[of bs] by (auto simp: base64_decode_def)

lemma wrapDek_truthy: "wrapDek sv cs dek = Inr wrapped \<Longrightarrow> wrapped \<noteq> []"
proof -
  assume a: "wrapDek sv cs dek = Inr wrapped"
  obtain kek where k: "kek_of cs = Inr kek" using a by (cases "kek_of cs") (auto simp: wrapDek_def)
  with a obtain g where g: "createCipheriv kek (sv_wrapIv sv) = Inr g"
    by (cases "createCipheriv kek (sv_wrapIv sv)") (auto simp: wrapDek_def)
  then have "sv_wrapIv sv \<noteq> []" by (auto simp: createCipheriv_def split: if_splits)
  moreover have "wrapped = base64_encode (sv_wrapIv sv @ fst (cipher_update sv g dek) @
      getAuthTag sv (snd (cipher_update sv g dek)))"
    using a k g by (simp add: wrapDek_def case_prod_beta Let_def)
  ultimately show ?thesis using base64_encode_not_Nil by simp
qed

text \<open>What a successful preparation says of the file.\<close>

definition prepared_ok :: "services \<Rightarrow> app_config \<Rightarrow> CryptoService \<Rightarrow> FileTransfer \<Rightarrow> Prepared \<Rightarrow> world \<Rightarrow> bool" where
  "prepared_ok sv cfg cs t pr w \<longleftrightarrow>
     sv_stat sv (ft_sourcePath t) = Some (True, pr_sizeBytes pr) \<and>
     admitted sv cfg \<lparr>pc_transfer = t, pc_sourcePath = ft_sourcePath t, pc_sizeBytes = pr_sizeBytes pr, pc_contentType = None\<rparr> w \<and>
     fc_md5 (pr_checksums pr) = sv_md5 sv (concat (sv_chunks sv C_ReadSource (ft_sourcePath t))) \<and>
     fc_sha256 (pr_checksums pr) = sv_sha256 sv (concat (sv_chunks sv C_ReadSource (ft_sourcePath t))) \<and>
     up_key (pr_upload pr) = rt_key (route cfg t) \<and> up_bucket (pr_upload pr) = Some (rt_bucket (route cfg t)) \<and>
     up_contentType (pr_upload pr) = Some (mime_type (ft_filename t)) \<and>
     (if cs_enabled cs then
        \<exists>st wrapped. createEncryptStream sv cs = Inr (st, wrapped) \<and> pr_wrappedDek pr = Some wrapped \<and>
          up_body (pr_upload pr) = enc_run sv st (sv_chunks sv C_Upload (ft_sourcePath t)) \<and>
          up_contentLength (pr_upload pr) = Some (pr_sizeBytes pr + overheadBytes)
      else pr_wrappedDek pr = None \<and> up_body (pr_upload pr) = concat (sv_chunks sv C_Upload (ft_sourcePath t)) \<and>
        up_contentLength (pr_upload pr) = Some (pr_sizeBytes pr))"

lemma prepare_Done:
  assumes "prepare sv cfg cs t w = (Done pr, w')"
  shows "prepared_ok sv cfg cs t pr w"
proof -
  let ?ctx = "\<lambda>n. \<lparr>pc_transfer = t, pc_sourcePath = ft_sourcePath t, pc_sizeBytes = n, pc_contentType = None\<rparr>"
  obtain x u where st: "stat_or_null sv (ft_sourcePath t) w = (Done x, u)" and u: "u = w"
    using assms frameD[OF frame_stat, of "\<lambda>w. w" sv "ft_sourcePath t" w] unfolding prepare_def
    by (auto simp: bnd_Done_iff)
  from assms[unfolded prepare_def] obtain n where n: "x = Some (True, n)"
    using st by (cases x) (auto simp: bnd_def split: if_splits)
  then have stat: "sv_stat sv (ft_sourcePath t) = Some (True, n)"
    using st by (auto simp: stat_or_null_def try_catch_Done_iff call_Done_iff)
  from assms[unfolded prepare_def] st n u obtain ctx digests where
    ctx: "pipeline_run (PROCESSING_STEPS sv cfg) (?ctx n) w = (Done ctx, w)"
    and digests: "computeFileChecksums sv (pc_sourcePath ctx) w = (Done digests, w)"
    by (auto simp: bnd_def[of "stat_or_null sv (ft_sourcePath t)"] bnd_Done_iff pipeline_Done computeFileChecksums_def call_Done_iff)
  from ctx have adm: "admitted sv cfg (?ctx n) w"
    and c: "ctx = (?ctx n)\<lparr>pc_contentType := Some (mime_type (ft_filename t))\<rparr>"
    by (simp_all add: pipeline_Done)
  have s: "digests = \<lparr>fc_md5 = sv_md5 sv (concat (sv_chunks sv C_ReadSource (ft_sourcePath t))),
      fc_sha256 = sv_sha256 sv (concat (sv_chunks sv C_ReadSource (ft_sourcePath t)))\<rparr>"
    using digests c by (auto simp: computeFileChecksums_def call_Done_iff fed_concat Let_def)
  from assms[unfolded prepare_def] st n u ctx digests stat adm show ?thesis
    by (auto simp: bnd_def prepared_ok_def c s Let_def split: if_splits sum.splits)
qed

lemma prepared_truthy:
  "prepared_ok sv cfg cs t pr w \<Longrightarrow> truthy (pr_wrappedDek pr) \<longleftrightarrow> pr_wrappedDek pr \<noteq> None"
  by (auto simp: prepared_ok_def truthy_def dest!: createEncryptStream_seal(2) wrapDek_truthy split: if_splits)

subsection \<open>Frames of the phases\<close>

lemma frame_toDeadLetter:
  "(\<And>w x. f (w\<lparr>w_dlq := x\<rparr>) = f w) \<Longrightarrow> frame f (toDeadLetter sv i r)"
  unfolding toDeadLetter_def by (intro eff frame_modify)

lemma frame_verify [eff]: "frame f (verifyIntegrity e m)"
  unfolding verifyIntegrity_def by (intro eff)

lemma keeps_verify [eff]: "keeps P (verifyIntegrity e m)"
  unfolding verifyIntegrity_def by (intro eff)

lemma keeps_from_frame: "frame f m \<Longrightarrow> (\<And>w w'. f w' = f w \<Longrightarrow> P w \<Longrightarrow> P w') \<Longrightarrow> keeps P m"
  unfolding keeps_def frame_def by blast

lemma frame_recordUsage:
  "(\<And>w. f (upsert_usage t b w) = f w) \<Longrightarrow> frame f (recordUsage sv t b)"
  unfolding recordUsage_def by (intro eff frame_modify)

lemma frame_after_success [eff]:
  "frame w_transfers (after_success sv cfg t pr r)" "frame w_objects (after_success sv cfg t pr r)"
  "frame w_queue (after_success sv cfg t pr r)" "frame w_dlq (after_success sv cfg t pr r)"
  unfolding after_success_def
  by (intro eff frame_modify frame_recordUsage frame_metrics; simp)+

subsection \<open>A SUCCESS row is backed by its object\<close>

definition not_success :: "string \<Rightarrow> world \<Rightarrow> bool" where
  "not_success i w \<longleftrightarrow> (\<forall>t. find_transfer i w = Some t \<longrightarrow> ft_status t \<noteq> SUCCESS)"

definition backed_by ::
    "services \<Rightarrow> app_config \<Rightarrow> CryptoService \<Rightarrow> FileTransfer \<Rightarrow> world \<Rightarrow> FileTransfer \<Rightarrow> world \<Rightarrow> Prepared \<Rightarrow> bool" where
  "backed_by sv cfg cs t w0 row w pr \<longleftrightarrow> prepared_ok sv cfg cs t pr w0 \<and>
     ft_bucket row = rt_bucket (route cfg t) \<and> ft_objectKey row = Some (rt_key (route cfg t)) \<and>
     ft_checksumSha256 row = Some (fc_sha256 (pr_checksums pr)) \<and>
     ft_wrappedDek row = pr_wrappedDek pr \<and> ft_encrypted row = (pr_wrappedDek pr \<noteq> None) \<and>
     w_objects w (rt_bucket (route cfg t), rt_key (route cfg t)) =
       Some \<lparr>so_body = up_body (pr_upload pr), so_contentType = Some (mime_type (ft_filename t))\<rparr> \<and>
     (pr_wrappedDek pr = None \<longrightarrow> (\<forall>e. ft_etag row = Some e \<and> SINGLE_PART_ETAG e \<longrightarrow>
        toLowerCase e = toLowerCase (fc_md5 (pr_checksums pr))))"

definition backed :: "services \<Rightarrow> app_config \<Rightarrow> CryptoService \<Rightarrow> FileTransfer \<Rightarrow> world \<Rightarrow> FileTransfer \<Rightarrow> world \<Rightarrow> bool" where
  "backed sv cfg cs t w0 row w \<longleftrightarrow> (\<exists>pr. backed_by sv cfg cs t w0 row w pr)"

definition success_backed :: "services \<Rightarrow> app_config \<Rightarrow> CryptoService \<Rightarrow> FileTransfer \<Rightarrow> world \<Rightarrow> world \<Rightarrow> bool" where
  "success_backed sv cfg cs t w0 w \<longleftrightarrow>
     (\<forall>row. find_transfer (ft_id t) w = Some row \<and> ft_status row = SUCCESS \<longrightarrow> backed sv cfg cs t w0 row w)"

lemma not_success_backed: "not_success (ft_id t) w \<Longrightarrow> success_backed sv cfg cs t w0 w"
  by (auto simp: not_success_def success_backed_def)

text \<open>Both only look at the transfers and the objects.\<close>

lemma success_backed_cong:
  "w_transfers w' = w_transfers w \<Longrightarrow> w_objects w' = w_objects w \<Longrightarrow> success_backed sv cfg cs t w0 w \<Longrightarrow>
   success_backed sv cfg cs t w0 w'"
  by (simp add: success_backed_def backed_def backed_by_def)

lemma keeps_backed_frames:
  "frame w_transfers m \<Longrightarrow> frame w_objects m \<Longrightarrow> keeps (success_backed sv cfg cs t w0) m"
  unfolding keeps_def frame_def using success_backed_cong by blast

lemma find_set_success: "find_transfer i (upd_transfer i (set_success b k e (Some c) (d \<noteq> None) d n) w) =
    map_option (set_success b k e (Some c) (d \<noteq> None) d n) (find_transfer i w)"
  by (rule success.patch_find_same)

lemma keeps_backed_markFailed: "keeps (success_backed sv cfg cs t w0) (markFailed sv' (ft_id t) m)"
  unfolding markFailed_def
proof (intro eff keeps_modify)
  fix w
  have "not_success (ft_id t) (upd_transfer (ft_id t) (set_failed m (w_now w)) w)"
    by (auto simp: not_success_def failed.patch_find_same set_failed_def)
  then show "success_backed sv cfg cs t w0 (upd_transfer (ft_id t) (set_failed m (w_now w)) w)"
    by (rule not_success_backed)
qed

text \<open>The result of the upload, as the rest of \<open>complete\<close> relies on it.\<close>

definition uploaded :: "app_config \<Rightarrow> FileTransfer \<Rightarrow> Prepared \<Rightarrow> UploadResult \<Rightarrow> world \<Rightarrow> bool" where
  "uploaded cfg t pr r w \<longleftrightarrow> ur_bucket r = rt_bucket (route cfg t) \<and> ur_key r = rt_key (route cfg t) \<and>
     w_objects w (rt_bucket (route cfg t), rt_key (route cfg t)) =
       Some \<lparr>so_body = up_body (pr_upload pr), so_contentType = Some (mime_type (ft_filename t))\<rparr>"

lemma markSuccess_backed:
  assumes "prepared_ok sv cfg cs t pr w0"
    and "pr_wrappedDek pr = None \<longrightarrow> (\<forall>e. ur_etag r = Some e \<and> SINGLE_PART_ETAG e \<longrightarrow>
        toLowerCase e = toLowerCase (fc_md5 (pr_checksums pr)))"
  shows "triple (\<lambda>w. not_success (ft_id t) w \<and> uploaded cfg t pr r w)
    (markSuccess sv (ft_id t) (ur_bucket r) (ur_key r) (ur_etag r)
            (Some (fc_sha256 (pr_checksums pr))) (truthy (pr_wrappedDek pr)) (pr_wrappedDek pr))
    (\<lambda>_ w. success_backed sv cfg cs t w0 w)"
proof -
  let ?f = "\<lambda>w. set_success (ur_bucket r) (ur_key r) (ur_etag r) (Some (fc_sha256 (pr_checksums pr)))
      (pr_wrappedDek pr \<noteq> None) (pr_wrappedDek pr) (w_now w)"
  have "success_backed sv cfg cs t w0 (upd_transfer (ft_id t) (?f w) w)" if "uploaded cfg t pr r w" for w
    using that assms unfolding success_backed_def find_set_success
    by (auto simp: backed_def backed_by_def uploaded_def set_success_def intro!: exI[of _ pr])
  then show ?thesis
    using not_success_backed prepared_truthy[OF assms(1)]
    by (auto simp: triple_def markSuccess_def call_def await_def modify_def split: fault.splits)
qed

lemma triple_keeps: "triple P m (\<lambda>_. Q) \<Longrightarrow> keeps Q n \<Longrightarrow> triple P (seq m n) (\<lambda>_. Q)"
  by (auto simp: triple_def keeps_def seq_def bnd_def split: prod.splits outcome.splits)

lemma uploadStream_uploaded:
  assumes "prepared_ok sv cfg cs t pr w0"
  shows "triple (not_success (ft_id t)) (uploadStream sv (cfg_s3 cfg) (pr_upload pr))
    (mid (\<lambda>r w. not_success (ft_id t) w \<and> uploaded cfg t pr r w) (\<lambda>_ w. success_backed sv cfg cs t w0 w))"
proof -
  have "frame w_transfers (uploadStream sv (cfg_s3 cfg) (pr_upload pr))" by (rule frame_upload) simp_all
  then have ns: "not_success (ft_id t) (snd (uploadStream sv (cfg_s3 cfg) (pr_upload pr) w))" if "not_success (ft_id t) w" for w
    using that by (simp add: not_success_def frame_def)
  have "uploaded cfg t pr r w'" if "uploadStream sv (cfg_s3 cfg) (pr_upload pr) w = (Done r, w')" for w r w'
    using uploadStream_Done[OF that] assms by (auto simp: uploaded_def prepared_ok_def)
  note up = this
  show ?thesis
    unfolding triple_def
  proof (intro allI impI)
    fix w
    assume w: "not_success (ft_id t) w"
    obtain x w' where run: "uploadStream sv (cfg_s3 cfg) (pr_upload pr) w = (x, w')" by fastforce
    then show "mid (\<lambda>r w. not_success (ft_id t) w \<and> uploaded cfg t pr r w) (\<lambda>_ w. success_backed sv cfg cs t w0 w)
      (fst (uploadStream sv (cfg_s3 cfg) (pr_upload pr) w)) (snd (uploadStream sv (cfg_s3 cfg) (pr_upload pr) w))"
      using ns[OF w] up[of w] not_success_backed[of t w'] by (cases x) simp_all
  qed
qed

definition etag_verified :: "Prepared \<Rightarrow> UploadResult \<Rightarrow> bool" where
  "etag_verified pr r \<longleftrightarrow> (pr_wrappedDek pr = None \<longrightarrow> (\<forall>e. ur_etag r = Some e \<and> SINGLE_PART_ETAG e \<longrightarrow>
     toLowerCase e = toLowerCase (fc_md5 (pr_checksums pr))))"

lemma no_empty_etag [simp]: "\<not> SINGLE_PART_ETAG []"
  by (simp add: SINGLE_PART_ETAG_def)

lemma verify_cases:
  fixes r :: UploadResult
  assumes "prepared_ok sv cfg cs t pr w0"
  defines "v \<equiv> (if \<not> truthy (pr_wrappedDek pr) then verifyIntegrity (ur_etag r) (fc_md5 (pr_checksums pr)) else ret ())"
  shows "v w = (Done (), w) \<and> etag_verified pr r \<or> (\<exists>e. v w = (Raised e, w) \<and> \<not> is_NonRetryable e)"
  unfolding v_def prepared_truthy[OF assms(1)]
  by (auto simp: verifyIntegrity_def etag_verified_def ret_def throw_def split: option.splits)

lemma complete_backed:
  assumes "prepared_ok sv cfg cs t pr w0"
  shows "triple (not_success (ft_id t)) (complete sv cfg t pr) (\<lambda>_ w. success_backed sv cfg cs t w0 w)"
  unfolding complete_def
proof (rule triple_bnd[OF uploadStream_uploaded[OF assms]])
  fix r :: UploadResult
  let ?v = "if \<not> truthy (pr_wrappedDek pr) then verifyIntegrity (ur_etag r) (fc_md5 (pr_checksums pr)) else ret ()"
  let ?m = "markSuccess sv (ft_id t) (ur_bucket r) (ur_key r) (ur_etag r) (Some (fc_sha256 (pr_checksums pr)))
      (truthy (pr_wrappedDek pr)) (pr_wrappedDek pr)"
  let ?P = "\<lambda>w. not_success (ft_id t) w \<and> uploaded cfg t pr r w"
  have rest: "triple ?P (seq ?m (after_success sv cfg t pr r)) (\<lambda>_ w. success_backed sv cfg cs t w0 w)" if "etag_verified pr r"
    by (rule triple_keeps[OF markSuccess_backed[OF assms] keeps_backed_frames])
      (use that in \<open>auto simp: etag_verified_def intro: eff\<close>)
  show "triple ?P (seq ?v (seq ?m (after_success sv cfg t pr r))) (\<lambda>_ w. success_backed sv cfg cs t w0 w)"
    unfolding triple_def
  proof (intro allI impI)
    fix w
    assume w: "?P w"
    show "success_backed sv cfg cs t w0 (snd (seq ?v (seq ?m (after_success sv cfg t pr r)) w))"
      using verify_cases[OF assms, of r w]
    proof (elim disjE exE conjE)
      assume "?v w = (Done (), w)" "etag_verified pr r"
      then show ?thesis using tripleD[OF rest w] by (simp add: seq_def[of ?v] bnd_def)
    next
      fix e
      assume "?v w = (Raised e, w)"
      then show ?thesis using w by (simp add: seq_def[of ?v] bnd_def not_success_backed)
    qed
  qed
qed

lemma prepared_ok_usage:
  "w_usage w = w_usage w0 \<Longrightarrow> prepared_ok sv cfg cs t pr w = prepared_ok sv cfg cs t pr w0"
  by (simp add: prepared_ok_def admitted_def usage_of_def)

lemma body_backed:
  "triple (\<lambda>w. not_success (ft_id t) w \<and> w_usage w = w_usage w0)
     (bnd (prepare sv cfg cs t) (complete sv cfg t)) (\<lambda>_ w. success_backed sv cfg cs t w0 w)"
  unfolding triple_def
proof (intro allI impI)
  fix w
  assume w: "not_success (ft_id t) w \<and> w_usage w = w_usage w0"
  obtain x where run: "prepare sv cfg cs t w = (x, w)"
    using prepare_pure[of sv cfg cs t w] by (metis prod.collapse)
  show "success_backed sv cfg cs t w0 (snd (bnd (prepare sv cfg cs t) (complete sv cfg t) w))"
  proof (cases x)
    case (Done pr)
    with run w have "prepared_ok sv cfg cs t pr w0"
      using prepare_Done prepared_ok_usage by blast
    then show ?thesis
      using Done run w tripleD[OF complete_backed] by (simp add: bnd_def)
  qed (use run w not_success_backed in \<open>auto simp: bnd_def\<close>)
qed

lemma keeps_backed_on_error: "keeps (success_backed sv cfg cs t w0) (on_error sv' cfg' t e)"
  unfolding on_error_def
  by (intro eff keeps_backed_markFailed keeps_modify keeps_backed_frames frame_modify frame_metrics
      frame_toDeadLetter; (erule success_backed_cong[rotated 2])?; simp add: frame_metrics)

text \<open>The steps of a job on a row that is not SUCCESS.\<close>

abbreviation job_id :: "TransferJob \<Rightarrow> string" where
  "job_id job \<equiv> tj_transferId (qj_data job)"

abbreviation guarded_body :: "services \<Rightarrow> app_config \<Rightarrow> CryptoService \<Rightarrow> FileTransfer \<Rightarrow> (world, unit) act" where
  "guarded_body sv cfg cs t \<equiv>
     try_finally (try_catch (bnd (prepare sv cfg cs t) (complete sv cfg t)) (on_error sv cfg t)) (\<lambda>w. endTimer (decInFlight w))"

lemma runTransfer_cases:
  "runTransfer sv cfg cs job w =
     (if sv_fault sv C_FindById = Healthy then
        (case find_transfer (job_id job) w of
           None \<Rightarrow> (Done (), w)
         | Some t \<Rightarrow> if ft_status t = SUCCESS then (Done (), w)
             else seq (markProcessing sv (ft_id t)) (guarded_body sv cfg cs t) (incInFlight w))
      else (case sv_fault sv C_FindById of FailBefore e \<Rightarrow> Raised e | FailAfter e \<Rightarrow> Raised e | _ \<Rightarrow> Crashed, w))"
  by (auto simp: runTransfer_def findById_def call_def await_def bnd_def gets_def ret_def[abs_def]
      split: fault.splits option.splits if_splits)

lemma process_job_runTransfer: "process_job sv cfg cs job = runTransfer sv cfg cs job"
  by (rule ext) (auto simp: process_job_def try_catch_def throw_def split: prod.splits outcome.splits)

lemma find_markProcessing: "\<not> ft_status t = SUCCESS \<Longrightarrow> find_transfer i w = Some t \<Longrightarrow>
    not_success i (snd (markProcessing sv i w))"
  by (auto simp: markProcessing_def call_def await_def modify_def not_success_def processing.patch_find_same set_processing_def
      split: fault.splits)

lemma runTransfer_backed:
  assumes "find_transfer (job_id job) w = Some t" "ft_status t \<noteq> SUCCESS"
  shows "success_backed sv cfg cs t w (snd (runTransfer sv cfg cs job w))"
proof -
  have i: "ft_id t = job_id job" using assms(1) by (auto dest: row_find_SomeD)
  have inc: "find_transfer (job_id job) (incInFlight w) = Some t" "w_usage (incInFlight w) = w_usage w"
    using assms(1) by (simp_all add: incInFlight_def)
  obtain x w1 where mp: "markProcessing sv (ft_id t) (incInFlight w) = (x, w1)" by fastforce
  have ns: "not_success (ft_id t) w1"
    using find_markProcessing[OF assms(2) inc(1), of sv] mp i by simp
  have fr: "frame w_usage (markProcessing sv (ft_id t))" by (rule frame_modify_transfer) simp
  have us: "w_usage w1 = w_usage w"
    using frameD[OF fr, of "incInFlight w"] mp inc(2) by simp
  have cong: "success_backed sv cfg cs t w (endTimer (decInFlight u)) = success_backed sv cfg cs t w u" for u
    by (simp add: success_backed_def backed_def backed_by_def metric_defs)
  have "success_backed sv cfg cs t w (snd (try_catch (bnd (prepare sv cfg cs t) (complete sv cfg t)) (on_error sv cfg t) w1))"
    using tripleD[OF body_backed, of t w1 w sv cfg cs] ns us keepsD[OF keeps_backed_on_error]
    by (auto simp: try_catch_def split: prod.splits outcome.splits)
  then have "success_backed sv cfg cs t w (snd (guarded_body sv cfg cs t w1))"
    by (subst snd_try_finally) (rule cong)
  moreover have "success_backed sv cfg cs t w w1" using ns by (rule not_success_backed)
  moreover have "success_backed sv cfg cs t w w"
    using assms i by (auto intro!: not_success_backed simp: not_success_def)
  ultimately show ?thesis
    using assms mp by (cases x) (auto simp: runTransfer_cases seq_def bnd_def)
qed

end
