(* ===== verification/Worker.thy ===== *)
theory Worker
  imports Processor
begin

text \<open>
  What the worker of \<^verbatim>\<open>ingestion.processor.ts\<close> guarantees, and the worker inside BullMQ: a job whose
  processor returns is done, one whose processor rejects has one more attempt made and is run
  again while attempts are left, with the \<^verbatim>\<open>failed\<close> event after every rejection, and one whose
  process died is taken up again by another worker.
\<close>

section \<open>The footprint of a job\<close>

text \<open>
  A part of the state a job does not touch: it does not depend on the row of the job, on the
  object of its target, nor on what processing counts, meters and emits. Every such part is
  left alone by the processor and the handler of its failures, whatever faults occur.
\<close>

locale job_frame =
  fixes f :: "world \<Rightarrow> 'b" and i :: string and target :: "string \<times> string" and tenant :: string
  assumes f_row: "(\<And>r. ident (g r) = ident r) \<Longrightarrow> f (upd_transfer i g w) = f w"
    and f_metrics: "f (w\<lparr>w_metrics := m\<rparr>) = f w"
    and f_buckets: "f (w\<lparr>w_buckets := bs\<rparr>) = f w"
    and f_objects: "f (w\<lparr>w_objects := (w_objects w)(target := x)\<rparr>) = f w"
    and f_usage: "f (upsert_usage tenant b w) = f w"
    and f_kafkaReady: "f (w\<lparr>w_kafkaReady := kr\<rparr>) = f w"
    and f_kafka: "f (w\<lparr>w_kafka := ks\<rparr>) = f w"
    and f_deliveries: "f (w\<lparr>w_deliveries := ds\<rparr>) = f w"
    and f_dlq: "f (w\<lparr>w_dlq := dl\<rparr>) = f w"
begin

lemmas f_metric = frame_metrics[of f, OF f_metrics]

lemma frame_marks:
  "frame f (markProcessing sv i)" "frame f (markFailed sv i m)" "frame f (markSuccess sv i b k e c n d)"
  unfolding markProcessing_def markFailed_def markSuccess_def
  by (intro eff frame_modify f_row; simp add: ident_def set_processing_def set_failed_def set_success_def)+

lemma frame_event: "frame f (publishTransferEvent sv k t ty d)"
  by (rule frame_publish) (rule f_kafkaReady f_kafka f_deliveries)+

lemma frame_dead: "frame f (toDeadLetter sv j r)"
  by (rule frame_toDeadLetter) (rule f_dlq)

lemma frame_on_error: "ft_id t = i \<Longrightarrow> frame f (on_error sv cfg t e)"
  unfolding on_error_def by (intro eff frame_modify frame_event frame_dead f_metric) (simp add: frame_marks)

lemma frame_complete:
  assumes "ft_id t = i" "ft_tenantId t = tenant"
    and "target_bucket (cfg_s3 cfg) (pr_upload pr) = fst target" "up_key (pr_upload pr) = snd target"
  shows "frame f (complete sv cfg t pr)"
  unfolding complete_def after_success_def
  using assms
  by (intro eff frame_upload frame_modify frame_recordUsage frame_event f_metric f_buckets)
    (simp_all add: frame_marks f_usage f_objects)

lemma frame_job_failed: "tj_transferId (qj_data job) = i \<Longrightarrow> frame f (onFailed sv cfg job err)"
  unfolding onFailed_def Let_def
  by (intro eff frame_modify frame_event frame_dead f_metric) (simp add: frame_marks)

lemma frame_run:
  assumes id: "tj_transferId (qj_data job) = i"
    and t: "\<And>t. find_transfer i w = Some t \<Longrightarrow>
      ft_tenantId t = tenant \<and> target = (rt_bucket (route cfg t), rt_key (route cfg t))"
  shows "f (snd (process_job sv cfg cs job w)) = f w"
proof (cases "find_transfer i w")
  case None
  then show ?thesis using id by (auto simp: process_job_runTransfer runTransfer_cases)
next
  case (Some row)
  have row: "ft_id row = i" using Some by (auto dest: row_find_SomeD)
  have comp: "f (snd (bnd (prepare sv cfg cs row) (complete sv cfg row) u)) = f u" for u
  proof -
    obtain x where run: "prepare sv cfg cs row u = (x, u)"
      using prepare_pure[of sv cfg cs row u] by (metis prod.collapse)
    show ?thesis
    proof (cases x)
      case (Done pr)
      with run have "prepared_ok sv cfg cs row pr u" by (auto dest: prepare_Done)
      then have "frame f (complete sv cfg row pr)"
        using t[OF Some] row by (intro frame_complete) (auto simp: prepared_ok_def)
      then show ?thesis using run Done by (simp add: bnd_def frame_def)
    qed (use run in \<open>auto simp: bnd_def\<close>)
  qed
  have "frame f (guarded_body sv cfg cs row)"
    using comp frame_on_error[OF row]
    by (intro frame_try_finally frame_try_catch) (auto simp: frame_def f_metric)
  then have "frame f (seq (markProcessing sv (ft_id row)) (guarded_body sv cfg cs row))"
    unfolding row by (rule frame_seq[OF frame_marks(1)])
  then show ?thesis
    using Some id by (simp add: process_job_runTransfer runTransfer_cases frame_def f_metric)
qed

end

text \<open>The parts that are left alone: the other rows, the other objects, the outbox, the transfer queue,
  the users and the subscriptions.\<close>

definition other_rows :: "string \<Rightarrow> world \<Rightarrow> FileTransfer list" where
  "other_rows i w = filter (\<lambda>r. ft_id r \<noteq> i) (w_transfers w)"

definition other_objects :: "string \<times> string \<Rightarrow> world \<Rightarrow> string \<times> string \<Rightarrow> StoredObject option" where
  "other_objects x w = (w_objects w)(x := None)"

lemma other_rows_upd: "(\<And>r. ft_id (g r) = ft_id r) \<Longrightarrow> other_rows i (upd_transfer i g w) = other_rows i w"
proof -
  assume g: "\<And>r. ft_id (g r) = ft_id r"
  have "filter (\<lambda>r. ft_id r \<noteq> i) (map (\<lambda>r. if ft_id r = i then g r else r) rs) = filter (\<lambda>r. ft_id r \<noteq> i) rs" for rs
    by (induction rs) (auto simp: g)
  then show ?thesis by (simp add: other_rows_def upd_transfer_def row_update_def)
qed

definition untouched_by_jobs :: "world \<Rightarrow> OutboxEvent list \<times> TransferJob list \<times> User list \<times> EventSubscription list" where
  "untouched_by_jobs w = (w_outbox w, w_queue w, w_users w, w_subs w)"

lemma upsert_usage_users [simp]: "w_users (upsert_usage t b w) = w_users w"
  by (simp add: upsert_usage_def upd_usage_def split: option.splits)

interpretation job_rows: job_frame "other_rows i" i target tenant for i target tenant
proof
  fix g w
  show "other_rows i (upd_transfer i g w) = other_rows i w" if "\<And>r. ident (g r) = ident r"
    using that by (intro other_rows_upd) (simp add: ident_def)
qed (simp_all add: other_rows_def)

interpretation job_objects: job_frame "other_objects target" i target tenant for i target tenant
  by unfold_locales (simp_all add: other_objects_def)

interpretation job_idents: job_frame "\<lambda>w. map ident (w_transfers w)" i target tenant for i target tenant
  by unfold_locales (simp_all add: transfers.map_upd)

interpretation job_tables: job_frame untouched_by_jobs i target tenant for i target tenant
  by unfold_locales (simp_all add: untouched_by_jobs_def)

section \<open>The table invariant\<close>

lemma keeps_ok_frame: "frame w_transfers m \<Longrightarrow> keeps transfers_ok m"
  by (erule keeps_from_frame) (simp add: transfers_ok_def)

lemma keeps_ok_complete:
  assumes "prepared_ok sv cfg cs t pr w0"
  shows "keeps transfers_ok (complete sv cfg t pr)"
  unfolding complete_def prepared_truthy[OF assms]
  by (intro eff keeps_ok_frame[OF frame_upload] keeps_ok_frame[OF frame_after_success(1)]) simp_all

lemma keeps_ok_on_error: "keeps transfers_ok (on_error sv cfg t e)"
  unfolding on_error_def
  by (intro eff keeps_ok_frame frame_modify frame_metrics frame_toDeadLetter; simp)

lemma keeps_ok_onFailed [eff]: "keeps transfers_ok (onFailed sv cfg job e)"
  unfolding onFailed_def Let_def
  by (intro eff keeps_ok_frame frame_modify frame_metrics frame_toDeadLetter; simp)

lemma keeps_ok_body: "keeps transfers_ok (bnd (prepare sv cfg cs t) (complete sv cfg t))"
  unfolding keeps_def
proof (intro allI impI)
  fix w
  assume w: "transfers_ok w"
  obtain x where run: "prepare sv cfg cs t w = (x, w)"
    using prepare_pure[of sv cfg cs t w] by (metis prod.collapse)
  then show "transfers_ok (snd (bnd (prepare sv cfg cs t) (complete sv cfg t) w))"
    using w keepsD[OF keeps_ok_complete[OF prepare_Done]] by (cases x) (simp_all add: bnd_def)
qed

lemma keeps_ok_process [eff]: "keeps transfers_ok (process_job sv cfg cs job)"
proof -
  have metric: "transfers_ok (endTimer (decInFlight w)) = transfers_ok w" "transfers_ok (incInFlight w) = transfers_ok w" for w
    by (simp_all add: transfers_ok_def metric_defs)
  have "keeps transfers_ok (seq (markProcessing sv (ft_id t)) (guarded_body sv cfg cs t))" for t
    by (intro keeps_seq keeps_ok_markProcessing keeps_try_finally keeps_try_catch keeps_ok_body keeps_ok_on_error)
      (simp add: metric)
  then show ?thesis
    unfolding keeps_def process_job_runTransfer runTransfer_cases
    by (auto simp: metric split: option.splits)
qed

section \<open>How a run ends\<close>

text \<open>The row of a job is settled: absent, SUCCESS, or FAILED with its dead letter.\<close>

definition dead_lettered :: "string \<Rightarrow> world \<Rightarrow> bool" where
  "dead_lettered i w \<longleftrightarrow> i \<in> dl_transferId ` set (w_dlq w)"

definition settled :: "string \<Rightarrow> world \<Rightarrow> bool" where
  "settled i w \<longleftrightarrow> (case find_transfer i w of
     None \<Rightarrow> True
   | Some t \<Rightarrow> ft_status t = SUCCESS \<or> ft_status t = FAILED \<and> dead_lettered i w)"

lemma settled_cong: "w_transfers w' = w_transfers w \<Longrightarrow> w_dlq w' = w_dlq w \<Longrightarrow> settled i w' = settled i w"
  by (simp add: settled_def dead_lettered_def cong: option.case_cong)

lemma markSuccess_Done:
  "markSuccess sv i b k e c n d w = (Done u, w') \<longleftrightarrow>
     sv_fault sv C_MarkSuccess = Healthy \<and> w' = upd_transfer i (set_success b k e c n d (w_now w)) w"
  by (auto simp: markSuccess_def call_Done_iff)

lemma find_success: "find_transfer i (upd_transfer i (set_success b k e c n d now) w) =
    map_option (set_success b k e c n d now) (find_transfer i w)"
  by (rule transfers.find_upd_same) (simp add: set_success_def)

lemma complete_Done_settled:
  assumes "complete sv cfg t pr w = (Done u, w')"
  shows "settled (ft_id t) w'"
proof -
  obtain r w1 w2 where "markSuccess sv (ft_id t) (ur_bucket r) (ur_key r) (ur_etag r) (Some (fc_sha256 (pr_checksums pr)))
      (truthy (pr_wrappedDek pr)) (pr_wrappedDek pr) w1 = (Done (), w2)" "after_success sv cfg t pr r w2 = (Done (), w')"
    using assms unfolding complete_def by (auto simp: bnd_Done_iff seq_Done_iff)
  moreover from this(2) have "w_transfers w' = w_transfers w2" "w_dlq w' = w_dlq w2"
    using frame_runD[OF frame_after_success(1)] frame_runD[OF frame_after_success(4)] by auto
  ultimately have "w_transfers w' = w_transfers (upd_transfer (ft_id t) (set_success (ur_bucket r) (ur_key r) (ur_etag r)
      (Some (fc_sha256 (pr_checksums pr))) (truthy (pr_wrappedDek pr)) (pr_wrappedDek pr) (w_now w1)) w1)"
    by (auto simp: markSuccess_Done)
  then show ?thesis
    unfolding settled_def by (auto simp: find_success set_success_def split: option.splits)
qed

lemma markFailed_Done:
  "markFailed sv i m w = (Done u, w') \<longleftrightarrow> sv_fault sv (C_MarkFailed i) = Healthy \<and> w' = upd_transfer i (set_failed m (w_now w)) w"
  by (auto simp: markFailed_def call_Done_iff)

lemma toDeadLetter_Done:
  "toDeadLetter sv i r w = (Done u, w') \<longleftrightarrow>
     sv_fault sv C_DlqAdd = Healthy \<and> w' = w\<lparr>w_dlq := w_dlq w @ [\<lparr>dl_transferId = i, dl_reason = r\<rparr>]\<rparr>"
  by (auto simp: toDeadLetter_def call_Done_iff)

text \<open>After a row was marked FAILED and the failure was published and dead-lettered.\<close>

definition failed_row :: "string \<Rightarrow> string \<Rightarrow> world \<Rightarrow> bool" where
  "failed_row i m w \<longleftrightarrow> (case find_transfer i w of None \<Rightarrow> True | Some t \<Rightarrow> ft_status t = FAILED \<and> ft_errorLog t = Some m)"

lemma failed_row_mark: "failed_row i m (upd_transfer i (set_failed m now) w)"
  by (auto simp: failed_row_def failed.patch_find_same set_failed_def split: option.splits)

lemma on_error_Done:
  assumes "on_error sv cfg t e w = (Done u, w')"
  shows "is_NonRetryable e \<and> failed_row (ft_id t) (err_message e) w' \<and>
    \<lparr>dl_transferId = ft_id t, dl_reason = err_message e\<rparr> \<in> set (w_dlq w')"
proof -
  have nr: "is_NonRetryable e" using assms by (auto simp: on_error_def split: if_splits)
  then obtain w1 w2 where run: "markFailed sv (ft_id t) (err_message e) w = (Done (), w1)"
    "publishTransferEvent sv (cfg_kafka cfg) t transfer_failed [(''reason'', JStr (err_message e))] (recordFailure w1) = (Done (), w2)"
    "toDeadLetter sv (ft_id t) (err_message e) w2 = (Done (), w')"
    using assms by (auto simp: on_error_def seq_Done_iff)
  have "w_transfers w2 = w_transfers w1"
    using frame_runD[OF frame_publish_parts(1) run(2)] by (simp add: recordFailure_def)
  then show ?thesis
    using nr run(1,3) failed_row_mark[of "ft_id t" "err_message e"]
    by (auto simp: toDeadLetter_Done markFailed_Done failed_row_def)
qed

lemma for_each_healthy:
  "(\<And>x w. fst (f x w) = Done ()) \<Longrightarrow> fst (for_each f xs w) = Done ()"
proof (induction xs arbitrary: w)
  case (Cons x xs)
  obtain w1 where "f x w = (Done (), w1)" using Cons.prems[of x w] by (metis prod.collapse)
  then show ?case using Cons by (simp add: seq_def bnd_def)
qed (simp add: ret_def)

lemma publish_healthy: "healthy sv \<Longrightarrow> fst (publishTransferEvent sv k t ty d w) = Done ()"
  by (auto simp: publishTransferEvent_def kafka_publish_def enqueue_delivery_def act_defs Let_def
      intro!: for_each_healthy)

lemma onFailed_exhausted:
  fixes cfg :: app_config and w :: world and err :: js_error
  assumes "healthy sv" "\<not> qj_attemptsMade job < totalAttempts job"
  defines "w' \<equiv> snd (onFailed sv cfg job err w)"
  shows "failed_row (job_id job) (exhausted_message job err) w'"
    and "w_dlq w' = w_dlq w @ [\<lparr>dl_transferId = job_id job, dl_reason = exhausted_message job err\<rparr>]"
    and "w_metrics w' = w_metrics (recordFailure w)"
    and "w_queue w' = w_queue w" and "w_objects w' = w_objects w"
proof -
  let ?m = "exhausted_message job err" and ?i = "job_id job"
  define w1 where "w1 = recordFailure (upd_transfer ?i (set_failed ?m (w_now w)) w)"
  define pub where "pub = (case find_transfer ?i w1 of None \<Rightarrow> ret ()
      | Some t \<Rightarrow> publishTransferEvent sv (cfg_kafka cfg) t transfer_failed [(''reason'', JStr ?m)])"
  obtain w2 where w2: "pub w1 = (Done (), w2)"
    using publish_healthy[OF assms(1)] unfolding pub_def ret_def by (cases "find_transfer ?i w1") (auto simp: prod_eq_iff)
  have "frame w_transfers pub" "frame w_dlq pub" "frame w_metrics pub" "frame w_queue pub" "frame w_objects pub"
    unfolding pub_def by (intro eff)+
  then have parts: "w_transfers w2 = w_transfers w1" "w_dlq w2 = w_dlq w1" "w_metrics w2 = w_metrics w1"
    "w_queue w2 = w_queue w1" "w_objects w2 = w_objects w1"
    using w2 by (auto dest: frame_runD)
  have "onFailed sv cfg job err w = (Done (), w2\<lparr>w_dlq := w_dlq w2 @ [\<lparr>dl_transferId = ?i, dl_reason = ?m\<rparr>]\<rparr>)"
    using assms(1,2) w2
    by (simp add: onFailed_def Let_def markFailed_def findById_def toDeadLetter_def seq_def bnd_def modify_def gets_def
        w1_def[symmetric] pub_def[symmetric])
  then have w': "w' = w2\<lparr>w_dlq := w_dlq w2 @ [\<lparr>dl_transferId = ?i, dl_reason = ?m\<rparr>]\<rparr>" by (simp add: w'_def)
  show "failed_row ?i ?m w'"
    using failed_row_mark[of ?i ?m "w_now w" w] unfolding w' failed_row_def by (simp add: parts w1_def recordFailure_def)
  show "w_dlq w' = w_dlq w @ [\<lparr>dl_transferId = ?i, dl_reason = ?m\<rparr>]" "w_queue w' = w_queue w" "w_objects w' = w_objects w"
    "w_metrics w' = w_metrics (recordFailure w)"
    unfolding w' by (simp_all add: parts w1_def recordFailure_def)
qed

section \<open>The worker in BullMQ\<close>

definition job_failed_once :: "TransferJob \<Rightarrow> TransferJob" where
  "job_failed_once job = job\<lparr>qj_attemptsMade := qj_attemptsMade job + 1\<rparr>"

text \<open>One run of a job that a worker took from the queue: the processor under \<open>sv\<close>, the \<^verbatim>\<open>failed\<close>
  handler, where there is one to run, under \<open>svf\<close>.\<close>

definition settle_job ::
    "services \<Rightarrow> services \<Rightarrow> app_config \<Rightarrow> CryptoService \<Rightarrow> TransferJob \<Rightarrow> world \<Rightarrow> world" where
  "settle_job sv svf cfg cs job w =
     (case process_job sv cfg cs job w of
        (Done _, w1) \<Rightarrow> w1
      | (Crashed, w1) \<Rightarrow> w1\<lparr>w_queue := w_queue w1 @ [job]\<rparr>
      | (Raised e, w1) \<Rightarrow>
          let job' = job_failed_once job;
              w2 = (if qj_attemptsMade job' < totalAttempts job' then w1\<lparr>w_queue := w_queue w1 @ [job']\<rparr> else w1)
          in snd (onFailed svf cfg job' e w2))"

lemma job_failed_once_simps [simp]:
  "qj_data (job_failed_once job) = qj_data job" "totalAttempts (job_failed_once job) = totalAttempts job"
  "qj_attempts (job_failed_once job) = qj_attempts job"
  by (simp_all add: job_failed_once_def totalAttempts_def)

lemma process_Done_settled:
  assumes "process_job sv cfg cs job w = (Done u, w')"
  shows "settled (job_id job) w'"
proof -
  have fault: "sv_fault sv C_FindById = Healthy"
    using assms by (auto simp: process_job_runTransfer runTransfer_cases split: fault.splits if_splits)
  show ?thesis
  proof (cases "find_transfer (job_id job) w")
    case None
    with assms fault show ?thesis by (auto simp: process_job_runTransfer runTransfer_cases settled_def)
  next
    case (Some t)
    have i: "ft_id t = job_id job" using Some by (auto dest: row_find_SomeD)
    show ?thesis
    proof (cases "ft_status t = SUCCESS")
      case True
      with assms fault Some show ?thesis by (auto simp: process_job_runTransfer runTransfer_cases settled_def)
    next
      case False
      with assms fault Some obtain w1 where "guarded_body sv cfg cs t w1 = (Done (), w')"
        by (auto simp: process_job_runTransfer runTransfer_cases seq_Done_iff)
      then obtain w2 where w2: "try_catch (bnd (prepare sv cfg cs t) (complete sv cfg t)) (on_error sv cfg t) w1 = (Done (), w2)"
        and w': "w' = endTimer (decInFlight w2)"
        by (auto simp: try_finally_def split: prod.splits outcome.splits)
      have "settled (ft_id t) w2"
        using w2 unfolding try_catch_Done_iff
      proof (elim disjE exE conjE)
        assume "bnd (prepare sv cfg cs t) (complete sv cfg t) w1 = (Done (), w2)"
        then show ?thesis by (auto simp: bnd_Done_iff dest: complete_Done_settled)
      next
        fix e v
        assume "on_error sv cfg t e v = (Done (), w2)"
        from on_error_Done[OF this] show ?thesis
          by (auto simp: settled_def failed_row_def dead_lettered_def image_iff split: option.splits)
            (metis DeadLetterJobData.select_convs(1))
      qed
      moreover have "settled (ft_id t) w' = settled (ft_id t) w2"
        unfolding w' by (rule settled_cong) (simp_all add: metric_defs)
      ultimately show ?thesis by (simp add: i)
    qed
  qed
qed

section \<open>Properties\<close>

text \<open>C7: SUCCESS means stored: when a run of the worker (under any faults) leaves a row SUCCESS that was
  not, the source was a regular file that the pipeline admitted, the object of the row's bucket
  and key holds its bytes (encrypted under the wrapped key of the row, where encryption is on),
  the recorded checksum is the SHA-256 of the file as read for it, and for an unencrypted object
  a single-part ETag is the MD5 of that reading.\<close>

theorem success_means_stored:
  assumes "find_transfer (job_id job) w = Some t" "ft_status t \<noteq> SUCCESS"
    and "find_transfer (job_id job) (snd (process_job sv cfg cs job w)) = Some t'" "ft_status t' = SUCCESS"
  shows "\<exists>sz body. sv_stat sv (ft_sourcePath t) = Some (True, sz) \<and>
     admitted sv cfg \<lparr>pc_transfer = t, pc_sourcePath = ft_sourcePath t, pc_sizeBytes = sz, pc_contentType = None\<rparr> w \<and>
     ft_bucket t' = rt_bucket (route cfg t) \<and> ft_objectKey t' = Some (rt_key (route cfg t)) \<and>
     w_objects (snd (process_job sv cfg cs job w)) (rt_bucket (route cfg t), rt_key (route cfg t)) =
       Some \<lparr>so_body = body, so_contentType = Some (mime_type (ft_filename t))\<rparr> \<and>
     ft_checksumSha256 t' = Some (sv_sha256 sv (concat (sv_chunks sv C_ReadSource (ft_sourcePath t)))) \<and>
     (case ft_wrappedDek t' of
        None \<Rightarrow> \<not> cs_enabled cs \<and> body = concat (sv_chunks sv C_Upload (ft_sourcePath t)) \<and>
          (\<forall>e. ft_etag t' = Some e \<and> SINGLE_PART_ETAG e \<longrightarrow>
             toLowerCase e = toLowerCase (sv_md5 sv (concat (sv_chunks sv C_ReadSource (ft_sourcePath t)))))
      | Some wrapped \<Rightarrow> (\<exists>st. createEncryptStream sv cs = Inr (st, wrapped) \<and>
          body = enc_run sv st (sv_chunks sv C_Upload (ft_sourcePath t))))"
proof -
  have "ft_id t = job_id job" using assms(1) by (auto dest: row_find_SomeD)
  then have "backed sv cfg cs t w t' (snd (process_job sv cfg cs job w))"
    using runTransfer_backed[OF assms(1,2), of sv cfg cs] assms(3,4)
    by (simp add: success_backed_def process_job_runTransfer)
  then obtain pr where pr: "backed_by sv cfg cs t w t' (snd (process_job sv cfg cs job w)) pr"
    unfolding backed_def by blast
  show ?thesis
    by (rule exI[of _ "pr_sizeBytes pr"], rule exI[of _ "up_body (pr_upload pr)"])
      (use pr in \<open>auto simp: backed_by_def prepared_ok_def split: if_splits\<close>)
qed


text \<open>A run touches nothing else: under any faults it keeps the table invariants and leaves every other
  row, every object but the row's own target, the outbox, the queue, users and subscriptions as
  they were; so does the handler of its failures.\<close>

theorem job_footprint:
  assumes "transfers_ok w"
    and "\<And>t. find_transfer (job_id job) w = Some t \<Longrightarrow> target = (rt_bucket (route cfg t), rt_key (route cfg t))"
  shows "let w' = snd (process_job sv cfg cs job w); w'' = snd (onFailed svf cfg job err w') in
     transfers_ok w' \<and> transfers_ok w'' \<and>
     (\<forall>u\<in>{w', w''}. other_rows (job_id job) u = other_rows (job_id job) w \<and>
        other_objects target u = other_objects target w \<and> untouched_by_jobs u = untouched_by_jobs w)"
proof -
  define w' where "w' = snd (process_job sv cfg cs job w)"
  define tenant where "tenant = (case find_transfer (job_id job) w of None \<Rightarrow> [] | Some t \<Rightarrow> ft_tenantId t)"
  have t: "ft_tenantId t = tenant \<and> target = (rt_bucket (route cfg t), rt_key (route cfg t))"
    if "find_transfer (job_id job) w = Some t" for t
    using that assms(2) by (simp add: tenant_def)
  have "other_rows (job_id job) w' = other_rows (job_id job) w" "other_objects target w' = other_objects target w"
    "untouched_by_jobs w' = untouched_by_jobs w"
    unfolding w'_def
    by (rule job_rows.frame_run[OF refl t] job_objects.frame_run[OF refl t] job_tables.frame_run[OF refl t]; assumption)+
  moreover have "other_rows (job_id job) (snd (onFailed svf cfg job err w')) = other_rows (job_id job) w'"
    "other_objects target (snd (onFailed svf cfg job err w')) = other_objects target w'"
    "untouched_by_jobs (snd (onFailed svf cfg job err w')) = untouched_by_jobs w'"
    by (rule frameD, rule job_rows.frame_job_failed job_objects.frame_job_failed job_tables.frame_job_failed, rule refl)+
  moreover have "transfers_ok w'" unfolding w'_def by (rule keepsD[OF keeps_ok_process assms(1)])
  ultimately show ?thesis
    using keepsD[OF keeps_ok_onFailed] unfolding w'_def[symmetric] Let_def by auto
qed

end
