(* ===== verification/Outcomes.thy ===== *)
theory Outcomes
  imports Worker
begin

text \<open>
  How a transfer ends, branch by branch: it completes when the file is admitted and the services
  answer, it fails for good on a policy violation, it is retried while attempts are left and
  finalized when they are not. The last section has the runs in which the code does not do what
  it documents.
\<close>

section \<open>The completing run\<close>

text \<open>The calls up to the point where the row is SUCCESS succeed.\<close>

definition upload_calls_ok :: "services \<Rightarrow> bool" where
  "upload_calls_ok sv \<longleftrightarrow> (\<forall>c\<in>{C_FindById, C_MarkProcessing, C_Stat, C_GetUsage, C_Scan, C_ReadSource, C_HeadBucket,
     C_CreateBucket, C_Upload, C_MarkSuccess}. sv_fault sv c = Healthy)"

lemma upload_calls_okD:
  assumes "upload_calls_ok sv"
  shows "sv_fault sv C_FindById = Healthy" "sv_fault sv C_MarkProcessing = Healthy" "sv_fault sv C_Stat = Healthy"
    "sv_fault sv C_GetUsage = Healthy" "sv_fault sv C_Scan = Healthy" "sv_fault sv C_ReadSource = Healthy"
    "sv_fault sv C_HeadBucket = Healthy" "sv_fault sv C_CreateBucket = Healthy" "sv_fault sv C_Upload = Healthy"
    "sv_fault sv C_MarkSuccess = Healthy"
  using assms by (simp_all add: upload_calls_ok_def)

lemma healthy_upload_calls: "healthy sv \<Longrightarrow> upload_calls_ok sv"
  by (simp add: healthy_def upload_calls_ok_def)

text \<open>A file that can be transferred: it is admitted, the two readings see the same bytes, of the size
  that \<^verbatim>\<open>stat\<close> gave, the store has the configured bucket and answers a single-part upload with the
  MD5 of the body, and encryption, where it is on, can start.\<close>

definition good_file :: "services \<Rightarrow> app_config \<Rightarrow> CryptoService \<Rightarrow> FileTransfer \<Rightarrow> int \<Rightarrow> byte list \<Rightarrow> world \<Rightarrow> bool" where
  "good_file sv cfg cs t sz bytes w \<longleftrightarrow>
     sv_stat sv (ft_sourcePath t) = Some (True, sz) \<and> int (length bytes) = sz \<and>
     concat (sv_chunks sv C_ReadSource (ft_sourcePath t)) = bytes \<and> concat (sv_chunks sv C_Upload (ft_sourcePath t)) = bytes \<and>
     admitted sv cfg \<lparr>pc_transfer = t, pc_sourcePath = ft_sourcePath t, pc_sizeBytes = sz, pc_contentType = None\<rparr> w \<and>
     (pipeline_avEnabled (cfg_pipeline cfg) \<longrightarrow> str_includes (scan_reply sv (ft_sourcePath t)) ''OK'') \<and>
     s3_bucket (cfg_s3 cfg) \<in> set (w_buckets w) \<and>
     (if cs_enabled cs then crypto_sizes sv \<and> (\<exists>st wrapped. createEncryptStream sv cs = Inr (st, wrapped))
      else \<forall>multi e. normalizeEtag (sv_etag sv multi bytes) = Some e \<and> SINGLE_PART_ETAG e \<longrightarrow>
             toLowerCase e = toLowerCase (sv_md5 sv bytes))"

lemma good_file_cong:
  "w_usage w' = w_usage w \<Longrightarrow> w_buckets w' = w_buckets w \<Longrightarrow> good_file sv cfg cs t sz bytes w' = good_file sv cfg cs t sz bytes w"
  by (simp add: good_file_def admitted_def usage_of_def)

lemma prepare_succeeds:
  assumes "upload_calls_ok sv" "good_file sv cfg cs t sz bytes w"
  shows "\<exists>pr. prepare sv cfg cs t w = (Done pr, w) \<and> pr_sizeBytes pr = sz"
proof -
  let ?ctx = "\<lparr>pc_transfer = t, pc_sourcePath = ft_sourcePath t, pc_sizeBytes = sz, pc_contentType = None\<rparr>"
  have st: "stat_or_null sv (ft_sourcePath t) w = (Done (Some (True, sz)), w)"
    using assms(2) by (simp add: stat_or_null_def good_file_def try_catch_def gets_def call_Healthy upload_calls_okD[OF assms(1)])
  have "pipeline_run (PROCESSING_STEPS sv cfg) ?ctx w =
      (Done (?ctx\<lparr>pc_contentType := Some (mime_type (ft_filename t))\<rparr>), w)"
    using assms(2) by (simp add: pipeline_Done good_file_def upload_calls_okD[OF assms(1)])
  then show ?thesis
    using assms(2) st
    by (auto simp: prepare_def bnd_def computeFileChecksums_def gets_def ret_def good_file_def Let_def call_Healthy
        upload_calls_okD[OF assms(1)])
qed

lemma upload_succeeds:
  assumes "upload_calls_ok sv" "up_contentLength params = Some (int (length (up_body params)))" "s3_bucket cfg \<in> set (w_buckets w)"
  shows "\<exists>r w'. uploadStream sv cfg params w = (Done r, w')"
proof -
  let ?b = "target_bucket cfg params"
  have "\<exists>w1. (if ?b \<noteq> s3_bucket cfg then ensureBucket sv ?b else ret ()) w = (Done (), w1) \<and> ?b \<in> set (w_buckets w1)"
  proof (cases "?b = s3_bucket cfg")
    case True
    then show ?thesis using assms(3) by (simp add: ret_def)
  next
    case False
    have "\<exists>w1. ensureBucket sv ?b w = (Done (), w1)"
      by (simp add: ensureBucket_def try_catch_def head_bucket_def create_bucket_def modify_def call_Healthy
          upload_calls_okD[OF assms(1)])
    then show ?thesis using False ensureBucket_objects(2) by fastforce
  qed
  then obtain w1 where "(if ?b \<noteq> s3_bucket cfg then ensureBucket sv ?b else ret ()) w = (Done (), w1)"
    "?b \<in> set (w_buckets w1)" by blast
  then show ?thesis
    using assms(2) by (simp add: uploadStream_def seq_def bnd_def put_object_def ret_def Let_def call_Healthy
        upload_calls_okD[OF assms(1)])
qed

text \<open>After the upload the row becomes SUCCESS, and the rest is \<open>after_success\<close>.\<close>

abbreviation success_update :: "FileTransfer \<Rightarrow> Prepared \<Rightarrow> UploadResult \<Rightarrow> world \<Rightarrow> world" where
  "success_update t pr r w \<equiv> upd_transfer (ft_id t) (set_success (ur_bucket r) (ur_key r) (ur_etag r)
     (Some (fc_sha256 (pr_checksums pr))) (pr_wrappedDek pr \<noteq> None) (pr_wrappedDek pr) (w_now w)) w"

lemma complete_uploaded:
  assumes "sv_fault sv C_MarkSuccess = Healthy" "prepared_ok sv cfg cs t pr w0"
    and "uploadStream sv (cfg_s3 cfg) (pr_upload pr) w = (Done r, w1)" "etag_verified pr r"
  shows "complete sv cfg t pr w = after_success sv cfg t pr r (success_update t pr r w1)"
proof -
  have tr: "truthy (pr_wrappedDek pr) \<longleftrightarrow> pr_wrappedDek pr \<noteq> None" by (rule prepared_truthy[OF assms(2)])
  have "(if \<not> truthy (pr_wrappedDek pr) then verifyIntegrity (ur_etag r) (fc_md5 (pr_checksums pr)) else ret ()) w1 = (Done (), w1)"
    using assms(4) unfolding tr
    by (auto simp: verifyIntegrity_def etag_verified_def ret_def split: option.splits)
  then show ?thesis
    using assms(3)
    by (simp add: complete_def bnd_def[of "uploadStream _ _ _"] seq_def[of "if _ then _ else _"] bnd_def[of "if _ then _ else _"]
        markSuccess_def tr call_Healthy[OF assms(1)])
qed

lemma good_file_upload:
  assumes "upload_calls_ok sv" "good_file sv cfg cs t sz bytes w" "prepared_ok sv cfg cs t pr w" "pr_sizeBytes pr = sz"
  shows "\<exists>r w1. uploadStream sv (cfg_s3 cfg) (pr_upload pr) w = (Done r, w1) \<and> etag_verified pr r"
proof -
  have len: "up_contentLength (pr_upload pr) = Some (int (length (up_body (pr_upload pr))))"
  proof (cases "cs_enabled cs")
    case True
    then obtain st wrapped where e: "createEncryptStream sv cs = Inr (st, wrapped)"
      "up_body (pr_upload pr) = enc_run sv st (sv_chunks sv C_Upload (ft_sourcePath t))"
      "up_contentLength (pr_upload pr) = Some (sz + overheadBytes)" "crypto_sizes sv"
      using assms(2-4) by (auto simp: prepared_ok_def good_file_def)
    then show ?thesis
      using assms(2) by (simp add: createEncryptStream_seal(1) seal_def crypto_sizes_def overheadBytes_def good_file_def Let_def)
  qed (use assms in \<open>auto simp: prepared_ok_def good_file_def\<close>)
  have "s3_bucket (cfg_s3 cfg) \<in> set (w_buckets w)" using assms(2) by (simp add: good_file_def)
  from upload_succeeds[OF assms(1) len this] obtain r w1 where run: "uploadStream sv (cfg_s3 cfg) (pr_upload pr) w = (Done r, w1)"
    by blast
  have "etag_verified pr r"
  proof (cases "cs_enabled cs")
    case True
    then show ?thesis using assms(3) by (auto simp: prepared_ok_def etag_verified_def)
  next
    case False
    with uploadStream_Done[OF run] assms(2,3) show ?thesis
      by (auto simp: prepared_ok_def good_file_def etag_verified_def)
  qed
  with run show ?thesis by blast
qed

lemma find_started:
  assumes "find_transfer i w = Some t"
  shows "find_transfer i (upd_transfer i (set_processing now) (incInFlight w)) = Some (set_processing now t)"
  using assms by (simp add: processing.patch_find_same incInFlight_def)

text \<open>The whole run of a good file, up to and including the row's SUCCESS.\<close>

lemma run_until_success:
  assumes "upload_calls_ok sv" "find_transfer (job_id job) w = Some t" "ft_status t \<noteq> SUCCESS"
    and "good_file sv cfg cs t sz bytes w"
  obtains pr r w1 where "prepared_ok sv cfg cs t pr w" "pr_sizeBytes pr = sz"
    "find_transfer (job_id job) w1 = Some (set_processing (w_now w) t)"
    "w_usage w1 = w_usage w" "w_metrics w1 = w_metrics (incInFlight w)" "w_dlq w1 = w_dlq w"
    "w_deliveries w1 = w_deliveries w" "w_subs w1 = w_subs w" "uploaded cfg t pr r w1"
    "process_job sv cfg cs job w =
       try_finally (try_catch (after_success sv cfg t pr r) (on_error sv cfg t)) (\<lambda>w. endTimer (decInFlight w))
         (success_update t pr r w1)"
proof -
  have i: "ft_id t = job_id job" using assms(2) by (auto dest: row_find_SomeD)
  define w0 where "w0 = upd_transfer (ft_id t) (set_processing (w_now w)) (incInFlight w)"
  have now: "w_now (incInFlight w) = w_now w" by (simp add: incInFlight_def)
  have good: "good_file sv cfg cs t sz bytes w0"
    using assms(4) by (subst good_file_cong) (simp_all add: w0_def incInFlight_def)
  obtain pr where pr: "prepare sv cfg cs t w0 = (Done pr, w0)" "pr_sizeBytes pr = sz"
    using prepare_succeeds[OF assms(1) good] by blast
  have ok0: "prepared_ok sv cfg cs t pr w0" using pr(1) by (rule prepare_Done)
  obtain r w1 where up: "uploadStream sv (cfg_s3 cfg) (pr_upload pr) w0 = (Done r, w1)" "etag_verified pr r"
    using good_file_upload[OF assms(1) good ok0 pr(2)] by blast
  have "complete sv cfg t pr w0 = after_success sv cfg t pr r (success_update t pr r w1)"
    by (rule complete_uploaded[OF upload_calls_okD(10)[OF assms(1)] ok0 up])
  then have body: "bnd (prepare sv cfg cs t) (complete sv cfg t) w0 = after_success sv cfg t pr r (success_update t pr r w1)"
    using pr(1) by (simp add: bnd_def)
  have "process_job sv cfg cs job w = guarded_body sv cfg cs t w0"
    using assms(2,3) by (simp add: process_job_runTransfer runTransfer_cases upload_calls_okD[OF assms(1)] markProcessing_def
        call_Healthy now w0_def)
  also have "\<dots> = try_finally (try_catch (after_success sv cfg t pr r) (on_error sv cfg t)) (\<lambda>w. endTimer (decInFlight w))
      (success_update t pr r w1)"
    by (simp add: try_finally_def try_catch_def body)
  finally have run: "process_job sv cfg cs job w = \<dots>" .
  have fr: "frame w_transfers (uploadStream sv (cfg_s3 cfg) (pr_upload pr))" "frame w_usage (uploadStream sv (cfg_s3 cfg) (pr_upload pr))"
    "frame w_metrics (uploadStream sv (cfg_s3 cfg) (pr_upload pr))" "frame w_dlq (uploadStream sv (cfg_s3 cfg) (pr_upload pr))"
    "frame w_deliveries (uploadStream sv (cfg_s3 cfg) (pr_upload pr))" "frame w_subs (uploadStream sv (cfg_s3 cfg) (pr_upload pr))"
    by (rule frame_upload; simp)+
  note parts = fr[THEN frame_runD, OF up(1)]
  have "prepared_ok sv cfg cs t pr w"
    using ok0 prepared_ok_usage[of w0 w] by (simp add: w0_def incInFlight_def)
  moreover have "find_transfer (job_id job) w1 = Some (set_processing (w_now w) t)"
    using find_started[OF assms(2)] parts(1) i by (simp add: w0_def)
  moreover have "uploaded cfg t pr r w1"
    using uploadStream_Done[OF up(1)] ok0 by (auto simp: uploaded_def prepared_ok_def)
  ultimately show ?thesis
    using that[of pr w1 r] pr(2) run parts by (simp add: w0_def incInFlight_def)
qed

lemma after_success_healthy:
  assumes "healthy sv"
  shows "after_success sv cfg t pr r w =
    publishTransferEvent sv (cfg_kafka cfg) t transfer_completed (completed_data r (pr_sizeBytes pr) (truthy (pr_wrappedDek pr)))
      (upsert_usage (ft_tenantId t) (pr_sizeBytes pr) (recordSuccess (pr_sizeBytes pr) w))"
  using assms by (simp add: after_success_def recordUsage_def)

text \<open>The run of a good file when nothing fails.\<close>

lemma good_run:
  assumes "healthy sv" "find_transfer (job_id job) w = Some t" "ft_status t \<noteq> SUCCESS"
    and "good_file sv cfg cs t sz bytes w"
  shows "\<exists>w' t' data. process_job sv cfg cs job w = (Done (), w') \<and>
     find_transfer (job_id job) w' = Some t' \<and> ft_status t' = SUCCESS \<and> ft_attempts t' = ft_attempts t + 1 \<and>
     usage_of (ft_tenantId t) w' = plus_object (usage_of (ft_tenantId t) w) sz \<and>
     m_success (w_metrics w') = m_success (w_metrics w) + 1 \<and> m_bytes (w_metrics w') = m_bytes (w_metrics w) + sz \<and>
     m_inFlight (w_metrics w') = m_inFlight (w_metrics w) \<and>
     w_deliveries w' = w_deliveries w @ map (\<lambda>s. delivery_job s (mk_event t transfer_completed data)) (fan_targets t transfer_completed w) \<and>
     w_dlq w' = w_dlq w"
proof -
  have i: "ft_id t = job_id job" using assms(2) by (auto dest: row_find_SomeD)
  obtain pr r w1 where sz: "pr_sizeBytes pr = sz" and row: "find_transfer (job_id job) w1 = Some (set_processing (w_now w) t)"
    and w1: "w_usage w1 = w_usage w" "w_metrics w1 = w_metrics (incInFlight w)" "w_dlq w1 = w_dlq w"
      "w_deliveries w1 = w_deliveries w" "w_subs w1 = w_subs w"
    and run: "process_job sv cfg cs job w =
       try_finally (try_catch (after_success sv cfg t pr r) (on_error sv cfg t)) (\<lambda>w. endTimer (decInFlight w))
         (success_update t pr r w1)"
    using run_until_success[OF healthy_upload_calls[OF assms(1)] assms(2-4)] by metis
  define d where "d = completed_data r sz (truthy (pr_wrappedDek pr))"
  define w2 where "w2 = upsert_usage (ft_tenantId t) sz (recordSuccess sz (success_update t pr r w1))"
  let ?p = "publishTransferEvent sv (cfg_kafka cfg) t transfer_completed d"
  obtain w3 where w3: "?p w2 = (Done (), w3)" using publish_healthy[OF assms(1)] by (metis prod.collapse)
  note parts = frame_publish_parts[THEN frame_runD, OF w3]
  have "process_job sv cfg cs job w = (Done (), endTimer (decInFlight w3))"
    using w3 by (simp add: run try_finally_def try_catch_def after_success_healthy[OF assms(1)] sz d_def w2_def)
  moreover have "w_deliveries w3 = w_deliveries w @ map (\<lambda>s. delivery_job s (mk_event t transfer_completed d)) (fan_targets t transfer_completed w)"
    using publish_deliveries[of sv "cfg_kafka cfg" t transfer_completed d w2] w3 w1
    by (auto simp: w2_def recordSuccess_def fan_targets_def active_subs_def)
  moreover have "usage_of (ft_tenantId t) w3 = plus_object (usage_of (ft_tenantId t) w) sz"
  proof -
    have "usage_of (ft_tenantId t) w3 = usage_of (ft_tenantId t) w2" using parts(3) by (simp add: usage_of_def)
    then show ?thesis
      unfolding w2_def usage_upsert_same using w1(1) by (simp add: usage_of_def recordSuccess_def)
  qed
  ultimately show ?thesis
    using row parts w1(2,3) i
    by (intro exI[of _ "endTimer (decInFlight w3)"] exI[of _ d])
      (auto simp: w2_def metric_defs find_success set_success_def set_processing_def usage_of_def)
qed

section \<open>The failing run\<close>

lemma pipeline_rejects:
  assumes "sv_fault sv C_GetUsage = Healthy" "sv_fault sv C_Scan = Healthy" "\<not> admitted sv cfg ctx w"
  shows "\<exists>m. pipeline_run (PROCESSING_STEPS sv cfg) ctx w = (Raised (NonRetryableError m), w)"
  using assms(3)
  by (auto simp: PROCESSING_STEPS_def bnd_def validation_execute_def quota_execute_def seq_def assertWithinQuota_def
      getUsage_def antivirus_execute_def scanFileWithClamd_eq contentType_execute_def call_Healthy assms(1,2)
      gets_def ret_def throw_def classify_def scan_reply_def admitted_def within_quota_def Let_def)

text \<open>The policy on the source of a row: a regular file that the pipeline admits.\<close>

definition policy_ok :: "services \<Rightarrow> app_config \<Rightarrow> FileTransfer \<Rightarrow> world \<Rightarrow> bool" where
  "policy_ok sv cfg t w \<longleftrightarrow> (\<exists>sz. sv_stat sv (ft_sourcePath t) = Some (True, sz) \<and>
     admitted sv cfg \<lparr>pc_transfer = t, pc_sourcePath = ft_sourcePath t, pc_sizeBytes = sz, pc_contentType = None\<rparr> w)"

lemma prepare_rejects:
  assumes "healthy sv" "\<not> policy_ok sv cfg t w"
  shows "\<exists>m. prepare sv cfg cs t w = (Raised (NonRetryableError m), w)"
proof -
  have st: "stat_or_null sv (ft_sourcePath t) w = (Done (sv_stat sv (ft_sourcePath t)), w)"
    using assms(1) by (simp add: stat_or_null_def try_catch_def gets_def)
  show ?thesis
  proof (cases "\<exists>sz. sv_stat sv (ft_sourcePath t) = Some (True, sz)")
    case True
    then obtain sz where sz: "sv_stat sv (ft_sourcePath t) = Some (True, sz)" by blast
    let ?ctx = "\<lparr>pc_transfer = t, pc_sourcePath = ft_sourcePath t, pc_sizeBytes = sz, pc_contentType = None\<rparr>"
    obtain m where "pipeline_run (PROCESSING_STEPS sv cfg) ?ctx w = (Raised (NonRetryableError m), w)"
      using pipeline_rejects[of sv cfg ?ctx w] assms sz by (auto simp: healthy_def policy_ok_def)
    then show ?thesis by (simp add: prepare_def bnd_def st sz)
  next
    case False
    then show ?thesis
      by (cases "sv_stat sv (ft_sourcePath t)") (auto simp: prepare_def bnd_def st throw_def)
  qed
qed

lemma on_error_healthy:
  assumes "healthy sv" "is_NonRetryable e"
  obtains w' where "on_error sv cfg t e w = (Done (), w')"
    "w_transfers w' = w_transfers (upd_transfer (ft_id t) (set_failed (err_message e) (w_now w)) w)"
    "w_dlq w' = w_dlq w @ [\<lparr>dl_transferId = ft_id t, dl_reason = err_message e\<rparr>]"
    "w_metrics w' = w_metrics (recordFailure w)" "w_objects w' = w_objects w" "w_usage w' = w_usage w"
proof -
  let ?p = "publishTransferEvent sv (cfg_kafka cfg) t transfer_failed [(''reason'', JStr (err_message e))]"
  let ?w = "recordFailure (upd_transfer (ft_id t) (set_failed (err_message e) (w_now w)) w)"
  obtain w1 where w1: "?p ?w = (Done (), w1)"
    using publish_healthy[OF assms(1)] by (metis prod.collapse)
  note parts = frame_publish_parts[THEN frame_runD, OF w1]
  have run: "on_error sv cfg t e w =
      (Done (), w1\<lparr>w_dlq := w_dlq w1 @ [\<lparr>dl_transferId = ft_id t, dl_reason = err_message e\<rparr>]\<rparr>)"
    using assms w1 by (simp add: on_error_def markFailed_def toDeadLetter_def seq_def[of ?p] bnd_def modify_def)
      (simp add: seq_def bnd_def w1)
  show ?thesis
    by (rule that[OF run])
      (use parts in \<open>simp_all add: recordFailure_def\<close>)
qed

section \<open>Properties\<close>

text \<open>C14: A good file is transferred: when no call fails, a run of the worker on a row that is not SUCCESS
  and whose source is a good file returns, the row is SUCCESS with one more attempt, the tenant's
  usage has one object and its bytes more, the success is counted and the in-flight gauge is back
  where it was, every subscriber of the tenant has its delivery job, and nothing is dead-lettered.\<close>

theorem good_file_is_transferred:
  assumes "healthy sv" "find_transfer (job_id job) w = Some t" "ft_status t \<noteq> SUCCESS"
    and "good_file sv cfg cs t sz bytes w"
  shows "\<exists>w' t' data. process_job sv cfg cs job w = (Done (), w') \<and>
     find_transfer (job_id job) w' = Some t' \<and> ft_status t' = SUCCESS \<and> ft_attempts t' = ft_attempts t + 1 \<and>
     usage_of (ft_tenantId t) w' = plus_object (usage_of (ft_tenantId t) w) sz \<and>
     m_success (w_metrics w') = m_success (w_metrics w) + 1 \<and> m_bytes (w_metrics w') = m_bytes (w_metrics w) + sz \<and>
     m_inFlight (w_metrics w') = m_inFlight (w_metrics w) \<and>
     w_deliveries w' = w_deliveries w @ map (\<lambda>s. delivery_job s (mk_event t transfer_completed data)) (fan_targets t transfer_completed w) \<and>
     w_dlq w' = w_dlq w"
  using assms by (rule good_run)

definition job1 :: TransferJob where
  "job1 = mk_job (Some 3) TRANSFER_JOB \<lparr>tj_transferId = ''t1'', tj_carrier = None\<rparr>"

definition cs_off :: CryptoService where
  "cs_off = \<lparr>cs_enabled = False, cs_kek = None\<rparr>"

definition world_t1 :: world where
  "world_t1 = world0\<lparr>w_transfers := [transfer1], w_buckets := [''landing'']\<rparr>"

lemma world_t1_row: "find_transfer (job_id job1) world_t1 = Some transfer1" "ft_status transfer1 \<noteq> SUCCESS"
  by (simp_all add: world_t1_def job1_def mk_job_def row_find_def transfer1_def)

lemma world_t1_good: "good_file sv0 cfg0 cs_off transfer1 2 [104, 105] world_t1"
proof -
  have "admitted sv0 cfg0 \<lparr>pc_transfer = transfer1, pc_sourcePath = ft_sourcePath transfer1, pc_sizeBytes = 2, pc_contentType = None\<rparr> world_t1"
    "str_includes (scan_reply sv0 (ft_sourcePath transfer1)) ''OK''"
    using ctx1_admitted by (simp_all add: admitted_def usage_of_def world_t1_def ctx1_def transfer1_def)
  then show ?thesis
    by (simp add: good_file_def sv0_def cs_off_def world_t1_def cfg0_def normalizeEtag_def show_bytes_def SINGLE_PART_ETAG_def)
qed

lemma world_t1_good_encrypted: "good_file sv0 cfg0 cs1 transfer1 2 [104, 105] world_t1"
  using world_t1_good create_sv0 crypto_sizes_sv0 by (simp add: good_file_def cs1_def cs_off_def)

theorem good_file_is_transferred_witness:
  "\<exists>w'. process_job sv0 cfg0 cs_off job1 world_t1 = (Done (), w') \<and>
     map_option ft_status (find_transfer ''t1'' w') = Some SUCCESS"
proof -
  have "job_id job1 = ''t1''" by (simp add: job1_def mk_job_def)
  then show ?thesis
    using good_file_is_transferred[OF healthy_sv0 world_t1_row world_t1_good] by auto
qed

text \<open>C15: A policy violation is final: when no call fails and the source is not a regular file that the
  pipeline admits, the run returns (so BullMQ does not retry), the row is FAILED with the reason,
  the same reason is dead-lettered and counted, and neither the object store nor the usage has
  changed.\<close>

theorem policy_violation_is_final:
  assumes "healthy sv" "find_transfer (job_id job) w = Some t" "ft_status t \<noteq> SUCCESS" "\<not> policy_ok sv cfg t w"
  shows "\<exists>w' t' m. process_job sv cfg cs job w = (Done (), w') \<and>
     find_transfer (job_id job) w' = Some t' \<and> ft_status t' = FAILED \<and> ft_errorLog t' = Some m \<and>
     w_dlq w' = w_dlq w @ [\<lparr>dl_transferId = job_id job, dl_reason = m\<rparr>] \<and>
     m_failed (w_metrics w') = m_failed (w_metrics w) + 1 \<and> m_inFlight (w_metrics w') = m_inFlight (w_metrics w) \<and>
     w_objects w' = w_objects w \<and> w_usage w' = w_usage w"
proof -
  have i: "ft_id t = job_id job" using assms(2) by (auto dest: row_find_SomeD)
  define w0 where "w0 = upd_transfer (ft_id t) (set_processing (w_now w)) (incInFlight w)"
  have now: "w_now (incInFlight w) = w_now w" by (simp add: incInFlight_def)
  have "\<not> policy_ok sv cfg t w0"
    using assms(4) by (simp add: policy_ok_def admitted_def usage_of_def w0_def incInFlight_def)
  then obtain m where rej: "prepare sv cfg cs t w0 = (Raised (NonRetryableError m), w0)"
    using prepare_rejects[OF assms(1)] by blast
  obtain w1 where err: "on_error sv cfg t (NonRetryableError m) w0 = (Done (), w1)" 
    "w_transfers w1 = w_transfers (upd_transfer (ft_id t) (set_failed m (w_now w0)) w0)"
    "w_dlq w1 = w_dlq w0 @ [\<lparr>dl_transferId = ft_id t, dl_reason = m\<rparr>]" "w_metrics w1 = w_metrics (recordFailure w0)"
    "w_objects w1 = w_objects w0" "w_usage w1 = w_usage w0"
    by (rule on_error_healthy[OF assms(1), of "NonRetryableError m" cfg t w0]) simp_all
  have "process_job sv cfg cs job w = guarded_body sv cfg cs t w0"
    using assms(1-3) by (simp add: process_job_runTransfer runTransfer_cases healthy_def[symmetric] markProcessing_def now w0_def)
      (simp add: healthy_def)
  then have run: "process_job sv cfg cs job w = (Done (), endTimer (decInFlight w1))"
    using rej err(1) by (simp add: try_finally_def try_catch_def bnd_def)
  have row: "find_transfer (job_id job) w1 = Some (set_failed m (w_now w0) (set_processing (w_now w) t))"
    using find_started[OF assms(2)] i
    by (simp add: err(2) failed.patch_find_same) (simp add: w0_def)
  show ?thesis
    by (rule exI[of _ "endTimer (decInFlight w1)"], rule exI[of _ "set_failed m (w_now w0) (set_processing (w_now w) t)"],
        rule exI[of _ m])
      (use run row err(3-6) i in \<open>simp add: metric_defs set_failed_def w0_def\<close>)
qed

theorem policy_violation_is_final_witness:
  "\<exists>w'. process_job (sv0\<lparr>sv_stat := \<lambda>_. None\<rparr>) cfg0 cs_off job1 world_t1 = (Done (), w') \<and>
     map_option ft_status (find_transfer ''t1'' w') = Some FAILED \<and> length (w_dlq w') = 1"
proof -
  have "job_id job1 = ''t1''" "w_dlq world_t1 = []" by (simp_all add: job1_def mk_job_def world_t1_def world0_def)
  moreover have "healthy (sv0\<lparr>sv_stat := \<lambda>_. None\<rparr>)" "\<not> policy_ok (sv0\<lparr>sv_stat := \<lambda>_. None\<rparr>) cfg0 transfer1 world_t1"
    by (simp_all add: healthy_def sv0_def policy_ok_def)
  ultimately show ?thesis
    using policy_violation_is_final[OF _ world_t1_row, of "sv0\<lparr>sv_stat := \<lambda>_. None\<rparr>" cfg0 cs_off] by auto
qed

text \<open>Duplicate jobs are absorbed: a job for a row that is SUCCESS (or is gone) returns without
  changing anything, so publishing an event twice does no work twice.\<close>

theorem duplicate_job_is_noop:
  assumes "sv_fault sv C_FindById = Healthy"
    and "\<And>t. find_transfer (job_id job) w = Some t \<Longrightarrow> ft_status t = SUCCESS"
  shows "process_job sv cfg cs job w = (Done (), w) \<and> settle_job sv svf cfg cs job w = w"
proof -
  have "process_job sv cfg cs job w = (Done (), w)"
    using assms by (auto simp: process_job_runTransfer runTransfer_cases split: option.splits)
  then show ?thesis by (simp add: settle_job_def)
qed

theorem duplicate_job_is_noop_witness:
  "settle_job sv0 sv0 cfg0 cs_off job1 (world_t1\<lparr>w_transfers := [transfer1\<lparr>ft_status := SUCCESS\<rparr>]\<rparr>) =
     world_t1\<lparr>w_transfers := [transfer1\<lparr>ft_status := SUCCESS\<rparr>]\<rparr>"
  by (rule duplicate_job_is_noop[THEN conjunct2]) (auto simp: sv0_def row_find_def split: if_splits)

text \<open>Retries: after a rejected attempt with attempts left, the job is queued again with one attempt
  more and the state is otherwise as the attempt left it; with none left, when the failure handler's calls
  succeed, the row is FAILED with a message that names the last error, the dead letter has the
  same message, the failure is counted and the job is not queued again.\<close>

theorem retry_protocol:
  assumes "process_job sv cfg cs job w = (Raised e, w1)" "healthy svf"
  defines "w' \<equiv> settle_job sv svf cfg cs job w"
    and "msg \<equiv> ''Exhausted '' @ show_int (totalAttempts job) @ '' attempts. Last error: '' @ errMessage e"
  shows "if qj_attemptsMade job + 1 < totalAttempts job
    then w' = w1\<lparr>w_queue := w_queue w1 @ [job\<lparr>qj_attemptsMade := qj_attemptsMade job + 1\<rparr>]\<rparr>
    else failed_row (job_id job) msg w' \<and> w_queue w' = w_queue w1 \<and>
      w_dlq w' = w_dlq w1 @ [\<lparr>dl_transferId = job_id job, dl_reason = msg\<rparr>] \<and>
      m_failed (w_metrics w') = m_failed (w_metrics w1) + 1"
proof (cases "qj_attemptsMade job + 1 < totalAttempts job")
  case True
  then show ?thesis
    using assms(1) by (simp add: w'_def settle_job_def onFailed_def ret_def job_failed_once_def totalAttempts_def Let_def)
next
  case False
  then have f: "\<not> qj_attemptsMade (job_failed_once job) < totalAttempts (job_failed_once job)"
    by (simp add: job_failed_once_def totalAttempts_def)
  have "exhausted_message (job_failed_once job) e = msg" by (simp add: exhausted_message_def msg_def)
  with onFailed_exhausted[OF assms(2) f, where cfg = cfg and err = e and w = w1] False f show ?thesis
    using assms(1) by (simp add: w'_def settle_job_def recordFailure_def Let_def)
qed

theorem retry_protocol_witness:
  "let e = JsError ''Error'' ''down''; sv = with_fault C_FindById (FailBefore e) sv0 in
   settle_job sv sv0 cfg0 cs_off job1 world_t1 =
     world_t1\<lparr>w_queue := [job1\<lparr>qj_attemptsMade := 1\<rparr>]\<rparr>"
proof -
  have run: "process_job (with_fault C_FindById (FailBefore (JsError ''Error'' ''down'')) sv0) cfg0 cs_off job1 world_t1 =
      (Raised (JsError ''Error'' ''down''), world_t1)"
    by (simp add: process_job_runTransfer runTransfer_cases)
  from retry_protocol[OF run healthy_sv0] show ?thesis
    by (simp add: job1_def mk_job_def totalAttempts_def world_t1_def world0_def)
qed

text \<open>The run of the sample row, on which the properties of the worker are applied.\<close>

lemma sample_run:
  assumes "good_file sv0 cfg0 cs transfer1 2 [104, 105] world_t1"
  obtains w' t' where "process_job sv0 cfg0 cs job1 world_t1 = (Done (), w')"
    "find_transfer (job_id job1) w' = Some t'" "ft_status t' = SUCCESS"
  using good_run[OF healthy_sv0 world_t1_row assms] by blast

theorem success_means_stored_witness:
  "\<exists>body. w_objects (snd (process_job sv0 cfg0 cs_off job1 world_t1)) (''reports'', ''csv/alice/in/q.csv'') =
     Some \<lparr>so_body = body, so_contentType = Some (mime_type ''q.csv'')\<rparr>"
proof -
  obtain w' t' where run: "process_job sv0 cfg0 cs_off job1 world_t1 = (Done (), w')"
    "find_transfer (job_id job1) w' = Some t'" "ft_status t' = SUCCESS" by (rule sample_run[OF world_t1_good])
  have rt: "rt_bucket (route cfg0 transfer1) = ''reports''" "rt_key (route cfg0 transfer1) = ''csv/alice/in/q.csv''"
    "ft_filename transfer1 = ''q.csv''"
    by (simp_all add: cfg0_def route_def route_resolve_def rule_matches_def transfer1_def truthy_def extname_def
        segs_def toLowerCase_def lower_char_def strip_dot_def strip_slashes_def Let_def char_of_def bit_0)
  from success_means_stored[OF world_t1_row, of sv0 cfg0 cs_off t'] run show ?thesis by (auto simp: rt)
qed


theorem job_footprint_witness:
  "transfers_ok (snd (process_job (with_fault C_Upload CrashAfter sv0) cfg0 cs_off job1 world_t1))"
proof -
  have "transfers_ok world_t1" by (simp add: transfers_ok_def world_t1_def row_wf_def transfer1_def)
  from job_footprint[OF this, of job1 "(rt_bucket (route cfg0 transfer1), rt_key (route cfg0 transfer1))" cfg0
      "with_fault C_Upload CrashAfter sv0" cs_off sv0 "JsError [] []"] world_t1_row(1)
  show ?thesis by (simp add: Let_def)
qed

section \<open>Where the code departs from its documentation\<close>

text \<open>The in-flight gauge is balanced by a run only when marking the row PROCESSING succeeds: that call
  stands after the increment and before the try block, so when it rejects, the gauge stays one too
  high for good.\<close>

theorem in_flight_gauge_leaks:
  assumes "sv_fault sv C_FindById = Healthy" "find_transfer (job_id job) w = Some t" "ft_status t \<noteq> SUCCESS"
    and "fst (process_job sv cfg cs job w) \<noteq> Crashed"
  shows "m_inFlight (w_metrics (snd (process_job sv cfg cs job w))) =
    m_inFlight (w_metrics w) + (if sv_fault sv C_MarkProcessing = Healthy then 0 else 1)"
proof -
  let ?f = "\<lambda>w. m_inFlight (w_metrics w)"
  have run: "process_job sv cfg cs job w = seq (markProcessing sv (ft_id t)) (guarded_body sv cfg cs t) (incInFlight w)"
    using assms(1-3) by (simp add: process_job_runTransfer runTransfer_cases)
  have fr: "frame ?f (publishTransferEvent sv k t ty d)" for k t ty d by (rule frame_publish) simp_all
  have ev: "frame ?f (complete sv cfg t pr)" "frame ?f (on_error sv cfg t e)" for pr e
    unfolding complete_def after_success_def on_error_def
    by (intro eff fr frame_upload frame_modify_transfer frame_modify frame_recordUsage frame_toDeadLetter;
        simp add: recordSuccess_def recordFailure_def)+
  have body: "frame ?f (try_catch (bnd (prepare sv cfg cs t) (complete sv cfg t)) (on_error sv cfg t))"
    by (intro eff ev)
  have fin: "?f (snd (guarded_body sv cfg cs t u)) = ?f u - 1" if "fst (guarded_body sv cfg cs t u) \<noteq> Crashed" for u
    using that frameD[OF body, of u]
    by (auto simp: try_finally_def endTimer_def decInFlight_def split: prod.splits outcome.splits)
  show ?thesis
  proof (cases "sv_fault sv C_MarkProcessing")
    case Healthy
    then show ?thesis
      using assms(4) fin unfolding run by (auto simp: markProcessing_def call_Healthy incInFlight_def)
  qed (use assms(4) in \<open>auto simp: run markProcessing_def call_def await_def modify_def seq_def bnd_def incInFlight_def\<close>)
qed

theorem in_flight_gauge_leaks_witness:
  "m_inFlight (w_metrics (snd (process_job (with_fault C_MarkProcessing (FailBefore (JsError ''Error'' ''down'')) sv0) cfg0 cs_off job1 world_t1))) = 1"
proof -
  let ?sv = "with_fault C_MarkProcessing (FailBefore (JsError ''Error'' ''down'')) sv0"
  have "sv_fault ?sv C_FindById = Healthy" by (simp add: sv0_def)
  moreover have "fst (process_job ?sv cfg0 cs_off job1 world_t1) \<noteq> Crashed"
    using world_t1_row by (simp add: process_job_runTransfer runTransfer_cases markProcessing_def call_def await_def seq_def bnd_def sv0_def)
  ultimately show ?thesis
    using in_flight_gauge_leaks[OF _ world_t1_row, of ?sv cfg0 cs_off]
    by (simp add: world_t1_def world0_def metrics0_def)
qed



text \<open>C37: Relayed jobs are not retried: the jobs the outbox relay publishes carry no attempts option (its
  module registers the queue without default job options), so the first transient failure
  finalizes the row as FAILED and dead-letters it, whatever TRANSFER_MAX_ATTEMPTS is.\<close>

theorem relayed_jobs_are_not_retried:
  assumes "process_job sv cfg cs (job_of evt) w = (Raised e, w1)" "healthy svf"
  defines "w' \<equiv> settle_job sv svf cfg cs (job_of evt) w"
  shows "w_queue w' = w_queue w1 \<and> job_id (job_of evt) \<in> dl_transferId ` set (w_dlq w') \<and>
    (\<exists>m. failed_row (job_id (job_of evt)) (''Exhausted 1 attempts. Last error: '' @ m) w')"
proof -
  have tot: "totalAttempts (job_of evt) = 1" "qj_attemptsMade (job_of evt) = 0"
    by (simp_all add: totalAttempts_def job_of_def mk_job_def outbox_queue_attempts_def)
  then have ex: "\<not> qj_attemptsMade (job_failed_once (job_of evt)) < totalAttempts (job_failed_once (job_of evt))"
    by (simp add: job_failed_once_def totalAttempts_def)
  have w': "w' = snd (onFailed svf cfg (job_failed_once (job_of evt)) e w1)"
    using assms(1) ex by (simp add: w'_def settle_job_def Let_def)
  have "exhausted_message (job_failed_once (job_of evt)) e = ''Exhausted 1 attempts. Last error: '' @ errMessage e"
    using tot by (simp add: exhausted_message_def show_int_def show_nat.simps digit_char_def char_of_def bit_0)
  with onFailed_exhausted[OF assms(2) ex, where cfg = cfg and err = e and w = w1] show ?thesis
    unfolding w' by auto
qed

theorem relayed_jobs_are_not_retried_witness:
  "w_queue (settle_job (with_fault C_FindById (FailBefore (JsError ''Error'' ''down'')) sv0) sv0 cfg0 cs_off
     (job_of (new_event ''e1'' 0 transfer1 [])) world_t1) = []"
proof -
  let ?sv = "with_fault C_FindById (FailBefore (JsError ''Error'' ''down'')) sv0"
  have "process_job ?sv cfg0 cs_off (job_of (new_event ''e1'' 0 transfer1 [])) world_t1 = (Raised (JsError ''Error'' ''down''), world_t1)"
    by (simp add: process_job_runTransfer runTransfer_cases)
  from relayed_jobs_are_not_retried[OF this healthy_sv0] show ?thesis by (simp add: world_t1_def world0_def)
qed

end
