(* ===== verification/Access.thy ===== *)
theory Access
  imports Services Config
begin

text \<open>
  \<^verbatim>\<open>auth/\<close>: users, login, the JWT principal and the role guard. bcrypt and the JWT library are
  parameters, collected in one record; what a property needs of them it names as a hypothesis.
\<close>

section \<open>The libraries\<close>

record JwtPayload =
  jp_sub :: string
  jp_username :: string
  jp_roles :: "Role list"
  jp_tenantId :: string

record auth_lib =
  al_hash :: "string \<Rightarrow> string"
    \<comment> \<open>\<^verbatim>\<open>bcrypt.hash(password, rounds)\<close>\<close>
  al_compare :: "string \<Rightarrow> string \<Rightarrow> bool"
    \<comment> \<open>\<^verbatim>\<open>bcrypt.compare(password, hash)\<close>\<close>
  al_sign :: "JwtPayload \<Rightarrow> string"
    \<comment> \<open>\<^verbatim>\<open>jwt.sign(payload)\<close> with the configured secret\<close>
  al_verify :: "string \<Rightarrow> JwtPayload option"
    \<comment> \<open>the payload of a token whose signature and expiry passport-jwt accepts\<close>

section \<open>AuthService\<close>

definition find_user :: "string \<Rightarrow> world \<Rightarrow> User option" where
  "find_user username w = row_find us_username username (w_users w)"

text \<open>The INSERT; \<^verbatim>\<open>id\<close> is the primary key, \<^verbatim>\<open>username\<close> has a unique index.\<close>

definition insert_user :: "string \<Rightarrow> string \<Rightarrow> string \<Rightarrow> Role list \<Rightarrow> string \<Rightarrow> (world, User) act" where
  "insert_user i username passwordHash roles tenantId = (\<lambda>w.
     let user = \<lparr>us_id = i, us_username = username, us_passwordHash = passwordHash, us_tenantId = tenantId,
                 us_roles = roles, us_createdAt = w_now w, us_updatedAt = w_now w\<rparr>
     in if i \<in> us_id ` set (w_users w) \<or> username \<in> us_username ` set (w_users w)
        then (Raised (QueryFailedError ''23505'' ''duplicate key value''), w)
        else (Done user, w\<lparr>w_users := w_users w @ [user]\<rparr>))"

text \<open>The bootstrap admin; the column \<^verbatim>\<open>tenant_id\<close> has the default \<^verbatim>\<open>'default'\<close>.\<close>

definition auth_onModuleInit :: "services \<Rightarrow> auth_lib \<Rightarrow> auth_section \<Rightarrow> (world, unit) act" where
  "auth_onModuleInit sv al auth =
     bnd (call sv C_CountUsers (gets (\<lambda>w. length (w_users w)))) (\<lambda>n.
       if n > 0 then ret ()
       else seq (call sv C_SaveUser (insert_user (sv_uuid sv ''users'') (auth_adminUsername auth)
                   (al_hash al (auth_adminPassword auth)) [ADMIN] ''default''))
              (ret ()))"

definition validateUser :: "services \<Rightarrow> auth_lib \<Rightarrow> string \<Rightarrow> string \<Rightarrow> (world, AuthUser option) act" where
  "validateUser sv al username password =
     bnd (call sv C_FindUser (gets (find_user username))) (\<lambda>user.
       case user of
         None \<Rightarrow> ret None
       | Some u \<Rightarrow>
           if \<not> al_compare al password (us_passwordHash u) then ret None
           else ret (Some \<lparr>au_userId = us_id u, au_username = us_username u, au_roles = us_roles u,
                           au_tenantId = us_tenantId u\<rparr>))"

record LoginResult =
  lr_access_token :: string
  lr_expires_in :: string
  lr_roles :: "Role list"

definition login :: "services \<Rightarrow> auth_lib \<Rightarrow> auth_section \<Rightarrow> string \<Rightarrow> string \<Rightarrow> (world, LoginResult) act" where
  "login sv al auth username password =
     bnd (validateUser sv al username password) (\<lambda>user.
       case user of
         None \<Rightarrow> throw (HttpException 401 ''UnauthorizedException'' ''Invalid credentials'')
       | Some u \<Rightarrow>
           ret \<lparr>lr_access_token = al_sign al \<lparr>jp_sub = au_userId u, jp_username = au_username u,
                  jp_roles = au_roles u, jp_tenantId = au_tenantId u\<rparr>,
                lr_expires_in = auth_jwtExpiresIn auth, lr_roles = au_roles u\<rparr>)"

text \<open>\<^verbatim>\<open>POST /v1/auth/login\<close>.\<close>

record LoginDto =
  ld_username :: string
  ld_password :: string

definition login_dto_valid :: "LoginDto \<Rightarrow> bool" where
  "login_dto_valid dto \<longleftrightarrow> ld_username dto \<noteq> [] \<and> ld_password dto \<noteq> []"

definition post_login :: "services \<Rightarrow> auth_lib \<Rightarrow> auth_section \<Rightarrow> LoginDto \<Rightarrow> (world, LoginResult) act" where
  "post_login sv al auth dto =
     (if login_dto_valid dto then login sv al auth (ld_username dto) (ld_password dto)
      else throw (HttpException 400 ''BadRequestException'' ''Bad Request Exception''))"

record CreateUserDto =
  cu_username :: string
  cu_password :: string
  cu_roles :: "Role list"
  cu_tenantId :: "string option"

definition user_dto_valid :: "CreateUserDto \<Rightarrow> bool" where
  "user_dto_valid dto \<longleftrightarrow> cu_username dto \<noteq> [] \<and> 8 \<le> length (cu_password dto) \<and> cu_roles dto \<noteq> []"

definition createUser ::
    "services \<Rightarrow> auth_lib \<Rightarrow> tenancy_section \<Rightarrow> CreateUserDto \<Rightarrow> (world, AuthUser) act" where
  "createUser sv al tenancy input =
     bnd (call sv C_ExistUser (gets (\<lambda>w. find_user (cu_username input) w \<noteq> None))) (\<lambda>exists.
       if exists then
         throw (HttpException 409 ''ConflictException''
           (''User '' @ [CHR 0x22] @ cu_username input @ [CHR 0x22] @ '' already exists''))
       else
         bnd (call sv C_SaveUser (insert_user (sv_uuid sv ''users'') (cu_username input)
                (al_hash al (cu_password input)) (cu_roles input)
                (case cu_tenantId input of None \<Rightarrow> tenancy_defaultTenant tenancy | Some t \<Rightarrow> t)))
           (\<lambda>u. ret \<lparr>au_userId = us_id u, au_username = us_username u, au_roles = us_roles u,
                     au_tenantId = us_tenantId u\<rparr>))"

section \<open>Guards\<close>

text \<open>\<^verbatim>\<open>JwtStrategy.validate\<close>: the payload becomes the principal.\<close>

definition jwt_validate :: "JwtPayload \<Rightarrow> AuthUser" where
  "jwt_validate p =
     \<lparr>au_userId = jp_sub p, au_username = jp_username p, au_roles = jp_roles p, au_tenantId = jp_tenantId p\<rparr>"

definition jwt_guard :: "auth_lib \<Rightarrow> string option \<Rightarrow> (world, AuthUser) act" where
  "jwt_guard al bearer =
     (case Option.bind bearer (al_verify al) of
        None \<Rightarrow> throw (HttpException 401 ''UnauthorizedException'' ''Unauthorized'')
      | Some p \<Rightarrow> ret (jwt_validate p))"

fun role_name :: "Role \<Rightarrow> string" where
  "role_name ADMIN = ''admin''"
| "role_name OPERATOR = ''operator''"
| "role_name VIEWER = ''viewer''"

text \<open>\<^verbatim>\<open>RolesGuard.canActivate\<close>, for the roles the handler or its class requires.\<close>

definition roles_canActivate :: "Role list option \<Rightarrow> AuthUser option \<Rightarrow> (world, bool) act" where
  "roles_canActivate required user =
     (case required of
        None \<Rightarrow> ret True
      | Some rs \<Rightarrow>
          if rs = [] then ret True
          else
            let roles = (case user of None \<Rightarrow> [] | Some u \<Rightarrow> au_roles u) in
            if \<not> (\<exists>r\<in>set rs. r \<in> set roles) then
              throw (HttpException 403 ''ForbiddenException''
                (''Requires one of roles: '' @ join_with '', '' (map role_name rs)))
            else ret True)"

text \<open>A route of a controller with \<^verbatim>\<open>@UseGuards(JwtAuthGuard, RolesGuard)\<close> and \<^verbatim>\<open>@Roles(...)\<close>.\<close>

definition guarded ::
    "auth_lib \<Rightarrow> Role list \<Rightarrow> string option \<Rightarrow> (AuthUser \<Rightarrow> (world, 'a) act) \<Rightarrow> (world, 'a) act" where
  "guarded al roles bearer handler =
     bnd (jwt_guard al bearer) (\<lambda>user.
       seq (roles_canActivate (Some roles) (Some user)) (handler user))"

text \<open>\<^verbatim>\<open>POST /v1/users\<close>.\<close>

definition users_create ::
    "services \<Rightarrow> auth_lib \<Rightarrow> tenancy_section \<Rightarrow> string option \<Rightarrow> CreateUserDto \<Rightarrow> (world, AuthUser) act" where
  "users_create sv al tenancy bearer dto =
     guarded al [ADMIN] bearer (\<lambda>_.
       if user_dto_valid dto then createUser sv al tenancy dto
       else throw (HttpException 400 ''BadRequestException'' ''Bad Request Exception''))"

section \<open>Lemmas\<close>

definition users_ok :: "world \<Rightarrow> bool" where
  "users_ok w \<longleftrightarrow> distinct (map us_id (w_users w)) \<and> distinct (map us_username (w_users w))"

lemma keeps_users_insert: "keeps users_ok (insert_user i u h r t)"
  by (auto simp: keeps_def insert_user_def users_ok_def Let_def)

lemma guarded_Done:
  "guarded al roles bearer handler w = (Done a, w') \<Longrightarrow>
   \<exists>p. Option.bind bearer (al_verify al) = Some p \<and> (roles = [] \<or> set roles \<inter> set (jp_roles p) \<noteq> {}) \<and>
     handler (jwt_validate p) w = (Done a, w')"
  by (auto simp: guarded_def jwt_guard_def roles_canActivate_def bnd_Done_iff seq_Done_iff jwt_validate_def Let_def
      split: option.splits if_splits)

text \<open>What a guarded route is: its handler, run as the principal of the token, exactly where the token
  verifies and carries one of the roles; 401 or 403 with nothing changed elsewhere.\<close>

lemma guarded_run:
  "guarded al roles bearer handler w =
     (case Option.bind bearer (al_verify al) of
        None \<Rightarrow> (Raised (HttpException 401 ''UnauthorizedException'' ''Unauthorized''), w)
      | Some p \<Rightarrow>
          if roles = [] \<or> set roles \<inter> set (jp_roles p) \<noteq> {} then handler (jwt_validate p) w
          else (Raised (HttpException 403 ''ForbiddenException''
                 (''Requires one of roles: '' @ join_with '', '' (map role_name roles))), w))"
  by (auto simp: guarded_def jwt_guard_def roles_canActivate_def jwt_validate_def seq_def bnd_def throw_def ret_def Let_def
      split: option.splits)

section \<open>Properties\<close>

text \<open>C29: Created users can log in as what they were created: after the route for administrators created a
  user, the login route with that name and password succeeds, and the token it returns, presented to the guard, gives
  the principal with exactly the roles and the tenant of the creation. (Hypotheses: bcrypt accepts
  the password it hashed, and the JWT library verifies what it signed.)\<close>

theorem created_user_can_login:
  assumes "users_create sv al tenancy bearer dto w = (Done u, w1)"
    and "al_compare al (cu_password dto) (al_hash al (cu_password dto))"
    and "let p = \<lparr>jp_sub = au_userId u, jp_username = au_username u, jp_roles = au_roles u, jp_tenantId = au_tenantId u\<rparr>
         in al_verify al (al_sign al p) = Some p" "sv_fault sv' C_FindUser = Healthy"
  shows "\<exists>r. post_login sv' al auth \<lparr>ld_username = cu_username dto, ld_password = cu_password dto\<rparr> w1 = (Done r, w1) \<and> lr_roles r = cu_roles dto \<and>
     jwt_guard al (Some (lr_access_token r)) w1 = (Done u, w1) \<and> au_roles u = cu_roles dto \<and>
     au_tenantId u = (case cu_tenantId dto of None \<Rightarrow> tenancy_defaultTenant tenancy | Some t \<Rightarrow> t)"
proof -
  from assms(1) have run: "createUser sv al tenancy dto w = (Done u, w1)" and "user_dto_valid dto"
    by (auto simp: users_create_def guarded_run throw_def split: option.splits if_splits)
  then have ok: "login_dto_valid \<lparr>ld_username = cu_username dto, ld_password = cu_password dto\<rparr>"
    by (auto simp: user_dto_valid_def login_dto_valid_def)
  let ?t = "case cu_tenantId dto of None \<Rightarrow> tenancy_defaultTenant tenancy | Some t \<Rightarrow> t"
  let ?row = "\<lparr>us_id = sv_uuid sv ''users'', us_username = cu_username dto, us_passwordHash = al_hash al (cu_password dto),
    us_tenantId = ?t, us_roles = cu_roles dto, us_createdAt = w_now w, us_updatedAt = w_now w\<rparr>"
  have w1: "w1 = w\<lparr>w_users := w_users w @ [?row]\<rparr>" "cu_username dto \<notin> us_username ` set (w_users w)"
    "u = \<lparr>au_userId = sv_uuid sv ''users'', au_username = cu_username dto, au_roles = cu_roles dto, au_tenantId = ?t\<rparr>"
    using run
    by (auto simp: createUser_def bnd_Done_iff call_Done_iff insert_user_def Let_def split: if_splits)
  then have "row_find us_username (cu_username dto) (w_users w) = None" by (simp add: row_find_None_iff)
  then have "find_user (cu_username dto) w1 = Some ?row"
    by (simp add: find_user_def w1(1) row_find_append) (simp add: row_find_def)
  then show ?thesis
    using assms(2-4) ok
    by (simp add: post_login_def login_def validateUser_def call_Healthy bnd_def gets_def ret_def w1(3) jwt_guard_def jwt_validate_def Let_def)
qed

definition dto1 :: CreateUserDto where
  "dto1 = \<lparr>cu_username = ''bob'', cu_password = ''password1'', cu_roles = [OPERATOR], cu_tenantId = Some ''acme''\<rparr>"

definition al0 :: auth_lib where
  "al0 = \<lparr>al_hash = (\<lambda>p. ''h'' @ p), al_compare = (\<lambda>p h. h = ''h'' @ p), al_sign = (\<lambda>p. ''token of '' @ jp_username p),
     al_verify = (\<lambda>t. if t = ''token of root''
        then Some \<lparr>jp_sub = ''users-0'', jp_username = ''root'', jp_roles = [ADMIN], jp_tenantId = ''default''\<rparr>
        else if t = ''token of bob''
        then Some \<lparr>jp_sub = ''users-1'', jp_username = ''bob'', jp_roles = [OPERATOR], jp_tenantId = ''acme''\<rparr> else None)\<rparr>"

theorem created_user_can_login_witness:
  "\<exists>u w1 r. users_create sv0 al0 (cfg_tenancy cfg0) (Some ''token of root'') dto1 world0 = (Done u, w1) \<and>
     post_login sv0 al0 (cfg_auth cfg0) \<lparr>ld_username = ''bob'', ld_password = ''password1''\<rparr> w1 = (Done r, w1) \<and>
     lr_roles r = [OPERATOR]"
proof -
  let ?u = "\<lparr>au_userId = ''users-1'', au_username = ''bob'', au_roles = [OPERATOR], au_tenantId = ''acme''\<rparr>"
  have "\<exists>w1. createUser sv0 al0 (cfg_tenancy cfg0) dto1 world0 = (Done ?u, w1)"
    by (simp add: createUser_def act_defs insert_user_def dto1_def find_user_def row_find_def world0_def Let_def)
      (simp add: sv0_def)
  then obtain w1 where "createUser sv0 al0 (cfg_tenancy cfg0) dto1 world0 = (Done ?u, w1)" by blast
  then have run: "users_create sv0 al0 (cfg_tenancy cfg0) (Some ''token of root'') dto1 world0 = (Done ?u, w1)"
    by (simp add: users_create_def guarded_run al0_def dto1_def user_dto_valid_def)
  from created_user_can_login[OF run, of sv0 "cfg_auth cfg0"] run show ?thesis
    by (auto simp: al0_def dto1_def sv0_def Let_def)
qed

end
