(* ===== verification/Management.thy ===== *)
theory Management
  imports Outbox Crypto Storage Access Quota Events
begin

text \<open>
  \<^verbatim>\<open>ingestion/transfers.service.ts\<close> and its controller: the management API. A request of a user who
  is not an administrator runs in a transaction that sets \<^verbatim>\<open>app.current_tenant\<close>; the row-level
  policy of \<^verbatim>\<open>migrations/1720300000000-AddTenancyRls.ts\<close> then decides which rows a statement sees
  and may change. An entity manager is modelled by that setting: \<^term>\<open>None\<close> where it is unset.
\<close>

section \<open>Row-level security\<close>

definition rls_visible :: "string option \<Rightarrow> FileTransfer \<Rightarrow> bool" where
  "rls_visible setting r =
     (case setting of None \<Rightarrow> True | Some s \<Rightarrow> s = [] \<or> ft_tenantId r = s)"

definition rls_rows :: "string option \<Rightarrow> world \<Rightarrow> FileTransfer list" where
  "rls_rows setting w = filter (rls_visible setting) (w_transfers w)"

definition rls_find :: "string option \<Rightarrow> string \<Rightarrow> world \<Rightarrow> FileTransfer option" where
  "rls_find setting i w = row_find ft_id i (rls_rows setting w)"

text \<open>\<^verbatim>\<open>repo.update(id, ...)\<close>: the rows with that id which the policy shows.\<close>

definition rls_update :: "string option \<Rightarrow> string \<Rightarrow> (FileTransfer \<Rightarrow> FileTransfer) \<Rightarrow> world \<Rightarrow> world" where
  "rls_update setting i f w =
     w\<lparr>w_transfers := map (\<lambda>r. if ft_id r = i \<and> rls_visible setting r then f r else r) (w_transfers w)\<rparr>"

definition scoped :: "services \<Rightarrow> AuthUser \<Rightarrow> (string option \<Rightarrow> (world, 'a) act) \<Rightarrow> (world, 'a) act" where
  "scoped sv user work =
     (if ADMIN \<in> set (au_roles user) then work None
      else transaction (sv_fault sv C_Commit)
             (seq (call sv C_SetConfig (ret ())) (work (Some (au_tenantId user)))))"

section \<open>TransfersService\<close>

record ListTransfersQueryDto =
  lq_status :: "TransferStatus option"
  lq_limit :: nat
  lq_offset :: nat

definition list_query_valid :: "ListTransfersQueryDto \<Rightarrow> bool" where
  "list_query_valid q \<longleftrightarrow> 1 \<le> lq_limit q \<and> lq_limit q \<le> 200"

record PaginatedTransfers =
  pt_items :: "FileTransfer list"
  pt_total :: nat
  pt_limit :: nat
  pt_offset :: nat

definition transfers_list ::
    "services \<Rightarrow> ListTransfersQueryDto \<Rightarrow> AuthUser \<Rightarrow> (world, PaginatedTransfers) act" where
  "transfers_list sv query user =
     scoped sv user (\<lambda>mgr.
       bnd (call sv C_List (gets (\<lambda>w. list_page (lq_status query) (lq_limit query) (lq_offset query) (rls_rows mgr w))))
         (\<lambda>(items, total). ret \<lparr>pt_items = items, pt_total = total, pt_limit = lq_limit query, pt_offset = lq_offset query\<rparr>))"

definition not_found :: "string \<Rightarrow> js_error" where
  "not_found i = HttpException 404 ''NotFoundException'' (''Transfer '' @ i @ '' not found'')"

definition getById :: "services \<Rightarrow> string \<Rightarrow> AuthUser \<Rightarrow> (world, FileTransfer) act" where
  "getById sv i user =
     bnd (scoped sv user (\<lambda>mgr. call sv C_Find (gets (rls_find mgr i)))) (\<lambda>transfer.
       case transfer of None \<Rightarrow> throw (not_found i) | Some t \<Rightarrow> ret t)"

fun status_name :: "TransferStatus \<Rightarrow> string" where
  "status_name PENDING = ''PENDING''"
| "status_name PROCESSING = ''PROCESSING''"
| "status_name SUCCESS = ''SUCCESS''"
| "status_name FAILED = ''FAILED''"

text \<open>The stream of a download: the bytes it delivers and the error that ends it, if one does. The
  stored body is fed to the decryption as one chunk; every other chunking gives the same.\<close>

record DownloadResult =
  dr_stream :: "byte list \<times> js_error option"
  dr_filename :: string
  dr_contentType :: string

definition download ::
    "services \<Rightarrow> CryptoService \<Rightarrow> string \<Rightarrow> AuthUser \<Rightarrow> (world, DownloadResult) act" where
  "download sv cs i user =
     bnd (getById sv i user) (\<lambda>transfer.
       if ft_status transfer \<noteq> SUCCESS \<or> \<not> truthy (ft_objectKey transfer) then
         throw (HttpException 409 ''ConflictException''
           (''Transfer '' @ i @ '' has no stored object (status '' @ status_name (ft_status transfer) @ '')''))
       else
         bnd (getObject sv (ft_bucket transfer) (the (ft_objectKey transfer))) (\<lambda>(body, contentType).
           let result = (\<lambda>stream. \<lparr>dr_stream = stream, dr_filename = ft_filename transfer,
                 dr_contentType = (case contentType of None \<Rightarrow> ''application/octet-stream'' | Some c \<Rightarrow> c)\<rparr>)
           in if ft_encrypted transfer \<and> truthy (ft_wrappedDek transfer) then
                (case createDecryptStream sv cs (the (ft_wrappedDek transfer)) of
                   Inl e \<Rightarrow> throw e
                 | Inr ds \<Rightarrow> ret (result (dec_run sv ds [body])))
              else ret (result (body, None))))"

definition retry :: "services \<Rightarrow> app_section \<Rightarrow> string \<Rightarrow> AuthUser \<Rightarrow> (world, FileTransfer) act" where
  "retry sv app i user =
     bnd (scoped sv user (\<lambda>mgr.
           bnd (call sv C_Find (gets (rls_find mgr i))) (\<lambda>found.
             case found of
               None \<Rightarrow> throw (not_found i)
             | Some t \<Rightarrow>
                 if ft_status t = SUCCESS then
                   throw (HttpException 409 ''ConflictException'' (''Transfer '' @ i @ '' already succeeded; nothing to retry''))
                 else
                   seq (call sv (C_Reset i) (modify (\<lambda>w. rls_update mgr i (reset_row (w_now w)) w)))
                     (bnd (call sv C_FindOrFail (gets (rls_find mgr i))) (\<lambda>r.
                       case r of
                         None \<Rightarrow> throw (JsError ''EntityNotFoundError'' ''Could not find any entity of type FileTransfer'')
                       | Some t' \<Rightarrow> ret t')))))
       (\<lambda>transfer.
         seq (queue_add sv (ingestion_queue_attempts app) TRANSFER_JOB \<lparr>tj_transferId = i, tj_carrier = None\<rparr>)
             (ret transfer))"

record RetryBatchDto =
  rb_status :: "TransferStatus option"
  rb_before :: "int option"
  rb_limit :: nat

definition retry_batch_valid :: "RetryBatchDto \<Rightarrow> bool" where
  "retry_batch_valid dto \<longleftrightarrow> 1 \<le> rb_limit dto \<and> rb_limit dto \<le> 1000"

definition reset_one :: "services \<Rightarrow> string option \<Rightarrow> string \<Rightarrow> (world, unit) act" where
  "reset_one sv mgr i = call sv (C_Reset i) (modify (\<lambda>w. rls_update mgr i (reset_row (w_now w)) w))"

definition retryBatch ::
    "services \<Rightarrow> app_section \<Rightarrow> RetryBatchDto \<Rightarrow> AuthUser \<Rightarrow> (world, nat \<times> string list) act" where
  "retryBatch sv app dto user =
     (let status = (case rb_status dto of None \<Rightarrow> FAILED | Some s \<Rightarrow> s) in
      if status = SUCCESS then
        throw (HttpException 409 ''ConflictException'' ''Cannot batch-retry SUCCESS transfers'')
      else
        bnd (scoped sv user (\<lambda>mgr.
              bnd (call sv C_Find (gets (\<lambda>w. retry_rows status (rb_before dto) (rb_limit dto) (rls_rows mgr w)))) (\<lambda>matches.
                seq (for_each (reset_one sv mgr) (map ft_id matches)) (ret (map ft_id matches)))))
          (\<lambda>ids.
            seq (for_each (\<lambda>i. queue_add sv (ingestion_queue_attempts app) TRANSFER_JOB
                                 \<lparr>tj_transferId = i, tj_carrier = None\<rparr>) ids)
                (ret (length ids, ids))))"

section \<open>The controller\<close>

text \<open>The routes; \<^verbatim>\<open>ParseUUIDPipe\<close> checks an id with the parameter \<open>isUuid\<close>.\<close>

definition parse_uuid :: "(string \<Rightarrow> bool) \<Rightarrow> string \<Rightarrow> (world, 'a) act \<Rightarrow> (world, 'a) act" where
  "parse_uuid isUuid i m =
     (if isUuid i then m
      else throw (HttpException 400 ''BadRequestException'' ''Validation failed (uuid is expected)''))"

definition READERS :: "Role list" where "READERS = [VIEWER, OPERATOR, ADMIN]"

definition OPERATORS :: "Role list" where "OPERATORS = [OPERATOR, ADMIN]"

definition bad_request :: js_error where
  "bad_request = HttpException 400 ''BadRequestException'' ''Bad Request Exception''"

definition get_transfers ::
    "services \<Rightarrow> auth_lib \<Rightarrow> string option \<Rightarrow> ListTransfersQueryDto \<Rightarrow> (world, PaginatedTransfers) act" where
  "get_transfers sv al bearer query =
     guarded al READERS bearer (\<lambda>user.
       if list_query_valid query then transfers_list sv query user else throw bad_request)"

definition get_transfer ::
    "services \<Rightarrow> auth_lib \<Rightarrow> (string \<Rightarrow> bool) \<Rightarrow> string option \<Rightarrow> string \<Rightarrow> (world, FileTransfer) act" where
  "get_transfer sv al isUuid bearer i =
     guarded al READERS bearer (\<lambda>user. parse_uuid isUuid i (getById sv i user))"

text \<open>The headers of the answer: a double quote in the file name is dropped.\<close>

definition download_headers :: "DownloadResult \<Rightarrow> (string \<times> string) list" where
  "download_headers d =
     [(''Content-Type'', dr_contentType d),
      (''Content-Disposition'', ''attachment; filename='' @ [CHR 0x22] @
         filter (\<lambda>c. c \<noteq> CHR 0x22) (dr_filename d) @ [CHR 0x22])]"

definition get_download ::
    "services \<Rightarrow> CryptoService \<Rightarrow> auth_lib \<Rightarrow> (string \<Rightarrow> bool) \<Rightarrow> string option \<Rightarrow> string \<Rightarrow>
     (world, (string \<times> string) list \<times> (byte list \<times> js_error option)) act" where
  "get_download sv cs al isUuid bearer i =
     guarded al READERS bearer (\<lambda>user. parse_uuid isUuid i
       (bnd (download sv cs i user) (\<lambda>d. ret (download_headers d, dr_stream d))))"

definition post_retry_batch ::
    "services \<Rightarrow> app_section \<Rightarrow> auth_lib \<Rightarrow> string option \<Rightarrow> RetryBatchDto \<Rightarrow> (world, nat \<times> string list) act" where
  "post_retry_batch sv app al bearer dto =
     guarded al OPERATORS bearer (\<lambda>user.
       if retry_batch_valid dto then retryBatch sv app dto user else throw bad_request)"

definition post_retry ::
    "services \<Rightarrow> app_section \<Rightarrow> auth_lib \<Rightarrow> (string \<Rightarrow> bool) \<Rightarrow> string option \<Rightarrow> string \<Rightarrow> (world, FileTransfer) act" where
  "post_retry sv app al isUuid bearer i =
     guarded al OPERATORS bearer (\<lambda>user. parse_uuid isUuid i (retry sv app i user))"

text \<open>\<^verbatim>\<open>events/subscriptions.controller.ts\<close>.\<close>

definition post_subscription ::
    "services \<Rightarrow> auth_lib \<Rightarrow> (string \<Rightarrow> bool) \<Rightarrow> string option \<Rightarrow> CreateSubscriptionDto \<Rightarrow> (world, EventSubscription) act" where
  "post_subscription sv al isUrl bearer dto =
     guarded al OPERATORS bearer (\<lambda>user.
       if subscription_dto_valid isUrl dto then sub_create sv user dto else throw bad_request)"

definition get_subscriptions :: "services \<Rightarrow> auth_lib \<Rightarrow> string option \<Rightarrow> (world, EventSubscription list) act" where
  "get_subscriptions sv al bearer = guarded al READERS bearer (sub_list sv)"

definition delete_subscription ::
    "services \<Rightarrow> auth_lib \<Rightarrow> (string \<Rightarrow> bool) \<Rightarrow> string option \<Rightarrow> string \<Rightarrow> (world, unit) act" where
  "delete_subscription sv al isUuid bearer i =
     guarded al OPERATORS bearer (\<lambda>user. parse_uuid isUuid i (sub_remove sv user i))"

section \<open>Lemmas\<close>

lemma transaction_Done': "transaction c m w = (Done a, w') \<Longrightarrow> m w = (Done a, w')"
  by (simp add: transaction_Done_iff)

text \<open>The setting a user's statements run under.\<close>

definition setting_of :: "AuthUser \<Rightarrow> string option" where
  "setting_of user = (if ADMIN \<in> set (au_roles user) then None else Some (au_tenantId user))"

lemma scoped_Done: "scoped sv user work w = (Done a, w') \<Longrightarrow> work (setting_of user) w = (Done a, w')"
  by (auto simp: scoped_def setting_of_def transaction_Done_iff seq_Done_iff call_Done_iff split: if_splits)

lemma frame_scoped: "(frame f (work (setting_of user))) \<Longrightarrow> frame f (scoped sv user work)"
  by (auto simp: scoped_def setting_of_def intro!: eff split: if_splits)

lemma keeps_scoped: "(keeps P (work (setting_of user))) \<Longrightarrow> keeps P (scoped sv user work)"
  by (auto simp: scoped_def setting_of_def intro!: eff split: if_splits)

lemma rls_find_Some: "rls_find s i w = Some t \<Longrightarrow> t \<in> set (w_transfers w) \<and> ft_id t = i \<and> rls_visible s t"
  by (auto simp: rls_find_def rls_rows_def dest: row_find_SomeD)

lemma getById_Done:
  assumes "getById sv i user w = (Done t, w')"
  shows "w' = w \<and> rls_find (setting_of user) i w = Some t"
proof -
  obtain x u where x: "scoped sv user (\<lambda>mgr. call sv C_Find (gets (rls_find mgr i))) w = (Done x, u)"
    and t: "(case x of None \<Rightarrow> throw (not_found i) | Some t \<Rightarrow> ret t) u = (Done t, w')"
    using assms by (auto simp: getById_def bnd_Done_iff)
  from scoped_Done[OF x] t show ?thesis by (auto simp: call_Done_iff split: option.splits)
qed

text \<open>The rows of other tenants, which a tenant user's statements leave alone.\<close>

definition foreign_rows :: "string \<Rightarrow> world \<Rightarrow> FileTransfer list" where
  "foreign_rows t w = filter (\<lambda>r. ft_tenantId r \<noteq> t) (w_transfers w)"

lemma foreign_rls_update:
  assumes "t \<noteq> []" "\<And>r. ft_tenantId (f r) = ft_tenantId r"
  shows "foreign_rows t (rls_update (Some t) i f w) = foreign_rows t w"
proof -
  have "filter (\<lambda>r. ft_tenantId r \<noteq> t) (map (\<lambda>r. if ft_id r = i \<and> rls_visible (Some t) r then f r else r) rs) =
      filter (\<lambda>r. ft_tenantId r \<noteq> t) rs" for rs
    using assms by (induction rs) (auto simp: rls_visible_def)
  then show ?thesis by (simp add: foreign_rows_def rls_update_def)
qed

lemma reset_row_tenant [simp]: "ft_tenantId (reset_row n r) = ft_tenantId r" "ft_id (reset_row n r) = ft_id r"
  by (simp_all add: reset_row_def)

lemma foreign_queue [simp]: "foreign_rows t (w\<lparr>w_queue := q\<rparr>) = foreign_rows t w"
  by (simp add: foreign_rows_def)

lemma frame_foreign_reset: "t \<noteq> [] \<Longrightarrow> frame (foreign_rows t) (reset_one sv (Some t) i)"
  unfolding reset_one_def by (intro eff frame_modify) (simp add: foreign_rls_update)

lemma frame_foreign_queue [eff]: "frame (foreign_rows t) (queue_add sv a n d)"
  unfolding queue_add_def by (intro eff frame_modify) simp

lemma frame_foreign_retry:
  assumes "ADMIN \<notin> set (au_roles user)" "au_tenantId user \<noteq> []"
  shows "frame (foreign_rows (au_tenantId user)) (retry sv app i user)"
    and "frame (foreign_rows (au_tenantId user)) (retryBatch sv app dto user)"
  using assms frame_foreign_reset[of "au_tenantId user" sv] unfolding retry_def retryBatch_def Let_def reset_one_def[symmetric]
  by (intro eff frame_scoped; simp add: setting_of_def)+

subsection \<open>Noninterference between tenants\<close>

text \<open>What a tenant user can observe of the state: the rows of the own tenant, the clock and the stored objects
  (which the user reaches through object keys of those rows).\<close>

definition tenant_view :: "string \<Rightarrow> world \<Rightarrow>
    FileTransfer list \<times> int \<times> (string \<times> string \<Rightarrow> StoredObject option) \<times> string list" where
  "tenant_view t w = (filter (\<lambda>r. ft_tenantId r = t) (w_transfers w), w_now w, w_objects w, w_buckets w)"

lemma rls_rows_tenant: "t \<noteq> [] \<Longrightarrow> rls_rows (Some t) w = fst (tenant_view t w)"
  by (auto simp: rls_rows_def tenant_view_def rls_visible_def intro: filter_cong)

lemma rls_rows_view:
  assumes "t \<noteq> []" "tenant_view t u = tenant_view t w"
  shows "rls_rows (Some t) u = rls_rows (Some t) w"
  unfolding rls_rows_tenant[OF assms(1)] assms(2) ..

lemma rls_find_view: "t \<noteq> [] \<Longrightarrow> tenant_view t u = tenant_view t w \<Longrightarrow> rls_find (Some t) i u = rls_find (Some t) i w"
  unfolding rls_find_def by (rule arg_cong[OF rls_rows_view])

lemma view_rls_update:
  assumes "t \<noteq> []" "\<And>r. ft_tenantId (f r) = ft_tenantId r"
  shows "tenant_view t (rls_update (Some t) i f w) =
    (map (\<lambda>r. if ft_id r = i then f r else r) (fst (tenant_view t w)), w_now w, w_objects w, w_buckets w)"
proof -
  have "filter (\<lambda>r. ft_tenantId r = t) (map (\<lambda>r. if ft_id r = i \<and> rls_visible (Some t) r then f r else r) rs) =
      map (\<lambda>r. if ft_id r = i then f r else r) (filter (\<lambda>r. ft_tenantId r = t) rs)" for rs
    using assms by (induction rs) (auto simp: rls_visible_def)
  then show ?thesis by (simp add: tenant_view_def rls_update_def)
qed

lemma depends_reset_one: "t \<noteq> [] \<Longrightarrow> depends (tenant_view t) (reset_one sv (Some t) i)"
  unfolding reset_one_def by (intro eff depends_modify) (simp add: view_rls_update, simp add: tenant_view_def)

lemma depends_scoped:
  assumes "ADMIN \<notin> set (au_roles user)" "depends f (work (Some (au_tenantId user)))"
  shows "depends f (scoped sv user work)"
  using assms by (auto simp: scoped_def intro!: eff)

lemma depends_view_queue: "depends (tenant_view t) (queue_add sv a n d)"
  unfolding queue_add_def by (intro eff depends_modify) (simp add: tenant_view_def)

lemma depends_view_getObject: "depends (tenant_view t) (getObject sv b k)"
  unfolding getObject_def
  by (intro eff) (auto simp: depends_def get_object_def tenant_view_def split: option.splits)

lemmas depends_view = depends_scoped depends_view_queue depends_view_getObject depends_reset_one depends_gets
  rls_find_view arg_cong[OF rls_rows_view]

lemma depends_retry:
  assumes "ADMIN \<notin> set (au_roles user)" "au_tenantId user \<noteq> []"
  shows "depends (tenant_view (au_tenantId user)) (retry sv app i user)"
  unfolding retry_def reset_one_def[symmetric]
  by (intro eff depends_view) (assumption | rule assms)+

lemma depends_retryBatch:
  assumes "ADMIN \<notin> set (au_roles user)" "au_tenantId user \<noteq> []"
  shows "depends (tenant_view (au_tenantId user)) (retryBatch sv app dto user)"
  unfolding retryBatch_def Let_def
  by (intro eff depends_view) (assumption | rule assms)+

lemma depends_list:
  assumes "ADMIN \<notin> set (au_roles user)" "au_tenantId user \<noteq> []"
  shows "depends (tenant_view (au_tenantId user)) (transfers_list sv q user)"
  unfolding transfers_list_def split_def
  by (intro eff depends_view) (assumption | rule assms)+

lemma depends_getById:
  assumes "ADMIN \<notin> set (au_roles user)" "au_tenantId user \<noteq> []"
  shows "depends (tenant_view (au_tenantId user)) (getById sv i user)"
  unfolding getById_def
  by (intro eff depends_view) (assumption | rule assms)+

lemma depends_download:
  assumes "ADMIN \<notin> set (au_roles user)" "au_tenantId user \<noteq> []"
  shows "depends (tenant_view (au_tenantId user)) (download sv cs i user)"
  using depends_getById[OF assms] unfolding download_def Let_def split_def
  by (intro eff depends_view_getObject) (auto intro!: eff split: sum.split)

subsection \<open>What a retry does\<close>

definition retry_job :: "app_section \<Rightarrow> string \<Rightarrow> TransferJob" where
  "retry_job app i = mk_job (ingestion_queue_attempts app) TRANSFER_JOB \<lparr>tj_transferId = i, tj_carrier = None\<rparr>"

lemma healthy_scoped: "healthy sv \<Longrightarrow> m (setting_of user) w = (Done a, w') \<Longrightarrow> scoped sv user m w = (Done a, w')"
  by (auto simp: scoped_def setting_of_def act_defs healthy_def split: if_splits)

lemma healthy_scoped_Raised:
  "healthy sv \<Longrightarrow> m (setting_of user) w = (Raised e, w) \<Longrightarrow> scoped sv user m w = (Raised e, w)"
  by (auto simp: scoped_def setting_of_def act_defs healthy_def split: if_splits)

lemma rls_update_visible:
  assumes "distinct (map ft_id (w_transfers w))" "rls_find s i w = Some t"
  shows "rls_update s i f w = upd_transfer i f w"
proof -
  have "rls_visible s r" if "r \<in> set (w_transfers w)" "ft_id r = i" for r
    using rls_find_Some[OF assms(2)] assms(1) that by (metis distinct_map inj_onD)
  then show ?thesis by (auto simp: rls_update_def upd_transfer_def row_update_def)
qed

lemma rls_find_reset:
  assumes "distinct (map ft_id (w_transfers w))" "rls_find s i w = Some t"
  shows "rls_find s i (upd_transfer i (reset_row n) w) = Some (reset_row n t)"
proof -
  note t = rls_find_Some[OF assms(2)]
  have "reset_row n t \<in> set (rls_rows s (upd_transfer i (reset_row n) w))"
    using t by (auto simp: rls_rows_def upd_transfer_def row_update_def rls_visible_def split: option.splits)
  moreover have "distinct (map ft_id (rls_rows s (upd_transfer i (reset_row n) w)))"
    using assms(1) by (simp add: rls_rows_def distinct_map_filter transfers.map_upd)
  ultimately show ?thesis using t row_find_distinct[of ft_id _ "reset_row n t"] by (simp add: rls_find_def)
qed

text \<open>The resets of a batch, and the jobs it adds.\<close>

definition reset_all :: "string list \<Rightarrow> world \<Rightarrow> world" where
  "reset_all ids w =
     w\<lparr>w_transfers := map (\<lambda>r. if ft_id r \<in> set ids then reset_row (w_now w) r else r) (w_transfers w)\<rparr>"

lemma reset_loop:
  assumes "healthy sv"
    and "\<And>r. r \<in> set (w_transfers w) \<Longrightarrow> ft_id r \<in> set ids \<Longrightarrow> rls_visible s r"
  shows "for_each (reset_one sv s) ids w = (Done (), reset_all ids w)"
  using assms(2)
proof (induction ids arbitrary: w)
  case Nil
  then show ?case by (simp add: ret_def reset_all_def)
next
  case (Cons i ids)
  let ?w = "rls_update s i (reset_row (w_now w)) w"
  have step: "?w = upd_transfer i (reset_row (w_now w)) w"
    using Cons.prems by (auto simp: rls_update_def upd_transfer_def row_update_def)
  have "rls_visible s (reset_row n r) = rls_visible s r" for n r
    by (simp add: rls_visible_def split: option.splits)
  then have "for_each (reset_one sv s) ids ?w = (Done (), reset_all ids ?w)"
    using Cons.prems by (intro Cons.IH) (auto simp: step upd_transfer_def row_update_def)
  moreover have "reset_all ids ?w = reset_all (i # ids) w"
    by (auto simp: step reset_all_def upd_transfer_def row_update_def reset_row_def)
  ultimately show ?case using assms(1) by (simp add: reset_one_def[of sv s i])
qed

lemma requeue_loop:
  "healthy sv \<Longrightarrow>
   for_each (\<lambda>i. queue_add sv (ingestion_queue_attempts app) TRANSFER_JOB \<lparr>tj_transferId = i, tj_carrier = None\<rparr>) ids w =
   (Done (), w\<lparr>w_queue := w_queue w @ map (retry_job app) ids\<rparr>)"
  by (induction ids arbitrary: w) (simp_all add: ret_def queue_add_def retry_job_def)

section \<open>Properties\<close>


definition bob :: AuthUser where
  "bob = \<lparr>au_userId = ''u1'', au_username = ''bob'', au_roles = [OPERATOR], au_tenantId = ''acme''\<rparr>"

definition world_two_tenants :: world where
  "world_two_tenants = world0\<lparr>w_transfers :=
     [transfer1\<lparr>ft_status := FAILED, ft_errorLog := Some ''x''\<rparr>,
      transfer1\<lparr>ft_id := ''t2'', ft_idempotencyKey := ''k2'', ft_tenantId := ''globex'', ft_status := FAILED, ft_errorLog := Some ''x''\<rparr>]\<rparr>"


text \<open>C38: The row-level policy lets a user whose tenant is the empty string see the rows of every tenant, and
  the API accepts the creation of such a user: its list is that of an administrator.\<close>

theorem empty_tenant_sees_every_tenant:
  assumes "user_dto_valid dto" "cu_tenantId dto = Some []" "ADMIN \<notin> set (cu_roles dto)"
    and "createUser sv al tenancy dto w0 = (Done user, w1)" "au_roles boss = [ADMIN]" "healthy sv'"
  shows "fst (transfers_list sv' q user w) = fst (transfers_list sv' q boss w)"
proof -
  have "au_tenantId user = []" "au_roles user = cu_roles dto"
    using assms(2,4) by (auto simp: createUser_def bnd_Done_iff call_Done_iff insert_user_def Let_def split: if_splits)
  then show ?thesis
    using assms(3,5,6) by (simp add: transfers_list_def scoped_def rls_rows_def rls_visible_def act_defs healthy_def split_def)
qed

theorem empty_tenant_sees_every_tenant_witness:
  "\<exists>dto user w1. createUser sv0 al0 (cfg_tenancy cfg0) dto world0 = (Done user, w1) \<and> user_dto_valid dto \<and>
     fst (transfers_list sv0 \<lparr>lq_status = None, lq_limit = 50, lq_offset = 0\<rparr> user world_two_tenants) =
     fst (transfers_list sv0 \<lparr>lq_status = None, lq_limit = 50, lq_offset = 0\<rparr> (bob\<lparr>au_roles := [ADMIN]\<rparr>) world_two_tenants)"
proof -
  let ?dto = "dto1\<lparr>cu_tenantId := Some []\<rparr>"
  obtain user w1 where run: "createUser sv0 al0 (cfg_tenancy cfg0) ?dto world0 = (Done user, w1)"
    by (simp add: createUser_def act_defs insert_user_def dto1_def find_user_def row_find_def world0_def Let_def)
  have "user_dto_valid ?dto" by (simp add: user_dto_valid_def dto1_def)
  then show ?thesis
    using empty_tenant_sees_every_tenant[OF _ _ _ run, of "bob\<lparr>au_roles := [ADMIN]\<rparr>" sv0] run
    by (auto simp: dto1_def)
qed

text \<open>A retry through the API, when nothing fails: an id the user cannot see is answered 404, a transfer
  that succeeded 409, both with nothing changed; every other transfer is reset to PENDING with no
  attempts and no error, its new row is the answer, and exactly one job for it is queued.\<close>

theorem retry_resets_and_queues:
  assumes "healthy sv" "transfers_ok w"
  shows "retry sv app i user w =
     (case rls_find (setting_of user) i w of
        None \<Rightarrow> (Raised (not_found i), w)
      | Some t \<Rightarrow>
          if ft_status t = SUCCESS
          then (Raised (HttpException 409 ''ConflictException'' (''Transfer '' @ i @ '' already succeeded; nothing to retry'')), w)
          else (Done (reset_row (w_now w) t),
                (upd_transfer i (reset_row (w_now w)) w)\<lparr>w_queue := w_queue w @ [retry_job app i]\<rparr>))"
proof -
  have d: "distinct (map ft_id (w_transfers w))" using assms(2) by (simp add: transfers_ok_def)
  show ?thesis
  proof (cases "rls_find (setting_of user) i w")
    case None
    then show ?thesis
      using assms(1) by (simp add: retry_def, subst bnd_def, subst healthy_scoped_Raised) (simp_all add: throw_def)
  next
    case (Some t)
    note upd = rls_update_visible[OF d Some] and found = rls_find_reset[OF d Some]
    show ?thesis
    proof (cases "ft_status t = SUCCESS")
      case True
      with Some assms(1) show ?thesis
        by (simp add: retry_def, subst bnd_def, subst healthy_scoped_Raised) (simp_all add: throw_def)
    next
      case False
      with Some assms(1) show ?thesis
        by (simp add: retry_def, subst bnd_def, subst healthy_scoped)
          (simp_all add: upd found queue_add_def retry_job_def ret_def, simp)
    qed
  qed
qed

theorem retry_resets_and_queues_witness:
  "\<exists>t w'. retry sv0 app0 ''t1'' bob world_two_tenants = (Done t, w') \<and> ft_status t = PENDING \<and>
     w_queue w' = [retry_job app0 ''t1'']"
proof -
  have "transfers_ok world_two_tenants"
    by (simp add: transfers_ok_def world_two_tenants_def row_wf_def transfer1_def)
  from retry_resets_and_queues[OF _ this, of sv0 app0 "''t1''" bob] show ?thesis
    by (simp add: setting_of_def bob_def rls_find_def rls_rows_def row_find_def rls_visible_def
        world_two_tenants_def world0_def transfer1_def reset_row_def)
qed

text \<open>A batch retry, when nothing fails: the oldest \<open>limit\<close> visible rows of the status (and age) are reset, no
  other row is touched, one job for each is queued in that order, and the answer counts and names them.\<close>

lemma retryBatch_run:
  assumes "healthy sv" "transfers_ok w"
    and "status = (case rb_status dto of None \<Rightarrow> FAILED | Some s \<Rightarrow> s)" "status \<noteq> SUCCESS"
    and "ids = map ft_id (retry_rows status (rb_before dto) (rb_limit dto) (rls_rows (setting_of user) w))"
  shows "retryBatch sv app dto user w =
     (Done (length ids, ids), (reset_all ids w)\<lparr>w_queue := w_queue w @ map (retry_job app) ids\<rparr>)"
proof -
  have d: "inj_on ft_id (set (w_transfers w))" using assms(2) by (simp add: transfers_ok_def distinct_map)
  have vis: "rls_visible (setting_of user) r" if "r \<in> set (w_transfers w)" "ft_id r \<in> set ids" for r
    using that retry_rows_spec(1)[of status "rb_before dto" "rb_limit dto" "rls_rows (setting_of user) w"] inj_onD[OF d]
    by (fastforce simp: assms(5) rls_rows_def)
  have "scoped sv user (\<lambda>mgr. bnd (call sv C_Find (gets (\<lambda>w. retry_rows status (rb_before dto) (rb_limit dto) (rls_rows mgr w))))
        (\<lambda>matches. seq (for_each (reset_one sv mgr) (map ft_id matches)) (ret (map ft_id matches)))) w =
      (Done ids, reset_all ids w)"
  proof (rule healthy_scoped[OF assms(1)])
    have "for_each (reset_one sv (setting_of user)) ids w = (Done (), reset_all ids w)"
      by (rule reset_loop[OF assms(1)]) (rule vis)
    then show "bnd (call sv C_Find (gets (\<lambda>w. retry_rows status (rb_before dto) (rb_limit dto) (rls_rows (setting_of user) w))))
        (\<lambda>matches. seq (for_each (reset_one sv (setting_of user)) (map ft_id matches)) (ret (map ft_id matches))) w =
      (Done ids, reset_all ids w)"
      using assms(1) by (simp add: assms(5)[symmetric]) (simp add: seq_def bnd_def ret_def)
  qed
  then show ?thesis
    using assms(1,4) requeue_loop[OF assms(1), of app ids "reset_all ids w"]
    by (simp add: retryBatch_def assms(3)[symmetric] bnd_def[of "scoped _ _ _"] seq_def)
      (simp add: bnd_def ret_def reset_all_def)
qed


end
