(* ===== verification/Maintenance.thy ===== *)
theory Maintenance
  imports Outbox Telemetry Config
begin

text \<open>
  The background jobs and the failure path: \<^verbatim>\<open>ingestion/recovery.service.ts\<close> (the sweep of stuck
  transfers), \<^verbatim>\<open>ingestion/retention.service.ts\<close> (the purge of old audit rows),
  \<^verbatim>\<open>ingestion/dead-letter.processor.ts\<close> with \<^verbatim>\<open>notifications/notification.service.ts\<close> (alerts), and
  \<^verbatim>\<open>common/filters/all-exceptions.filter.ts\<close> (the error envelope of the HTTP API).
\<close>

section \<open>RecoveryService\<close>

definition recovered_message :: "int \<Rightarrow> string" where
  "recovered_message attempts =
     ''Recovered after interruption but retries ('' @ show_int attempts @ '') already exhausted''"

text \<open>The body of the loop over the stuck transfers.\<close>

definition sweep_one :: "services \<Rightarrow> app_section \<Rightarrow> FileTransfer \<Rightarrow> (world, unit) act" where
  "sweep_one sv app transfer =
     (if ft_attempts transfer \<ge> app_transferMaxAttempts app
      then markFailed sv (ft_id transfer) (recovered_message (ft_attempts transfer))
      else queue_add sv (ingestion_queue_attempts app) TRANSFER_JOB
             \<lparr>tj_transferId = ft_id transfer, tj_carrier = None\<rparr>)"

definition sweep :: "services \<Rightarrow> app_section \<Rightarrow> recovery_section \<Rightarrow> (world, unit) act" where
  "sweep sv app recovery = bnd (gets w_sweeping) (\<lambda>running.
     if \<not> recovery_enabled recovery \<or> running then ret ()
     else
       seq (modify (\<lambda>w. w\<lparr>w_sweeping := True\<rparr>))
         (try_finally
           (try_catch
             (bnd (gets w_now) (\<lambda>now.
              bnd (findStuck sv (now - recovery_staleMs recovery) (nat (recovery_batchSize recovery))) (\<lambda>stuck.
                if stuck = [] then ret () else for_each (sweep_one sv app) stuck)))
             (\<lambda>err. ret ()))
           (\<lambda>w. w\<lparr>w_sweeping := False\<rparr>)))"

section \<open>RetentionService\<close>

definition MS_PER_DAY :: int where "MS_PER_DAY = 24 * 60 * 60 * 1000"

definition purge :: "services \<Rightarrow> int \<Rightarrow> (world, unit) act" where
  "purge sv retentionDays =
     (if retentionDays \<le> 0 then ret ()
      else bnd (gets w_now) (\<lambda>now.
        bnd (deleteTerminalOlderThan sv (now - retentionDays * MS_PER_DAY)) (\<lambda>removed. ret ())))"

section \<open>Alerts and dead letters\<close>

record FailureAlert =
  fa_transferId :: string
  fa_filename :: string
  fa_reason :: string

text \<open>The text of an alert as Unicode code points: it has characters beyond Latin-1.\<close>

definition code_points :: "string \<Rightarrow> nat list" where
  "code_points s = map of_char s"

definition alert_text :: "FailureAlert \<Rightarrow> nat list" where
  "alert_text a =
     0x1F6A8 # code_points '' S3-SyncBridge transfer FAILED'' @ [10, 0x2022] @ code_points '' file: '' @ code_points (fa_filename a) @
     [10, 0x2022] @ code_points '' id: '' @ code_points (fa_transferId a) @
     [10, 0x2022] @ code_points '' reason: '' @ code_points (fa_reason a)"

definition notifyFailure :: "services \<Rightarrow> AlertsSection \<Rightarrow> FailureAlert \<Rightarrow> (world, unit) act" where
  "notifyFailure sv alerts alert =
     (if \<not> alerts_enabled alerts \<or> \<not> truthy (alerts_webhookUrl alerts) then ret ()
      else
        try_catch
          (call sv C_Alert (modify (\<lambda>w. w\<lparr>w_alerts := w_alerts w @ [(the (alerts_webhookUrl alerts), alert_text alert)]\<rparr>)))
          (\<lambda>err. ret ()))"

definition dead_letter_process :: "services \<Rightarrow> AlertsSection \<Rightarrow> DeadLetterJobData \<Rightarrow> (world, unit) act" where
  "dead_letter_process sv alerts job =
     seq (modify recordDeadLetter)
       (bnd (findById sv C_FindById (dl_transferId job)) (\<lambda>transfer.
         notifyFailure sv alerts
           \<lparr>fa_transferId = dl_transferId job,
            fa_filename = (case transfer of None \<Rightarrow> ''unknown'' | Some t \<Rightarrow> ft_filename t),
            fa_reason = dl_reason job\<rparr>))"

section \<open>AllExceptionsFilter\<close>

text \<open>What a handler may throw, as the filter sees it: an HTTP exception with its status, name, message
  and response (a string, or an object with optional fields), or anything else.\<close>

datatype message = One string | Many "string list"

datatype http_response = RespString string | RespObject "message option" "string option"

datatype exception =
    HttpEx (hx_status: int) (hx_name: string) (hx_message: string) (hx_response: http_response)
  | OtherEx string

record ErrorBody =
  eb_statusCode :: int
  eb_error :: string
  eb_message :: message
  eb_path :: string
  eb_timestamp :: string

definition catch_exception :: "exception \<Rightarrow> string \<Rightarrow> string \<Rightarrow> int \<times> ErrorBody" where
  "catch_exception ex url timestamp =
     (let status = (case ex of HttpEx s n m r \<Rightarrow> s | OtherEx _ \<Rightarrow> 500);
          (message, err) =
            (case ex of
               HttpEx s n m (RespString str) \<Rightarrow> (One str, ''InternalServerError'')
             | HttpEx s n m (RespObject msg er) \<Rightarrow>
                 (case msg of None \<Rightarrow> One m | Some x \<Rightarrow> x, case er of None \<Rightarrow> n | Some x \<Rightarrow> x)
             | OtherEx _ \<Rightarrow> (One ''Internal server error'', ''InternalServerError''))
      in (status, \<lparr>eb_statusCode = status, eb_error = err, eb_message = message, eb_path = url, eb_timestamp = timestamp\<rparr>))"

section \<open>Lemmas\<close>

subsection \<open>The sweep\<close>

lemma sweep_idle: "\<not> recovery_enabled recovery \<or> w_sweeping w \<Longrightarrow> sweep sv app recovery w = (Done (), w)"
  by (simp add: sweep_def ret_def)

text \<open>What a sweep may have done on the way: the rows in \<open>stuck\<close> are unchanged or, with the attempts
  exhausted, FAILED with the recovery message; jobs were added for the others; nothing else.\<close>

definition swept_row :: "app_section \<Rightarrow> FileTransfer list \<Rightarrow> int \<Rightarrow> FileTransfer \<Rightarrow> FileTransfer \<Rightarrow> bool" where
  "swept_row app stuck now r r' \<longleftrightarrow> r' = r \<or>
     r \<in> set stuck \<and> app_transferMaxAttempts app \<le> ft_attempts r \<and> r' = set_failed (recovered_message (ft_attempts r)) now r"

definition sweep_job :: "app_section \<Rightarrow> FileTransfer \<Rightarrow> TransferJob" where
  "sweep_job app r = mk_job (ingestion_queue_attempts app) TRANSFER_JOB \<lparr>tj_transferId = ft_id r, tj_carrier = None\<rparr>"

definition sweep_rest :: "world \<Rightarrow> world" where
  "sweep_rest w = w\<lparr>w_transfers := [], w_queue := [], w_sweeping := False\<rparr>"

definition sweep_progress :: "app_section \<Rightarrow> FileTransfer list \<Rightarrow> world \<Rightarrow> world \<Rightarrow> bool" where
  "sweep_progress app stuck w0 w \<longleftrightarrow>
     list_all2 (swept_row app stuck (w_now w0)) (w_transfers w0) (w_transfers w) \<and>
     (\<exists>added. w_queue w = w_queue w0 @ added \<and>
        set added \<subseteq> sweep_job app ` {r \<in> set stuck. ft_attempts r < app_transferMaxAttempts app}) \<and>
     sweep_rest w = sweep_rest w0"

lemma sweep_progress_refl: "sweep_progress app stuck w w"
  by (auto simp: sweep_progress_def swept_row_def list_all2_same)

lemma sweep_progress_add:
  assumes "sweep_progress app stuck w0 w" "r \<in> set stuck" "ft_attempts r < app_transferMaxAttempts app"
  shows "sweep_progress app stuck w0 (w\<lparr>w_queue := w_queue w @ [sweep_job app r]\<rparr>)"
proof -
  obtain added where a: "w_queue w = w_queue w0 @ added"
      "set added \<subseteq> sweep_job app ` {r \<in> set stuck. ft_attempts r < app_transferMaxAttempts app}"
    using assms(1) by (auto simp: sweep_progress_def)
  then have "w_queue w @ [sweep_job app r] = w_queue w0 @ (added @ [sweep_job app r])" by simp
  then show ?thesis
    using assms a(2) unfolding sweep_progress_def by (auto simp: sweep_rest_def)
qed

lemma sweep_progress_fail:
  assumes "sweep_progress app stuck w0 w" "r \<in> set stuck" "app_transferMaxAttempts app \<le> ft_attempts r"
    and sub: "set stuck \<subseteq> set (w_transfers w0)" "distinct (map ft_id (w_transfers w0))"
  shows "sweep_progress app stuck w0 (upd_transfer (ft_id r) (set_failed (recovered_message (ft_attempts r)) (w_now w)) w)"
proof -
  let ?f = "set_failed (recovered_message (ft_attempts r)) (w_now w)"
  have "sweep_rest w = sweep_rest w0" using assms(1) by (simp add: sweep_progress_def)
  then have "w_now (sweep_rest w) = w_now (sweep_rest w0)" by simp
  then have now: "w_now w = w_now w0" by (simp add: sweep_rest_def)
  have same: "x = r" if "x \<in> set (w_transfers w0)" "ft_id x = ft_id r" for x
    using that sub assms(2) by (auto simp: distinct_map dest: inj_onD)
  have "list_all2 (swept_row app stuck (w_now w0)) (w_transfers w0) (map (\<lambda>x. if ft_id x = ft_id r then ?f x else x) (w_transfers w))"
    unfolding list_all2_map2
  proof (rule list.rel_mono_strong)
    show "list_all2 (swept_row app stuck (w_now w0)) (w_transfers w0) (w_transfers w)"
      using assms(1) by (simp add: sweep_progress_def)
    fix x y
    assume x: "x \<in> set (w_transfers w0)" and xy: "swept_row app stuck (w_now w0) x y"
    then have id: "ft_id y = ft_id x" by (auto simp: swept_row_def set_failed_def)
    show "swept_row app stuck (w_now w0) x (if ft_id y = ft_id r then ?f y else y)"
    proof (cases "ft_id y = ft_id r")
      case True
      then have "x = r" by (intro same[OF x]) (simp only: id[symmetric])
      with xy have "y = r \<or> y = ?f r" by (simp only: swept_row_def now) blast
      then have "?f y = ?f r" by (elim disjE) (simp_all add: set_failed_def)
      with \<open>x = r\<close> True assms(2,3) show ?thesis by (simp add: swept_row_def now)
    qed (use xy in simp)
  qed
  then show ?thesis
    using assms(1) unfolding sweep_progress_def by (auto simp: upd_transfer_def row_update_def sweep_rest_def)
qed

lemma keeps_sweep_one:
  assumes "r \<in> set stuck" "set stuck \<subseteq> set (w_transfers w0)" "distinct (map ft_id (w_transfers w0))"
  shows "keeps (sweep_progress app stuck w0) (sweep_one sv app r)"
  unfolding sweep_one_def markFailed_def queue_add_def sweep_job_def[symmetric] using assms
  by (intro eff keeps_modify) (simp_all add: sweep_progress_fail sweep_progress_add)

lemma stuck_subset: "set (stuck_rows b n rows) \<subseteq> set rows"
  using stuck_rows_spec(1)[of b n rows] by blast

definition stuck_now :: "recovery_section \<Rightarrow> world \<Rightarrow> FileTransfer list" where
  "stuck_now recovery w =
     stuck_rows (w_now w - recovery_staleMs recovery) (nat (recovery_batchSize recovery)) (w_transfers w)"

lemma sweep_progress_sweep:
  assumes "transfers_ok w"
  shows "sweep_progress app (stuck_now recovery w) w (snd (sweep sv app recovery w))"
proof (cases "\<not> recovery_enabled recovery \<or> w_sweeping w")
  case True
  then show ?thesis by (simp add: sweep_idle sweep_progress_refl)
next
  case False
  let ?w = "w\<lparr>w_sweeping := True\<rparr>" and ?P = "sweep_progress app (stuck_now recovery w) w"
  let ?stuck = "stuck_now recovery w"
  have ok: "set ?stuck \<subseteq> set (w_transfers w)" "distinct (map ft_id (w_transfers w))"
    using assms stuck_subset by (auto simp: transfers_ok_def stuck_now_def)
  have flag: "?P (u\<lparr>w_sweeping := b\<rparr>) = ?P u" for u b by (simp add: sweep_progress_def sweep_rest_def)
  have start: "?P ?w" using sweep_progress_refl flag by simp
  have loop: "?P (snd (for_each (sweep_one sv app) ?stuck ?w))"
    by (rule keepsD[OF keeps_for_each[OF keeps_sweep_one] start]) (use ok in auto)
  have "?P (snd (bnd (findStuck sv (w_now w - recovery_staleMs recovery) (nat (recovery_batchSize recovery)))
      (\<lambda>stuck. if stuck = [] then ret () else for_each (sweep_one sv app) stuck) ?w))"
    using loop start
    by (cases "sv_fault sv C_FindStuck")
      (auto simp: findStuck_def call_def await_def bnd_def gets_def ret_def stuck_now_def)
  then show ?thesis
    using False flag by (simp add: sweep_def snd_try_finally snd_try_catch_pure ret_def)
qed

subsection \<open>The sweep when nothing fails\<close>

definition exhausted :: "app_section \<Rightarrow> FileTransfer \<Rightarrow> bool" where
  "exhausted app r \<longleftrightarrow> app_transferMaxAttempts app \<le> ft_attempts r"

definition sweep_all :: "app_section \<Rightarrow> FileTransfer list \<Rightarrow> world \<Rightarrow> world" where
  "sweep_all app stuck w =
     w\<lparr>w_transfers := map (\<lambda>r. if r \<in> set (filter (exhausted app) stuck)
          then set_failed (recovered_message (ft_attempts r)) (w_now w) r else r) (w_transfers w),
       w_queue := w_queue w @ map (sweep_job app) (filter (\<lambda>r. \<not> exhausted app r) stuck)\<rparr>"

lemma sweep_loop:
  assumes "healthy sv" "distinct (map ft_id (w_transfers w))" "set stuck \<subseteq> set (w_transfers w)" "distinct (map ft_id stuck)"
  shows "for_each (sweep_one sv app) stuck w = (Done (), sweep_all app stuck w)"
  using assms(2-)
proof (induction stuck arbitrary: w)
  case Nil
  then show ?case by (simp add: ret_def sweep_all_def)
next
  case (Cons r stuck)
  let ?f = "set_failed (recovered_message (ft_attempts r)) (w_now w)"
  have inj: "x = y" if "x \<in> set (w_transfers w)" "y \<in> set (w_transfers w)" "ft_id x = ft_id y" for x y
    using that Cons.prems(1) by (auto simp: distinct_map dest: inj_onD)
  show ?case
  proof (cases "exhausted app r")
    case False
    then show ?thesis
      using assms(1) Cons.prems Cons.IH[of "w\<lparr>w_queue := w_queue w @ [sweep_job app r]\<rparr>"]
      by (simp add: sweep_one_def exhausted_def queue_add_def sweep_job_def[symmetric]) (simp add: sweep_all_def exhausted_def)
  next
    case True
    let ?w = "upd_transfer (ft_id r) ?f w"
    have ne: "ft_id x \<noteq> ft_id r" if "x \<in> set stuck" for x using that Cons.prems(3) by (metis distinct.simps(2) image_eqI list.map(2) list.set_map)
    have "x \<in> set (w_transfers ?w)" if "x \<in> set stuck" for x
    proof -
      have "x \<in> set (w_transfers w)" using that Cons.prems(2) by auto
      with ne[OF that] show ?thesis by (force simp: upd_transfer_def row_update_def)
    qed
    then have "for_each (sweep_one sv app) stuck ?w = (Done (), sweep_all app stuck ?w)"
      using Cons.prems by (intro Cons.IH) (auto simp: failed.patch_id transfers.map_upd)
    moreover have "sweep_all app stuck ?w = sweep_all app (r # stuck) w"
      using True Cons.prems(2) ne inj
      by (auto simp: sweep_all_def upd_transfer_def row_update_def set_failed_def intro!: world.equality)
    ultimately show ?thesis
      using assms(1) True by (simp add: sweep_one_def[of sv app r] exhausted_def markFailed_def)
  qed
qed

lemma sweep_run:
  assumes "healthy sv" "transfers_ok w" "recovery_enabled recovery" "\<not> w_sweeping w"
  shows "sweep sv app recovery w = (Done (), sweep_all app (stuck_now recovery w) w)"
proof -
  let ?w = "w\<lparr>w_sweeping := True\<rparr>" and ?stuck = "stuck_now recovery w"
  have "distinct (map ft_id (w_transfers w))" using assms(2) by (simp add: transfers_ok_def)
  then have "for_each (sweep_one sv app) ?stuck ?w = (Done (), sweep_all app ?stuck ?w)"
    using stuck_subset stuck_rows_distinct by (intro sweep_loop[OF assms(1)]) (auto simp: stuck_now_def)
  moreover have "(sweep_all app ?stuck ?w)\<lparr>w_sweeping := False\<rparr> = sweep_all app ?stuck w"
    using assms(4) by (simp add: sweep_all_def)
  moreover have "stuck_now recovery ?w = ?stuck" by (simp add: stuck_now_def)
  moreover have "sweep_all app [] w = w" "?w\<lparr>w_sweeping := False\<rparr> = w" using assms(4) by (simp_all add: sweep_all_def)
  ultimately show ?thesis
    using assms(1,3,4)
    by (auto simp: sweep_def findStuck_def stuck_now_def[symmetric] try_finally_def try_catch_def ret_def)
qed

subsection \<open>Purge, dead letters and errors\<close>

lemma keeps_ok_sweep [eff]: "keeps transfers_ok (sweep sv app recovery)"
  unfolding sweep_def sweep_one_def queue_add_def
  by (intro eff keeps_modify; simp add: transfers_ok_def)

lemma keeps_ok_purge [eff]: "keeps transfers_ok (purge sv d)"
  unfolding purge_def by (intro eff)

lemma purge_cases:
  assumes "days > 0"
  shows "sv_fault sv C_DeleteTerminal \<noteq> Healthy \<and> snd (purge sv days w) = w \<or>
    snd (purge sv days w) = w\<lparr>w_transfers := filter (\<lambda>r. \<not> purgeable (w_now w - days * MS_PER_DAY) r) (w_transfers w)\<rparr>"
proof -
  have "snd (purge sv days w) = snd (deleteTerminalOlderThan sv (w_now w - days * MS_PER_DAY) w)"
    using assms by (simp add: purge_def snd_bnd_ret)
  then show ?thesis by (auto simp: deleteTerminalOlderThan_def call_def await_def split: fault.splits)
qed

text \<open>The failure path leaves every table and queue alone; it counts the dead letter and may send an alert.\<close>

lemma dead_letter_footprint:
  "\<exists>as m. snd (dead_letter_process sv alerts job w) = w\<lparr>w_metrics := m, w_alerts := as\<rparr> \<and>
     m_deadLetter m = m_deadLetter (w_metrics w) + 1"
proof -
  have "\<exists>as. snd (notifyFailure sv alerts a u) = u\<lparr>w_alerts := as\<rparr>" for a u
    by (cases "sv_fault sv C_Alert")
      (auto simp: notifyFailure_def try_catch_def call_def await_def modify_def ret_def intro: exI[of _ "w_alerts u"])
  then have "\<exists>as. snd (bnd (findById sv C_FindById (dl_transferId job)) k u) = u\<lparr>w_alerts := as\<rparr>"
    if "\<And>x. k x = notifyFailure sv alerts (a x)" for k a u
    by (cases "sv_fault sv C_FindById")
      (auto simp: that findById_def call_def await_def bnd_def gets_def intro: exI[of _ "w_alerts u"])
  from this[of "\<lambda>x. notifyFailure sv alerts (_ x)", OF refl] obtain as where
    "snd (dead_letter_process sv alerts job w) = (recordDeadLetter w)\<lparr>w_alerts := as\<rparr>"
    unfolding dead_letter_process_def by fastforce
  then have "snd (dead_letter_process sv alerts job w) =
      w\<lparr>w_metrics := (w_metrics w)\<lparr>m_deadLetter := m_deadLetter (w_metrics w) + 1\<rparr>, w_alerts := as\<rparr>"
    by (simp add: recordDeadLetter_def upd_metrics_def)
  then show ?thesis by (intro exI conjI, assumption) simp
qed

text \<open>An unexpected error is answered with status 500 and a fixed text: nothing of the error is disclosed.\<close>

lemma unexpected_error_hidden: "catch_exception (OtherEx e) url ts = catch_exception (OtherEx e') url ts"
  by (simp add: catch_exception_def)

lemma envelope_status: "fst (catch_exception ex url ts) = eb_statusCode (snd (catch_exception ex url ts))"
  by (auto simp: catch_exception_def Let_def split: exception.splits http_response.splits)

section \<open>Properties\<close>

text \<open>The recovery sweep is safe under every pattern of faults and crashes: it changes only rows that
  were PENDING or PROCESSING for longer than the stale time and have used up their attempts (to
  FAILED, with a message), it adds only jobs for stuck rows with attempts left, and it touches
  nothing else; the table invariant is kept.\<close>

theorem sweep_touches_only_stuck_rows:
  assumes "transfers_ok w"
  shows "let w' = snd (sweep sv app recovery w) in
     list_all2 (\<lambda>r r'. r' = r \<or>
         ft_status r \<in> {PENDING, PROCESSING} \<and> ft_updatedAt r < w_now w - recovery_staleMs recovery \<and>
         app_transferMaxAttempts app \<le> ft_attempts r \<and>
         r' = set_failed (recovered_message (ft_attempts r)) (w_now w) r) (w_transfers w) (w_transfers w') \<and>
     (\<exists>added. w_queue w' = w_queue w @ added \<and>
        set added \<subseteq> sweep_job app ` {r \<in> set (stuck_now recovery w). ft_attempts r < app_transferMaxAttempts app}) \<and>
     sweep_rest w' = sweep_rest w \<and> transfers_ok w'"
proof -
  have stuck: "ft_status r \<in> {PENDING, PROCESSING} \<and> ft_updatedAt r < w_now w - recovery_staleMs recovery"
    if "r \<in> set (stuck_now recovery w)" for r
    using that stuck_rows_spec(1) unfolding stuck_now_def by blast
  let ?w' = "snd (sweep sv app recovery w)"
  note p = sweep_progress_sweep[OF assms, of app recovery sv, unfolded sweep_progress_def]
  have "list_all2 (\<lambda>r r'. r' = r \<or>
         ft_status r \<in> {PENDING, PROCESSING} \<and> ft_updatedAt r < w_now w - recovery_staleMs recovery \<and>
         app_transferMaxAttempts app \<le> ft_attempts r \<and>
         r' = set_failed (recovered_message (ft_attempts r)) (w_now w) r) (w_transfers w) (w_transfers ?w')"
    by (rule list.rel_mono_strong[OF p[THEN conjunct1]]) (use stuck in \<open>auto simp: swept_row_def\<close>)
  then show ?thesis
    using p keepsD[OF keeps_ok_sweep assms] unfolding Let_def by blast
qed

definition world_stuck :: world where
  "world_stuck = world0\<lparr>w_now := 5000, w_transfers :=
     [transfer1, transfer1\<lparr>ft_id := ''t2'', ft_idempotencyKey := ''k2'', ft_status := PROCESSING, ft_attempts := 3\<rparr>]\<rparr>"

lemma world_stuck_ok: "transfers_ok world_stuck" "\<not> w_sweeping world_stuck"
  by (simp_all add: transfers_ok_def world_stuck_def row_wf_def transfer1_def world0_def)

theorem sweep_touches_only_stuck_rows_witness:
  "transfers_ok (snd (sweep (with_fault (C_QueueAdd ''t1'') CrashAfter sv0) app0 (cfg_recovery cfg0) world_stuck))"
  using sweep_touches_only_stuck_rows[OF world_stuck_ok(1)] unfolding Let_def by blast

text \<open>C24: No stuck transfer is forgotten: when nothing fails, a sweep deals with every row of its batch (the
  longest stuck ones): one job is queued for each with attempts left, and each of the others becomes
  FAILED. The rows it fails get no dead letter, no failure event and no count in the metrics, unlike
  those that fail in the worker, since only the rows and the queue change.\<close>

theorem sweep_redrives_stuck_rows:
  assumes "healthy sv" "transfers_ok w" "recovery_enabled recovery" "\<not> w_sweeping w"
  shows "sweep sv app recovery w =
     (Done (), w\<lparr>w_transfers := map (\<lambda>r. if r \<in> set (stuck_now recovery w) \<and> app_transferMaxAttempts app \<le> ft_attempts r
            then set_failed (recovered_message (ft_attempts r)) (w_now w) r else r) (w_transfers w),
        w_queue := w_queue w @ map (sweep_job app)
            (filter (\<lambda>r. ft_attempts r < app_transferMaxAttempts app) (stuck_now recovery w))\<rparr>)"
  unfolding sweep_run[OF assms] by (simp add: sweep_all_def exhausted_def not_le)

theorem sweep_redrives_stuck_rows_witness:
  "map ft_status (w_transfers (snd (sweep sv0 app0 (cfg_recovery cfg0) world_stuck))) = [PENDING, FAILED] \<and>
   w_dlq (snd (sweep sv0 app0 (cfg_recovery cfg0) world_stuck)) = []"
  using sweep_redrives_stuck_rows[of sv0 world_stuck "cfg_recovery cfg0" app0] world_stuck_ok
  by (simp add: stuck_now_def stuck_rows_def cfg0_def app0_def order_asc_def world_stuck_def world0_def
      transfer1_def set_failed_def)

text \<open>C25: Retention removes only what is old and finished: whatever fails, the rows after a purge are those
  before it or all but the SUCCESS and FAILED rows last changed more than the configured days ago;
  everything else of the state is as it was, and retention 0 or below disables it.\<close>

theorem purge_removes_only_old_terminal_rows:
  "let w' = snd (purge sv days w) in
     (w' = w \<or> days > 0 \<and> w' = w\<lparr>w_transfers := filter (\<lambda>r. \<not> (ft_status r \<in> {SUCCESS, FAILED} \<and>
        ft_updatedAt r < w_now w - days * 86400000)) (w_transfers w)\<rparr>) \<and>
     (if days > 0 \<and> sv_fault sv C_DeleteTerminal = Healthy
      then w_transfers w' = filter (\<lambda>r. \<not> (ft_status r \<in> {SUCCESS, FAILED} \<and> ft_updatedAt r < w_now w - days * 86400000)) (w_transfers w)
      else True)"
proof (cases "days > 0")
  case True
  with purge_cases[OF True, of sv w] show ?thesis
    by (auto simp: Let_def purgeable_def MS_PER_DAY_def cong: conj_cong)
qed (simp add: purge_def ret_def)

end
