(* ===== verification/Lifecycle.thy ===== *)
theory Lifecycle
  imports Ingestion Outcomes Management Maintenance
begin

text \<open>
  The running system: every handler of the program as a step on the shared state, in any order and
  each under its own faults, with the passing of time and the restart of the process. A handler is
  one step; handlers of different requests interleave between steps. What holds in every state
  that such runs reach is proved by induction over them.
\<close>

section \<open>The steps\<close>

inductive step :: "app_config \<Rightarrow> CryptoService \<Rightarrow> string \<Rightarrow> world \<Rightarrow> world \<Rightarrow> bool"
  for cfg :: app_config and cs :: CryptoService and cwd :: string where
  Webhook: "step cfg cs cwd w (snd (handleWebhook sv cfg cwd carrier req p w))"
| Relay: "step cfg cs cwd w (snd (relay sv w))"
| Work: "w_queue w = xs @ job # ys \<Longrightarrow>
    step cfg cs cwd w (settle_job sv svf cfg cs job (w\<lparr>w_queue := xs @ ys\<rparr>))"
| DeadLetter: "job \<in> set (w_dlq w) \<Longrightarrow> step cfg cs cwd w (snd (dead_letter_process sv (cfg_alerts cfg) job w))"
| Deliver: "d \<in> set (w_deliveries w) \<Longrightarrow> step cfg cs cwd w (snd (delivery_process sv d w))"
| Sweep: "step cfg cs cwd w (snd (sweep sv (cfg_app cfg) (cfg_recovery cfg) w))"
| Purge: "step cfg cs cwd w (snd (purge sv (cfg_retentionAuditDays cfg) w))"
| Retry: "step cfg cs cwd w (snd (post_retry sv (cfg_app cfg) al isUuid bearer i w))"
| RetryBatch: "step cfg cs cwd w (snd (post_retry_batch sv (cfg_app cfg) al bearer dto w))"
| Subscribe: "step cfg cs cwd w (snd (post_subscription sv al isUrl bearer sdto w))"
| Unsubscribe: "step cfg cs cwd w (snd (delete_subscription sv al isUuid bearer i w))"
| AddUser: "step cfg cs cwd w (snd (users_create sv al (cfg_tenancy cfg) bearer udto w))"
| Tick: "w_now w \<le> t \<Longrightarrow> step cfg cs cwd w (w\<lparr>w_now := t\<rparr>)"
| Restart: "step cfg cs cwd w (w\<lparr>w_metrics := metrics0, w_relaying := False, w_sweeping := False,
    w_kafkaProducer := False, w_kafkaReady := False\<rparr>)"
| Shutdown: "step cfg cs cwd w (snd (kafka_onModuleDestroy sv w))"
| Boot: "step cfg cs cwd w (snd (seq (kafka_onModuleInit sv (cfg_kafka cfg)) (auth_onModuleInit sv al (cfg_auth cfg)) w))"

definition initial :: "world \<Rightarrow> bool" where
  "initial w \<longleftrightarrow> w_transfers w = [] \<and> w_outbox w = [] \<and> w_queue w = [] \<and> w_dlq w = []"

definition reachable :: "app_config \<Rightarrow> CryptoService \<Rightarrow> string \<Rightarrow> world \<Rightarrow> bool" where
  "reachable cfg cs cwd w \<longleftrightarrow> (\<exists>w0. initial w0 \<and> (step cfg cs cwd)\<^sup>*\<^sup>* w0 w)"

section \<open>Invariants of a transition system\<close>

locale invariant_of =
  fixes init :: "'s \<Rightarrow> bool" and next_state :: "'s \<Rightarrow> 's \<Rightarrow> bool" and inv :: "'s \<Rightarrow> bool"
  assumes inv_init: "init s \<Longrightarrow> inv s"
    and inv_next: "next_state s t \<Longrightarrow> inv s \<Longrightarrow> inv t"
begin

lemma inv_run: "next_state\<^sup>*\<^sup>* s t \<Longrightarrow> inv s \<Longrightarrow> inv t"
  by (induction rule: rtranclp_induct) (auto intro: inv_next)

lemma inv_reachable: "init s \<Longrightarrow> next_state\<^sup>*\<^sup>* s t \<Longrightarrow> inv t"
  using inv_init inv_run by blast

end

section \<open>The invariant\<close>

text \<open>The transfers that rows, jobs and dead letters name, and those the outbox has an event for.\<close>

definition named :: "world \<Rightarrow> string set" where
  "named w = ft_id ` set (w_transfers w) \<union> job_id ` set (w_queue w) \<union> dl_transferId ` set (w_dlq w)"

lemma named_mono:
  assumes "job_id ` set (w_queue w') \<subseteq> job_id ` set (w_queue w) \<union> ft_id ` set (w_transfers w)"
    and "ft_id ` set (w_transfers w') \<subseteq> ft_id ` set (w_transfers w)"
    and "dl_transferId ` set (w_dlq w') \<subseteq> dl_transferId ` set (w_dlq w) \<union> job_id ` set (w_queue w)"
  shows "named w' \<subseteq> named w"
  unfolding named_def
proof (intro Un_least)
  show "ft_id ` set (w_transfers w') \<subseteq> ft_id ` set (w_transfers w) \<union> job_id ` set (w_queue w) \<union> dl_transferId ` set (w_dlq w)"
    using assms(2) by (simp only: le_supI1)
qed (rule order_trans, rule assms, simp only: Un_least Un_upper1 Un_upper2 le_supI1 le_supI2 order_refl)+

definition recorded :: "world \<Rightarrow> string set" where
  "recorded w = oe_aggregateId ` set (w_outbox w)"

definition success_stored :: "world \<Rightarrow> bool" where
  "success_stored w \<longleftrightarrow> (\<forall>r\<in>set (w_transfers w). ft_status r = SUCCESS \<longrightarrow>
     (\<exists>k. ft_objectKey r = Some k \<and> w_objects w (ft_bucket r, k) \<noteq> None))"

definition in_root :: "app_config \<Rightarrow> string \<Rightarrow> string \<Rightarrow> bool" where
  "in_root cfg cwd path \<longleftrightarrow>
     (\<exists>rest. segs path = segs (data_root cwd cfg) @ rest \<and> clean (segs path) \<and> path = mk_abs (segs path))"

definition paths_in_root :: "app_config \<Rightarrow> string \<Rightarrow> world \<Rightarrow> bool" where
  "paths_in_root cfg cwd w \<longleftrightarrow> (\<forall>r\<in>set (w_transfers w). in_root cfg cwd (ft_sourcePath r))"

definition sys_inv :: "app_config \<Rightarrow> string \<Rightarrow> world \<Rightarrow> bool" where
  "sys_inv cfg cwd w \<longleftrightarrow> transfers_ok w \<and> outbox_ok w \<and> named w \<subseteq> recorded w \<and> success_stored w \<and>
     paths_in_root cfg cwd w"

text \<open>
  What every handler but the webhook and the relay guarantees: it keeps the table invariant, leaves the
  outbox alone, adds no row and changes no row's identity, names no new transfer, and leaves no
  SUCCESS row without its object. From these laws the system invariant follows, and that the
  identity of a row is permanent.
\<close>

locale lawful =
  fixes R :: "world \<Rightarrow> world \<Rightarrow> bool"
  assumes ok_law: "R w w' \<Longrightarrow> transfers_ok w \<Longrightarrow> transfers_ok w'"
    and outbox_law: "R w w' \<Longrightarrow> w_outbox w' = w_outbox w"
    and ident_law: "R w w' \<Longrightarrow> transfers_ok w \<Longrightarrow> ident ` set (w_transfers w') \<subseteq> ident ` set (w_transfers w)"
    and names_law: "R w w' \<Longrightarrow> transfers_ok w \<Longrightarrow> named w' \<subseteq> named w"
    and stored_law: "R w w' \<Longrightarrow> transfers_ok w \<Longrightarrow> success_stored w \<Longrightarrow> success_stored w'"
begin

lemma keeps_inv: "R w w' \<Longrightarrow> sys_inv cfg cwd w \<Longrightarrow> sys_inv cfg cwd w'"
proof -
  assume R: "R w w'" and inv: "sys_inv cfg cwd w"
  then have ok: "transfers_ok w" by (simp add: sys_inv_def)
  have "in_root cfg cwd (ft_sourcePath r')" if "r' \<in> set (w_transfers w')" for r'
  proof -
    have "ident r' \<in> ident ` set (w_transfers w)" using ident_law[OF R ok] that by blast
    then obtain r where "ident r' = ident r" "r \<in> set (w_transfers w)" by (rule imageE)
    with inv show ?thesis by (auto simp: sys_inv_def paths_in_root_def ident_def)
  qed
  then show ?thesis
    using inv ok_law[OF R ok] outbox_law[OF R] names_law[OF R ok] stored_law[OF R ok]
    by (auto simp: sys_inv_def paths_in_root_def outbox_ok_def recorded_def)
qed

lemma ident_permanent:
  assumes "R w w'" "transfers_ok w" "r \<in> set (w_transfers w)" "r' \<in> set (w_transfers w')" "ft_id r' = ft_id r"
  shows "ident r' = ident r"
proof -
  have "ident r' \<in> ident ` set (w_transfers w)" using ident_law[OF assms(1,2)] assms(4) by blast
  then obtain x where x: "ident r' = ident x" "x \<in> set (w_transfers w)" by (rule imageE)
  then have "ft_id x = ft_id r" using assms(5) by (simp add: ident_def)
  with x(2) assms(2,3) have "x = r" by (auto simp: transfers_ok_def distinct_map dest: inj_onD)
  with x(1) show ?thesis by simp
qed

end

section \<open>The handlers are lawful\<close>

text \<open>Handlers that touch none of the transfers, the outbox, the queue, the dead letters and the objects.\<close>

definition core :: "world \<Rightarrow> FileTransfer list \<times> OutboxEvent list \<times> TransferJob list \<times> DeadLetterJobData list \<times>
    (string \<times> string \<Rightarrow> StoredObject option)" where
  "core w = (w_transfers w, w_outbox w, w_queue w, w_dlq w, w_objects w)"

interpretation outside: lawful "\<lambda>w w'. core w' = core w"
  by unfold_locales (auto simp: core_def transfers_ok_def named_def success_stored_def)

lemma frame_guarded [eff]: "(\<And>user. frame f (h user)) \<Longrightarrow> frame f (guarded al roles bearer h)"
  unfolding guarded_def jwt_guard_def roles_canActivate_def Let_def by (intro eff)

lemma frame_parse_uuid [eff]: "frame f m \<Longrightarrow> frame f (parse_uuid isUuid i m)"
  unfolding parse_uuid_def by (intro eff)

lemma core_metric [simp]:
  "core (w\<lparr>w_metrics := m\<rparr>) = core w" "core (w\<lparr>w_posts := ps\<rparr>) = core w" "core (w\<lparr>w_alerts := as\<rparr>) = core w"
  "core (w\<lparr>w_subs := ss\<rparr>) = core w" "core (w\<lparr>w_users := us\<rparr>) = core w" "core (w\<lparr>w_now := t\<rparr>) = core w"
  "core (w\<lparr>w_kafkaReady := b\<rparr>) = core w" "core (w\<lparr>w_kafkaProducer := b\<rparr>) = core w"
  "core (w\<lparr>w_relaying := b\<rparr>) = core w" "core (w\<lparr>w_sweeping := b\<rparr>) = core w"
  by (simp_all add: core_def)

lemma core_metrics [simp]: "core (recordDeadLetter w) = core w" "core (recordWebhookDelivery d w) = core w"
  by (simp_all add: metric_defs upd_metrics_def)

lemma frame_core_dead_letter: "frame core (dead_letter_process sv alerts job)"
  unfolding dead_letter_process_def notifyFailure_def by (intro eff frame_modify; simp)

lemma frame_core_delivery: "frame core (delivery_process sv d)"
  unfolding delivery_process_def Let_def by (intro eff frame_modify; simp)

lemma frame_core_subs: "frame core (post_subscription sv al isUrl bearer dto)"
  "frame core (delete_subscription sv al isUuid bearer i)"
  unfolding post_subscription_def sub_create_def delete_subscription_def sub_remove_def
  by (intro eff frame_modify; simp add: frame_def Let_def)+

lemma frame_core_users: "frame core (insert_user i u h rs t)" "frame core (users_create sv al tenancy bearer dto)"
  "frame core (auth_onModuleInit sv al auth)" "frame core (kafka_onModuleInit sv kafka)"
  "frame core (kafka_onModuleDestroy sv)"
proof -
  show ins: "frame core (insert_user i u h rs t)" for i u h rs t
    by (simp add: frame_def insert_user_def Let_def)
  show "frame core (users_create sv al tenancy bearer dto)" "frame core (auth_onModuleInit sv al auth)"
    unfolding users_create_def createUser_def auth_onModuleInit_def by (intro eff ins)+
  show "frame core (kafka_onModuleInit sv kafka)"
    unfolding kafka_onModuleInit_def by (intro eff frame_modify; simp)
  show "frame core (kafka_onModuleDestroy sv)"
    unfolding kafka_onModuleDestroy_def by (intro eff)
qed

subsection \<open>Sweep and purge\<close>

lemma success_stored_subset:
  assumes "success_stored w" "w_objects w' = w_objects w"
    and "\<And>r. r \<in> set (w_transfers w') \<Longrightarrow> ft_status r = SUCCESS \<Longrightarrow> r \<in> set (w_transfers w)"
  shows "success_stored w'"
  using assms by (simp add: success_stored_def)

lemma list_all2_setD: "list_all2 Q xs ys \<Longrightarrow> y \<in> set ys \<Longrightarrow> \<exists>x\<in>set xs. Q x y"
  by (auto simp: list_all2_conv_all_nth in_set_conv_nth) (metis nth_mem)

lemma swept_ident: "swept_row app stuck now r r' \<Longrightarrow> ident r' = ident r"
  unfolding swept_row_def using failed.patch_ident by auto

lemma swept_success: "swept_row app stuck now r r' \<Longrightarrow> ft_status r' = SUCCESS \<Longrightarrow> r' = r"
  unfolding swept_row_def by (auto simp: set_failed_def)

lemma sweep_rest_parts:
  assumes "sweep_rest w' = sweep_rest w"
  shows "w_outbox w' = w_outbox w" "w_dlq w' = w_dlq w" "w_objects w' = w_objects w"
  using arg_cong[OF assms, of w_outbox] arg_cong[OF assms, of w_dlq] arg_cong[OF assms, of w_objects]
  by (simp_all add: sweep_rest_def)

interpretation swept: lawful "\<lambda>w w'. \<exists>sv. w' = snd (sweep sv app recovery w)" for app recovery
proof
  fix w w'
  assume "\<exists>sv. w' = snd (sweep sv app recovery w)"
  then obtain sv where w': "w' = snd (sweep sv app recovery w)" by blast
  show "transfers_ok w'" if "transfers_ok w" unfolding w' by (rule keepsD[OF keeps_ok_sweep that])
  show "w_outbox w' = w_outbox w"
    unfolding w' sweep_def sweep_one_def queue_add_def findStuck_def markFailed_def
    by (rule frameD) (intro eff frame_modify; simp)
  assume ok: "transfers_ok w"
  note p = sweep_progress_sweep[OF ok, of app recovery sv, folded w', unfolded sweep_progress_def]
  note rows = list_all2_setD[OF p[THEN conjunct1]] and parts = sweep_rest_parts[of w' w]
  show id: "ident ` set (w_transfers w') \<subseteq> ident ` set (w_transfers w)"
    using rows swept_ident by (force intro: image_eqI)
  have stuck: "ft_id ` set (stuck_now recovery w) \<subseteq> ft_id ` set (w_transfers w)"
    unfolding stuck_now_def by (rule image_mono) (rule stuck_subset)
  obtain added where a: "w_queue w' = w_queue w @ added" "set added \<subseteq> sweep_job app ` set (stuck_now recovery w)"
    using p by blast
  have "job_id (sweep_job app r) = ft_id r" for r by (simp add: sweep_job_def mk_job_def)
  then have "job_id ` set added \<subseteq> ft_id ` set (stuck_now recovery w)" using a(2) by (fastforce simp: image_iff)
  with stuck have "job_id ` set (w_queue w') \<subseteq> job_id ` set (w_queue w) \<union> ft_id ` set (w_transfers w)"
    unfolding a(1) set_append image_Un by blast
  then show "named w' \<subseteq> named w"
  proof (rule named_mono)
    show "ft_id ` set (w_transfers w') \<subseteq> ft_id ` set (w_transfers w)"
      using rows by (force simp: swept_row_def set_failed_def)
    show "dl_transferId ` set (w_dlq w') \<subseteq> dl_transferId ` set (w_dlq w) \<union> job_id ` set (w_queue w)"
      using p parts(2) by simp
  qed
  show "success_stored w'" if "success_stored w"
  proof (rule success_stored_subset[OF that])
    show "w_objects w' = w_objects w" using p parts(3) by blast
    show "r \<in> set (w_transfers w)" if r: "r \<in> set (w_transfers w')" "ft_status r = SUCCESS" for r
    proof -
      obtain x where "x \<in> set (w_transfers w)" "swept_row app (stuck_now recovery w) (w_now w) x r" using rows[OF r(1)] by blast
      then show ?thesis using swept_success[OF _ r(2)] by blast
    qed
  qed
qed

interpretation purged: lawful "\<lambda>w w'. \<exists>sv. w' = snd (purge sv days w)" for days
proof
  fix w w'
  assume "\<exists>sv. w' = snd (purge sv days w)"
  then obtain sv where w': "w' = snd (purge sv days w)" by blast
  have cases: "w' = w \<or> (\<exists>P. w' = w\<lparr>w_transfers := filter P (w_transfers w)\<rparr>)"
    unfolding w' using purge_cases[of days sv w] by (cases "days > 0") (auto simp: purge_def ret_def)
  show "transfers_ok w'" if "transfers_ok w" unfolding w' by (rule keepsD[OF keeps_ok_purge that])
  show "w_outbox w' = w_outbox w" "ident ` set (w_transfers w') \<subseteq> ident ` set (w_transfers w)" "named w' \<subseteq> named w"
    using cases by (auto simp: named_def)
  show "success_stored w'" if "success_stored w"
    using that by (rule success_stored_subset) (use cases in auto)
qed

subsection \<open>Retries through the API\<close>

text \<open>The state as a retry may leave it on the way: identities, outbox, dead letters and objects as they were,
  a SUCCESS row unchanged, and only jobs for transfers in \<open>K\<close> added.\<close>

definition retried :: "string set \<Rightarrow> world \<Rightarrow> world \<Rightarrow> bool" where
  "retried K w0 w \<longleftrightarrow> map ident (w_transfers w) = map ident (w_transfers w0) \<and> w_outbox w = w_outbox w0 \<and>
     w_dlq w = w_dlq w0 \<and> w_objects w = w_objects w0 \<and>
     (\<forall>r\<in>set (w_transfers w). ft_status r = SUCCESS \<longrightarrow> r \<in> set (w_transfers w0)) \<and>
     job_id ` set (w_queue w) \<subseteq> job_id ` set (w_queue w0) \<union> K"

lemma retried_refl: "retried K w w"
  by (simp add: retried_def)

lemma ident_ids: "map ident rs = map ident rs' \<Longrightarrow> map ft_id rs = map ft_id rs'"
proof -
  assume "map ident rs = map ident rs'"
  then have "map fst (map ident rs) = map fst (map ident rs')" by (rule arg_cong)
  then show ?thesis by (simp add: ident_def comp_def)
qed

lemma retried_reset: "keeps (retried K w0) (reset_one sv mgr i)"
  unfolding reset_one_def
proof (intro eff keeps_modify)
  fix w
  assume w: "retried K w0 w"
  have "map ident (w_transfers (rls_update mgr i (reset_row (w_now w)) w)) = map ident (w_transfers w)"
    using reset.patch_ident by (simp add: rls_update_def)
  with w show "retried K w0 (rls_update mgr i (reset_row (w_now w)) w)"
    by (auto simp: retried_def rls_update_def reset_row_def)
qed

lemma retried_add: "tj_transferId d \<in> K \<Longrightarrow> keeps (retried K w0) (queue_add sv a n d)"
  unfolding queue_add_def by (intro eff keeps_modify) (auto simp: retried_def mk_job_def)

lemma ok_rls_reset: "keeps transfers_ok (reset_one sv mgr i)"
  unfolding reset_one_def
proof (intro eff keeps_modify)
  fix w
  assume w: "transfers_ok w"
  have ids: "map g (w_transfers (rls_update mgr i (reset_row (w_now w)) w)) = map g (w_transfers w)"
    if "\<And>r. g (reset_row (w_now w) r) = g r" for g :: "FileTransfer \<Rightarrow> string"
    using that by (simp add: rls_update_def)
  show "transfers_ok (rls_update mgr i (reset_row (w_now w)) w)"
    unfolding transfers_ok_def
  proof (intro conjI)
    show "list_all row_wf (w_transfers (rls_update mgr i (reset_row (w_now w)) w))"
      using w reset.patch_wf by (auto simp: transfers_ok_def rls_update_def list_all_iff)
  qed (use w in \<open>simp_all add: ids transfers_ok_def reset.patch_id reset.patch_key\<close>)
qed

lemma ok_queue_add: "keeps transfers_ok (queue_add sv a n d)"
  unfolding queue_add_def by (intro eff keeps_modify) (simp add: transfers_ok_def)

lemma ok_retry: "keeps transfers_ok (retry sv app i user)" "keeps transfers_ok (retryBatch sv app dto user)"
  unfolding retry_def retryBatch_def Let_def reset_one_def[symmetric]
  by (intro eff keeps_scoped ok_rls_reset ok_queue_add)+

lemma scoped_then:
  assumes "keeps P (work (setting_of user))" "P w"
    and "\<And>a w'. work (setting_of user) w = (Done a, w') \<Longrightarrow> keeps P (k a)"
  shows "P (snd (bnd (scoped sv user work) k w))"
proof -
  obtain x w' where run: "scoped sv user work w = (x, w')" by fastforce
  have "keeps P (scoped sv user work)" by (rule keeps_scoped) (rule assms(1))
  from keepsD[OF this assms(2)] have "P w'" using run by simp
  moreover have "keeps P (k a)" if "x = Done a" for a
    by (rule assms(3), rule scoped_Done) (use run that in simp)
  ultimately show ?thesis
    using run by (cases x) (auto simp: bnd_def dest: keepsD)
qed

lemma retried_retry: "retried (ft_id ` set (w_transfers w)) w (snd (retry sv app i user w))"
  unfolding retry_def reset_one_def[symmetric]
proof (rule scoped_then)
  let ?K = "ft_id ` set (w_transfers w)" and ?m = "setting_of user"
  let ?work = "bnd (call sv C_Find (gets (rls_find ?m i))) (\<lambda>found. case found of
               None \<Rightarrow> throw (not_found i)
             | Some t \<Rightarrow>
                 if ft_status t = SUCCESS then
                   throw (HttpException 409 ''ConflictException'' (''Transfer '' @ i @ '' already succeeded; nothing to retry''))
                 else
                   seq (reset_one sv ?m i)
                     (bnd (call sv C_FindOrFail (gets (rls_find ?m i))) (\<lambda>r. case r of
                         None \<Rightarrow> throw (JsError ''EntityNotFoundError'' ''Could not find any entity of type FileTransfer'')
                       | Some t' \<Rightarrow> ret t')))"
  show "keeps (retried ?K w) ?work" by (intro eff retried_reset)
  show "retried ?K w w" by (rule retried_refl)
  fix a w'
  assume "?work w = (Done a, w')"
  then have "rls_find ?m i w \<noteq> None" by (auto simp: bnd_Done_iff call_Done_iff split: option.splits)
  then have "i \<in> ?K" by (auto dest: rls_find_Some)
  then show "keeps (retried ?K w) (seq (queue_add sv (ingestion_queue_attempts app) TRANSFER_JOB \<lparr>tj_transferId = i, tj_carrier = None\<rparr>) (ret a))"
    by (intro eff retried_add) simp
qed

lemma retried_retryBatch: "retried (ft_id ` set (w_transfers w)) w (snd (retryBatch sv app dto user w))"
proof (cases "(case rb_status dto of None \<Rightarrow> FAILED | Some s \<Rightarrow> s) = SUCCESS")
  case True
  then show ?thesis by (simp add: retryBatch_def throw_def retried_refl)
next
  case False
  let ?K = "ft_id ` set (w_transfers w)" and ?m = "setting_of user" and ?s = "case rb_status dto of None \<Rightarrow> FAILED | Some s \<Rightarrow> s"
  let ?q = "\<lambda>w. retry_rows ?s (rb_before dto) (rb_limit dto) (rls_rows ?m w)"
  let ?work = "bnd (call sv C_Find (gets ?q)) (\<lambda>matches. seq (for_each (reset_one sv ?m) (map ft_id matches)) (ret (map ft_id matches)))"
  have "retried ?K w (snd (bnd (scoped sv user (\<lambda>mgr.
          bnd (call sv C_Find (gets (\<lambda>w. retry_rows ?s (rb_before dto) (rb_limit dto) (rls_rows mgr w))))
            (\<lambda>matches. seq (for_each (reset_one sv mgr) (map ft_id matches)) (ret (map ft_id matches)))))
        (\<lambda>ids. seq (for_each (\<lambda>i. queue_add sv (ingestion_queue_attempts app) TRANSFER_JOB
            \<lparr>tj_transferId = i, tj_carrier = None\<rparr>) ids) (ret (length ids, ids))) w))"
  proof (rule scoped_then)
    show "keeps (retried ?K w) ?work" by (intro eff retried_reset)
    show "retried ?K w w" by (rule retried_refl)
    fix ids w'
    assume "?work w = (Done ids, w')"
    then have "ids = map ft_id (?q w)" by (auto simp: bnd_Done_iff seq_Done_iff call_Done_iff)
    moreover have "set (?q w) \<subseteq> set (w_transfers w)" using retry_rows_spec(1) by (fastforce simp: rls_rows_def)
    ultimately have "set ids \<subseteq> ?K" by auto
    then show "keeps (retried ?K w) (seq (for_each (\<lambda>i. queue_add sv (ingestion_queue_attempts app) TRANSFER_JOB
            \<lparr>tj_transferId = i, tj_carrier = None\<rparr>) ids) (ret (length ids, ids)))"
      by (intro eff retried_add) auto
  qed
  with False show ?thesis by (simp add: retryBatch_def)
qed

interpretation retries: lawful "\<lambda>w w'. retried (ft_id ` set (w_transfers w)) w w' \<and> (transfers_ok w \<longrightarrow> transfers_ok w')"
proof
  fix w w'
  assume r: "retried (ft_id ` set (w_transfers w)) w w' \<and> (transfers_ok w \<longrightarrow> transfers_ok w')"
  then have idents: "map ident (w_transfers w') = map ident (w_transfers w)" by (simp add: retried_def)
  show "transfers_ok w \<Longrightarrow> transfers_ok w'" "w_outbox w' = w_outbox w" using r by (simp_all add: retried_def)
  show "ident ` set (w_transfers w') \<subseteq> ident ` set (w_transfers w)" using arg_cong[OF idents, of set] by simp
  have "ft_id ` set (w_transfers w') = ft_id ` set (w_transfers w)" using arg_cong[OF ident_ids[OF idents], of set] by simp
  then show "named w' \<subseteq> named w" using r unfolding named_def retried_def by auto
  show "success_stored w'" if "success_stored w"
    using that by (rule success_stored_subset) (use r in \<open>auto simp: retried_def\<close>)
qed

subsection \<open>The worker\<close>

definition dlq_within :: "string set \<Rightarrow> world \<Rightarrow> bool" where
  "dlq_within K w \<longleftrightarrow> dl_transferId ` set (w_dlq w) \<subseteq> K"

lemma dlq_within_frame: "frame w_dlq m \<Longrightarrow> keeps (dlq_within K) m"
  by (erule keeps_from_frame) (simp add: dlq_within_def)

lemma dlq_within_dead: "i \<in> K \<Longrightarrow> keeps (dlq_within K) (toDeadLetter sv i r)"
  unfolding toDeadLetter_def by (intro eff keeps_modify) (auto simp: dlq_within_def)

lemma frame_dlq_parts [eff]:
  "frame w_dlq (markProcessing sv i)" "frame w_dlq (markFailed sv i m)" "frame w_dlq (markSuccess sv i b k e c n d)"
  by (rule frame_modify_transfer; simp)+

lemma dlq_within_on_error: "ft_id t \<in> K \<Longrightarrow> keeps (dlq_within K) (on_error sv cfg t e)"
  unfolding on_error_def
  by (intro eff dlq_within_dead dlq_within_frame[OF frame_modify] dlq_within_frame[OF frame_publish_parts(5)]
      dlq_within_frame[OF frame_dlq_parts(2)]) (simp_all add: metric_defs)

lemma dlq_within_onFailed: "job_id job \<in> K \<Longrightarrow> keeps (dlq_within K) (onFailed sv cfg job e)"
  unfolding onFailed_def Let_def
  by (intro eff dlq_within_dead dlq_within_frame[OF frame_modify] dlq_within_frame[OF frame_publish_parts(5)]
      dlq_within_frame[OF frame_dlq_parts(2)]) (simp_all add: metric_defs)

lemma frame_dlq_complete: "frame w_dlq (complete sv cfg t pr)"
  unfolding complete_def by (intro eff frame_upload; simp)

text \<open>What a job keeps, when its parts do.\<close>

lemma keeps_process:
  assumes "\<And>t pr w0. ft_id t = job_id job \<Longrightarrow> prepared_ok sv cfg cs t pr w0 \<Longrightarrow> keeps P (complete sv cfg t pr)"
    and "\<And>t e. ft_id t = job_id job \<Longrightarrow> keeps P (on_error sv cfg t e)" "keeps P (markProcessing sv (job_id job))"
    and metric: "\<And>w. P (endTimer (decInFlight w)) = P w" "\<And>w. P (incInFlight w) = P w"
  shows "keeps P (process_job sv cfg cs job)"
proof -
  have body: "keeps P (bnd (prepare sv cfg cs t) (complete sv cfg t))" if "ft_id t = job_id job" for t
    unfolding keeps_def
  proof (intro allI impI)
    fix w
    assume w: "P w"
    obtain x where run: "prepare sv cfg cs t w = (x, w)" using prepare_pure[of sv cfg cs t w] by (metis prod.collapse)
    then show "P (snd (bnd (prepare sv cfg cs t) (complete sv cfg t) w))"
      using w keepsD[OF assms(1)[OF that prepare_Done]] by (cases x) (simp_all add: bnd_def)
  qed
  have "keeps P (seq (markProcessing sv (ft_id t)) (guarded_body sv cfg cs t))" if "ft_id t = job_id job" for t
    using that assms(2,3) body by (intro keeps_seq keeps_try_finally keeps_try_catch) (simp_all add: metric)
  then show ?thesis
    unfolding keeps_def process_job_runTransfer runTransfer_cases
    by (auto simp: metric dest: row_find_SomeD split: option.splits)
qed

lemma dlq_within_process: "job_id job \<in> K \<Longrightarrow> keeps (dlq_within K) (process_job sv cfg cs job)"
  by (rule keeps_process) (simp_all add: dlq_within_frame[OF frame_dlq_complete] dlq_within_on_error
      dlq_within_frame[OF frame_dlq_parts(1)], simp_all add: dlq_within_def metric_defs)

text \<open>Objects do not disappear.\<close>

definition present :: "string \<times> string \<Rightarrow> world \<Rightarrow> bool" where
  "present x w \<longleftrightarrow> w_objects w x \<noteq> None"

lemma present_frame: "frame w_objects m \<Longrightarrow> keeps (present x) m"
  by (erule keeps_from_frame) (simp add: present_def)

lemma present_upload: "keeps (present x) (uploadStream sv cfg params)"
proof -
  have "keeps (present x) (head_bucket b)" "keeps (present x) (create_bucket b)"
    "keeps (present x) (put_object b k body ct len)" for b k body ct len
    by (auto simp: keeps_def present_def head_bucket_def create_bucket_def put_object_def modify_def)
  note prim = this
  show ?thesis unfolding uploadStream_def ensureBucket_def Let_def by (intro eff prim)
qed

text \<open>An object is in a bucket that exists.\<close>

definition store_ok :: "world \<Rightarrow> bool" where
  "store_ok w \<longleftrightarrow> (\<forall>b k. w_objects w (b, k) \<noteq> None \<longrightarrow> b \<in> set (w_buckets w))"

lemma store_frame: "frame (\<lambda>w. (w_objects w, w_buckets w)) m \<Longrightarrow> keeps store_ok m"
  by (erule keeps_from_frame) (simp add: store_ok_def)

lemma store_process: "keeps store_ok (process_job sv cfg cs job)"
proof (rule keeps_process)
  let ?f = "\<lambda>w. (w_objects w, w_buckets w)"
  have marks: "frame ?f (markProcessing sv i)" "frame ?f (markFailed sv i m)" "frame ?f (markSuccess sv i b k e c n d)"
    for i m b k e c n d by (rule frame_modify_transfer; simp)+
  have pub: "frame ?f (publishTransferEvent sv k t ty d)" for k t ty d by (rule frame_publish) simp_all
  have "keeps store_ok (head_bucket b)" "keeps store_ok (create_bucket b)" "keeps store_ok (put_object b k body ct len)"
    for b k body ct len
    by (auto simp: keeps_def store_ok_def head_bucket_def create_bucket_def put_object_def modify_def)
  note prim = this
  show "keeps store_ok (complete sv cfg t pr)" for t pr
    unfolding complete_def after_success_def uploadStream_def ensureBucket_def Let_def
    by (intro eff prim store_frame[OF marks(3)] store_frame[OF frame_recordUsage] store_frame[OF pub] store_frame[OF frame_modify])
      (simp_all add: metric_defs upsert_usage_def upd_usage_def split: option.split)
  show "keeps store_ok (on_error sv cfg t e)" for t e
    unfolding on_error_def
    by (intro eff store_frame[OF marks(2)] store_frame[OF pub] store_frame[OF frame_modify] store_frame[OF frame_toDeadLetter])
      (simp_all add: metric_defs)
  show "keeps store_ok (markProcessing sv (job_id job))" by (rule store_frame[OF marks(1)])
qed (simp_all add: store_ok_def metric_defs)

lemma present_process: "keeps (present x) (process_job sv cfg cs job)"
proof (rule keeps_process)
  have marks: "frame w_objects (markProcessing sv i)" "frame w_objects (markFailed sv i m)"
    "frame w_objects (markSuccess sv i b k e c n d)" for i m b k e c n d
    by (rule frame_modify_transfer; simp)+
  show "keeps (present x) (complete sv cfg t pr)" for t pr
    unfolding complete_def by (intro eff present_upload present_frame[OF marks(3)] present_frame[OF frame_after_success(2)])
  show "keeps (present x) (on_error sv cfg t e)" for t e
    unfolding on_error_def
    by (intro eff present_frame frame_modify marks frame_toDeadLetter) (simp_all add: metric_defs)
  show "keeps (present x) (markProcessing sv (job_id job))" by (rule present_frame[OF marks(1)])
qed (simp_all add: present_def metric_defs)

text \<open>What a run of the processor, and of the failure handler, guarantees.\<close>

definition job_law :: "string \<Rightarrow> world \<Rightarrow> world \<Rightarrow> bool" where
  "job_law i w w' \<longleftrightarrow> map ident (w_transfers w') = map ident (w_transfers w) \<and> w_outbox w' = w_outbox w \<and>
     w_queue w' = w_queue w \<and> dl_transferId ` set (w_dlq w') \<subseteq> insert i (dl_transferId ` set (w_dlq w)) \<and>
     (transfers_ok w \<longrightarrow> transfers_ok w' \<and> (success_stored w \<longrightarrow> success_stored w'))"

lemma job_law_trans: "job_law i u v \<Longrightarrow> job_law i v w \<Longrightarrow> job_law i u w"
  unfolding job_law_def by (intro conjI) (simp, simp, simp, blast, blast)

lemma success_stored_process:
  assumes "transfers_ok w" "success_stored w"
  shows "success_stored (snd (process_job sv cfg cs job w))"
proof (cases "\<exists>t. find_transfer (job_id job) w = Some t \<and> ft_status t \<noteq> SUCCESS")
  case False
  then have "snd (process_job sv cfg cs job w) = w"
    by (auto simp: process_job_runTransfer runTransfer_cases split: option.splits)
  then show ?thesis using assms(2) by simp
next
  case True
  then obtain t where t: "find_transfer (job_id job) w = Some t" "ft_status t \<noteq> SUCCESS" by blast
  let ?w = "snd (process_job sv cfg cs job w)"
  have id: "ft_id t = job_id job" using t(1) by (auto dest: row_find_SomeD)
  have ok: "transfers_ok ?w" by (rule keepsD[OF keeps_ok_process assms(1)])
  have others: "other_rows (job_id job) ?w = other_rows (job_id job) w"
    by (rule job_rows.frame_run[OF refl, where target = "(rt_bucket (route cfg t), rt_key (route cfg t))" and tenant = "ft_tenantId t"])
      (use t in simp)
  have "\<exists>k. ft_objectKey r = Some k \<and> w_objects ?w (ft_bucket r, k) \<noteq> None"
    if r: "r \<in> set (w_transfers ?w)" "ft_status r = SUCCESS" for r
  proof (cases "ft_id r = job_id job")
    case True
    then have "find_transfer (ft_id t) ?w = Some r"
      using row_find_distinct[of ft_id "w_transfers ?w" r] ok r(1) id by (simp add: transfers_ok_def)
    with r(2) runTransfer_backed[OF t, of sv cfg cs] show ?thesis
      by (auto simp: success_backed_def backed_def backed_by_def process_job_runTransfer)
  next
    case False
    then have "r \<in> set (other_rows (job_id job) w)" using r(1) others[symmetric] by (simp add: other_rows_def)
    then obtain k where k: "ft_objectKey r = Some k" "present (ft_bucket r, k) w"
      using assms(2) r(2) by (auto simp: other_rows_def success_stored_def present_def)
    then show ?thesis using keepsD[OF present_process k(2)] by (auto simp: present_def)
  qed
  then show ?thesis by (simp add: success_stored_def)
qed

lemma job_law_process: "job_law (job_id job) w (snd (process_job sv cfg cs job w))"
proof -
  let ?t = "find_transfer (job_id job) w"
  let ?tenant = "case ?t of None \<Rightarrow> [] | Some t \<Rightarrow> ft_tenantId t"
  let ?target = "case ?t of None \<Rightarrow> ([], []) | Some t \<Rightarrow> (rt_bucket (route cfg t), rt_key (route cfg t))"
  have "map ident (w_transfers (snd (process_job sv cfg cs job w))) = map ident (w_transfers w)"
    by (rule job_idents.frame_run[OF refl, where target = ?target and tenant = ?tenant]) simp
  moreover have "untouched_by_jobs (snd (process_job sv cfg cs job w)) = untouched_by_jobs w"
    by (rule job_tables.frame_run[OF refl, where target = ?target and tenant = ?tenant]) simp
  moreover have "dlq_within (insert (job_id job) (dl_transferId ` set (w_dlq w))) (snd (process_job sv cfg cs job w))"
    by (rule keepsD[OF dlq_within_process]) (auto simp: dlq_within_def)
  ultimately show ?thesis
    using keepsD[OF keeps_ok_process] success_stored_process
    by (simp add: job_law_def untouched_by_jobs_def dlq_within_def)
qed

lemma keeps_stored_onFailed: "keeps success_stored (onFailed sv cfg job e)"
proof -
  have fr: "keeps success_stored m" if "frame w_transfers m" "frame w_objects m" for m :: "(world, 'a) act"
    using that by (auto simp: keeps_def frame_def success_stored_def)
  have mark: "keeps success_stored (markFailed sv i msg)" for i msg
    unfolding markFailed_def
    by (intro eff keeps_modify) (auto simp: success_stored_def upd_transfer_def row_update_def set_failed_def)
  show ?thesis
    unfolding onFailed_def Let_def
    by (intro eff mark fr frame_modify frame_toDeadLetter) (simp_all add: metric_defs)
qed

lemma job_law_onFailed: "job_law (job_id job) w (snd (onFailed sv cfg job e w))"
proof -
  have "map ident (w_transfers (snd (onFailed sv cfg job e w))) = map ident (w_transfers w)"
    by (rule frameD[OF job_idents.frame_job_failed[OF refl]])
  moreover have "untouched_by_jobs (snd (onFailed sv cfg job e w)) = untouched_by_jobs w"
    by (rule frameD[OF job_tables.frame_job_failed[OF refl]])
  moreover have "dlq_within (insert (job_id job) (dl_transferId ` set (w_dlq w))) (snd (onFailed sv cfg job e w))"
    by (rule keepsD[OF dlq_within_onFailed]) (auto simp: dlq_within_def)
  ultimately show ?thesis
    using keepsD[OF keeps_ok_onFailed] keepsD[OF keeps_stored_onFailed]
    by (simp add: job_law_def untouched_by_jobs_def dlq_within_def)
qed

text \<open>A whole run: the laws hold up to the job itself being queued again.\<close>

lemma settle_law:
  "\<exists>again. set again \<subseteq> {job, job_failed_once job} \<and>
     job_law (job_id job) w ((settle_job sv svf cfg cs job w)\<lparr>w_queue := w_queue w\<rparr>) \<and>
     w_queue (settle_job sv svf cfg cs job w) = w_queue w @ again"
proof -
  have requeue: "job_law i v (u\<lparr>w_queue := w_queue v\<rparr>)" if "job_law i v u" for i v u
    using that by (simp add: job_law_def transfers_ok_def success_stored_def)
  obtain x w1 where run: "process_job sv cfg cs job w = (x, w1)" by fastforce
  have p: "job_law (job_id job) w w1" using job_law_process[of job w sv cfg cs] run by simp
  then have q: "w_queue w1 = w_queue w" by (simp add: job_law_def)
  show ?thesis
  proof (cases x)
    case (Done u)
    then show ?thesis using run p q requeue[OF p] by (auto simp: settle_job_def intro!: exI[of _ "[]"])
  next
    case Crashed
    then show ?thesis using run p q requeue[OF p] by (auto simp: settle_job_def intro!: exI[of _ "[job]"])
  next
    case (Raised e)
    let ?j = "job_failed_once job"
    define w2 where "w2 = (if qj_attemptsMade ?j < totalAttempts ?j then w1\<lparr>w_queue := w_queue w1 @ [?j]\<rparr> else w1)"
    have w': "settle_job sv svf cfg cs job w = snd (onFailed svf cfg ?j e w2)"
      using Raised run by (simp add: settle_job_def w2_def Let_def)
    have "job_law (job_id job) w (w2\<lparr>w_queue := w_queue w\<rparr>)"
      using requeue[OF p] by (simp add: w2_def)
    moreover have f: "job_law (job_id job) w2 (snd (onFailed svf cfg ?j e w2))"
      using job_law_onFailed[of ?j w2 svf cfg e] by simp
    moreover from this have "job_law (job_id job) (w2\<lparr>w_queue := w_queue w\<rparr>) ((snd (onFailed svf cfg ?j e w2))\<lparr>w_queue := w_queue w\<rparr>)"
      by (simp add: job_law_def transfers_ok_def success_stored_def)
    ultimately have "job_law (job_id job) w ((settle_job sv svf cfg cs job w)\<lparr>w_queue := w_queue w\<rparr>)"
      unfolding w' by (blast intro: job_law_trans)
    moreover have "w_queue (settle_job sv svf cfg cs job w) = w_queue w2" using f by (simp add: w' job_law_def)
    ultimately show ?thesis
      using q by (cases "qj_attemptsMade ?j < totalAttempts ?j")
        (auto simp: w2_def intro!: exI[of _ "[?j]"] exI[of _ "[]"])
  qed
qed

interpretation worked: lawful "\<lambda>w w'. \<exists>xs job ys sv svf. w_queue w = xs @ job # ys \<and>
    w' = settle_job sv svf cfg cs job (w\<lparr>w_queue := xs @ ys\<rparr>)" for cfg cs
proof
  fix w w'
  assume "\<exists>xs job ys sv svf. w_queue w = xs @ job # ys \<and> w' = settle_job sv svf cfg cs job (w\<lparr>w_queue := xs @ ys\<rparr>)"
  then obtain xs job ys again where q: "w_queue w = xs @ job # ys" "w_queue w' = xs @ ys @ again"
    and again: "set again \<subseteq> {job, job_failed_once job}"
    and law: "job_law (job_id job) (w\<lparr>w_queue := xs @ ys\<rparr>) (w'\<lparr>w_queue := xs @ ys\<rparr>)"
    using settle_law by (metis (no_types, lifting) append.assoc world.select_convs(6) world.surjective world.update_convs(6))
  then have idents: "map ident (w_transfers w') = map ident (w_transfers w)" by (simp add: job_law_def)
  show "transfers_ok w \<Longrightarrow> transfers_ok w'" "transfers_ok w \<Longrightarrow> success_stored w \<Longrightarrow> success_stored w'"
    "w_outbox w' = w_outbox w"
    using law by (simp_all add: job_law_def transfers_ok_def success_stored_def)
  show "ident ` set (w_transfers w') \<subseteq> ident ` set (w_transfers w)" using arg_cong[OF idents, of set] by simp
  have "ft_id ` set (w_transfers w') = ft_id ` set (w_transfers w)" using arg_cong[OF ident_ids[OF idents], of set] by simp
  moreover have "job_id ` set (w_queue w') \<subseteq> job_id ` set (w_queue w)" using q again by auto
  moreover have "dl_transferId ` set (w_dlq w') \<subseteq> insert (job_id job) (dl_transferId ` set (w_dlq w))"
    using law by (simp add: job_law_def)
  ultimately show "named w' \<subseteq> named w" using q(1) unfolding named_def by auto
qed

section \<open>The system invariant\<close>

lemma in_root_accept:
  assumes "resolveWithinRoot cwd (data_root cwd cfg) p = Some n"
  shows "in_root cfg cwd n"
  using accept_root[OF assms] by (simp add: in_root_def)

lemma webhook_state:
  "snd (handleWebhook sv cfg cwd carrier req p w) = w \<or>
   actionable cfg cwd p \<and> fresh_for sv (accept_input sv cfg cwd p) w \<and>
   snd (handleWebhook sv cfg cwd carrier req p w) = with_transfer sv (accept_input sv cfg cwd p) carrier w"
proof -
  have "snd (webhook_canActivate (cfg_app cfg) req w) = w"
    by (auto simp: webhook_canActivate_def Let_def throw_def ret_def split: option.splits)
  then show ?thesis
    using accept_state[of sv cfg cwd carrier p w]
    by (auto simp: handleWebhook_def seq_def bnd_def throw_def split: prod.splits outcome.splits)
qed

lemma inv_webhook:
  assumes "sys_inv cfg cwd w"
  shows "sys_inv cfg cwd (snd (handleWebhook sv cfg cwd carrier req p w))"
  using webhook_state[of sv cfg cwd carrier req p w]
proof (elim disjE conjE)
  let ?inp = "accept_input sv cfg cwd p"
  assume a: "actionable cfg cwd p" and fresh: "fresh_for sv ?inp w"
    and w': "snd (handleWebhook sv cfg cwd carrier req p w) = with_transfer sv ?inp carrier w"
  have "in_root cfg cwd (cp_sourcePath ?inp)"
    using a in_root_accept by (auto simp: actionable_def pending_input_def)
  then show ?thesis
    unfolding w' using assms with_transfer_ok(1,2)[OF fresh]
    by (auto simp: sys_inv_def with_transfer_def Let_def named_def recorded_def success_stored_def paths_in_root_def
        new_transfer_def new_event_def)
qed (use assms in simp)

lemma frame_relay: "frame w_transfers (relay sv)" "frame w_dlq (relay sv)" "frame w_objects (relay sv)"
  unfolding relay_def publish_event_def queue_add_def
  by (intro eff frame_modify; simp add: upd_outbox_def)+

lemma relay_columns:
  assumes "outbox_ok w" "\<And>e e'. same_event e e' \<Longrightarrow> g e' = g e"
  shows "map g (w_outbox (snd (relay sv w))) = map g (w_outbox w)"
proof -
  have "list_all2 same_event (w_outbox w) (w_outbox (snd (relay sv w)))"
    using relay_progress_relay[of w sv] assms(1)
    by (auto simp: relay_progress_def outbox_ok_def same_event_def elim: list.rel_mono_strong)
  then show ?thesis using assms(2) by (induction rule: list_all2_induct) auto
qed

lemma relay_recorded: "outbox_ok w \<Longrightarrow> recorded (snd (relay sv w)) = recorded w"
  using arg_cong[OF relay_columns[of w oe_aggregateId sv], of set] by (simp add: recorded_def same_event_def)

lemma inv_relay:
  assumes "sys_inv cfg cwd w"
  shows "sys_inv cfg cwd (snd (relay sv w))"
proof -
  let ?w = "snd (relay sv w)"
  have ob: "outbox_ok w" using assms by (simp add: sys_inv_def)
  have parts: "w_transfers ?w = w_transfers w" "w_dlq ?w = w_dlq w" "w_objects ?w = w_objects w"
    by (rule frameD[OF frame_relay(1)] frameD[OF frame_relay(2)] frameD[OF frame_relay(3)])+
  obtain added where q: "w_queue ?w = w_queue w @ added" "set added \<subseteq> job_of ` set (pending_events w)"
    using relay_progress_relay[of w sv] ob by (auto simp: relay_progress_def outbox_ok_def)
  have cols: "map g (w_outbox ?w) = map g (w_outbox w)" if "\<And>e e'. same_event e e' \<Longrightarrow> g e' = g e" for g :: "OutboxEvent \<Rightarrow> 'a"
    by (rule relay_columns[OF ob that])
  have rec: "recorded ?w = recorded w" by (rule relay_recorded[OF ob])
  have "map (\<lambda>e. (oe_type e, tj_transferId (oe_payload e), oe_aggregateId e)) (w_outbox ?w) =
      map (\<lambda>e. (oe_type e, tj_transferId (oe_payload e), oe_aggregateId e)) (w_outbox w)"
    by (rule cols) (simp add: same_event_def)
  then have "list_all (\<lambda>(a, b, c). a = TRANSFER_JOB \<and> b = c) (map (\<lambda>e. (oe_type e, tj_transferId (oe_payload e), oe_aggregateId e)) (w_outbox ?w))"
    using ob by (simp add: outbox_ok_def list.pred_map comp_def)
  then have ok: "outbox_ok ?w"
    using ob cols[of oe_id] by (simp add: outbox_ok_def list.pred_map comp_def same_event_def)
  have "job_id (job_of e) = oe_aggregateId e" if "e \<in> set (w_outbox w)" for e
    using ob that by (auto simp: outbox_ok_def list_all_iff job_of_def mk_job_def)
  then have "job_id ` set added \<subseteq> recorded w"
    using q(2) pending_events_sub[of w] by (fastforce simp: recorded_def image_iff)
  then have "named ?w \<subseteq> recorded ?w"
    using assms q(1) unfolding rec by (auto simp: sys_inv_def named_def parts)
  then show ?thesis
    using assms ok by (simp add: sys_inv_def transfers_ok_def success_stored_def paths_in_root_def parts)
qed

text \<open>Every step but these two is one of the lawful ones.\<close>

lemma lawful_Un:
  assumes R: "lawful R" and S: "lawful S"
  shows "lawful (\<lambda>w w'. R w w' \<or> S w w')"
proof (rule lawful.intro)
  fix w w'
  assume step: "R w w' \<or> S w w'"
  show "transfers_ok w \<Longrightarrow> transfers_ok w'" "w_outbox w' = w_outbox w"
    using step by (elim disjE; simp add: lawful.ok_law[OF R] lawful.ok_law[OF S] lawful.outbox_law[OF R] lawful.outbox_law[OF S])+
  assume ok: "transfers_ok w"
  show "ident ` set (w_transfers w') \<subseteq> ident ` set (w_transfers w)"
    using step by (elim disjE) (rule lawful.ident_law[OF R _ ok], assumption, rule lawful.ident_law[OF S _ ok], assumption)
  show "named w' \<subseteq> named w"
    using step by (elim disjE) (rule lawful.names_law[OF R _ ok], assumption, rule lawful.names_law[OF S _ ok], assumption)
  show "success_stored w'" if "success_stored w"
    using step by (elim disjE) (rule lawful.stored_law[OF R _ ok that], assumption, rule lawful.stored_law[OF S _ ok that], assumption)
qed

definition handler_step :: "app_config \<Rightarrow> CryptoService \<Rightarrow> world \<Rightarrow> world \<Rightarrow> bool" where
  "handler_step cfg cs w w' \<longleftrightarrow>
     (\<exists>xs job ys sv svf. w_queue w = xs @ job # ys \<and> w' = settle_job sv svf cfg cs job (w\<lparr>w_queue := xs @ ys\<rparr>)) \<or>
     (\<exists>sv. w' = snd (sweep sv (cfg_app cfg) (cfg_recovery cfg) w)) \<or>
     (\<exists>sv. w' = snd (purge sv (cfg_retentionAuditDays cfg) w)) \<or>
     retried (ft_id ` set (w_transfers w)) w w' \<and> (transfers_ok w \<longrightarrow> transfers_ok w') \<or>
     core w' = core w"

interpretation handlers: lawful "handler_step cfg cs" for cfg cs
  unfolding handler_step_def
  by (intro lawful_Un worked.lawful_axioms swept.lawful_axioms purged.lawful_axioms retries.lawful_axioms outside.lawful_axioms)

lemma retry_is_lawful:
  "retried (ft_id ` set (w_transfers w)) w (snd (post_retry sv app al isUuid bearer i w)) \<and>
     (transfers_ok w \<longrightarrow> transfers_ok (snd (post_retry sv app al isUuid bearer i w)))"
  "retried (ft_id ` set (w_transfers w)) w (snd (post_retry_batch sv app al bearer dto w)) \<and>
     (transfers_ok w \<longrightarrow> transfers_ok (snd (post_retry_batch sv app al bearer dto w)))"
  using keepsD[OF ok_retry(1)] keepsD[OF ok_retry(2)]
  by (auto simp: post_retry_def post_retry_batch_def guarded_run parse_uuid_def throw_def retried_refl retried_retry
      retried_retryBatch split: option.splits)

lemma step_kinds:
  assumes "step cfg cs cwd w w'"
  shows "(\<exists>sv carrier req p. w' = snd (handleWebhook sv cfg cwd carrier req p w)) \<or> (\<exists>sv. w' = snd (relay sv w)) \<or>
    handler_step cfg cs w w'"
  using assms
proof (cases rule: step.cases)
  case (Work xs job ys sv svf)
  then have "handler_step cfg cs w w'" unfolding handler_step_def by blast
  then show ?thesis by blast
next
  case (Retry sv al isUuid bearer i)
  then show ?thesis using retry_is_lawful(1) unfolding handler_step_def by blast
next
  case (RetryBatch sv al bearer dto)
  then show ?thesis using retry_is_lawful(2) unfolding handler_step_def by blast
next
  case (Boot sv al)
  then show ?thesis using frameD[OF frame_seq[OF frame_core_users(4,3)]] by (simp add: handler_step_def)
qed (use frameD[OF frame_core_dead_letter] frameD[OF frame_core_delivery] frameD[OF frame_core_subs(1)]
    frameD[OF frame_core_subs(2)] frameD[OF frame_core_users(2)] frameD[OF frame_core_users(5)] in \<open>(simp add: handler_step_def; blast)+\<close>)

interpretation running: invariant_of initial "step cfg cs cwd" "sys_inv cfg cwd" for cfg cs cwd
proof
  show "sys_inv cfg cwd w" if "initial w" for w
    using that by (simp add: initial_def sys_inv_def transfers_ok_def outbox_ok_def named_def success_stored_def paths_in_root_def)
  show "sys_inv cfg cwd w'" if "step cfg cs cwd w w'" "sys_inv cfg cwd w" for w w'
    using step_kinds[OF that(1)] that(2) inv_webhook inv_relay handlers.keeps_inv by blast
qed

lemma reachable_inv: "reachable cfg cs cwd w \<Longrightarrow> sys_inv cfg cwd w"
  unfolding reachable_def using running.inv_reachable by blast

lemma reachable_step: "reachable cfg cs cwd w \<Longrightarrow> step cfg cs cwd w w' \<Longrightarrow> reachable cfg cs cwd w'"
  unfolding reachable_def by (meson rtranclp.rtrancl_into_rtrancl)

section \<open>The retries of a job end\<close>

lemma calm_pipeline: "no_crash sv \<Longrightarrow> calm (pipeline_run (PROCESSING_STEPS sv cfg) ctx)"
  unfolding PROCESSING_STEPS_def pipeline_run.simps validation_execute_def quota_execute_def antivirus_execute_def
    contentType_execute_def assertWithinQuota_def getUsage_def scanFileWithClamd_def Let_def
  by (intro eff calm_call) (simp_all add: eff split: option.split sum.split)

lemma calm_cases [eff]:
  "(\<And>e. x = Inl e \<Longrightarrow> calm (m e)) \<Longrightarrow> (\<And>a. x = Inr a \<Longrightarrow> calm (k a)) \<Longrightarrow> calm (case x of Inl e \<Rightarrow> m e | Inr a \<Rightarrow> k a)"
  "(\<And>a b. p = (a, b) \<Longrightarrow> calm (h a b)) \<Longrightarrow> calm (case p of (a, b) \<Rightarrow> h a b)"
  by (auto split: sum.splits prod.splits)

lemma calm_prepare: "no_crash sv \<Longrightarrow> calm (prepare sv cfg cs t)"
  unfolding prepare_def stat_or_null_def computeFileChecksums_def Let_def
  by (intro eff calm_call calm_pipeline)

lemma calm_storage: "calm (head_bucket b)" "calm (create_bucket b)" "calm (put_object b k body ct len)"
  by (simp_all add: calm_def head_bucket_def create_bucket_def put_object_def modify_def)

lemma calm_publish: "no_crash sv \<Longrightarrow> calm (publishTransferEvent sv k t ty d)"
  unfolding publishTransferEvent_def kafka_publish_def enqueue_delivery_def Let_def by (intro eff calm_call)

lemma calm_complete: "no_crash sv \<Longrightarrow> calm (complete sv cfg t pr)"
  unfolding complete_def uploadStream_def ensureBucket_def after_success_def markSuccess_def recordUsage_def
    verifyIntegrity_def Let_def
  by (intro eff calm_call calm_storage calm_publish)

lemma calm_on_error: "no_crash sv \<Longrightarrow> calm (on_error sv cfg t e)"
  unfolding on_error_def markFailed_def toDeadLetter_def by (intro eff calm_call calm_publish)

lemma calm_process: "no_crash sv \<Longrightarrow> calm (process_job sv cfg cs job)"
  unfolding process_job_def runTransfer_def findById_def markProcessing_def
  by (intro eff calm_call calm_prepare calm_complete calm_on_error)

text \<open>A job worked until it is no longer queued: attempt after attempt, each under services of its own.\<close>

fun drive :: "(nat \<Rightarrow> services) \<Rightarrow> services \<Rightarrow> app_config \<Rightarrow> CryptoService \<Rightarrow> nat \<Rightarrow> TransferJob \<Rightarrow> world \<Rightarrow> world" where
  "drive svs svf cfg cs 0 job w = w"
| "drive svs svf cfg cs (Suc n) job w =
     (let w' = settle_job (svs n) svf cfg cs job w in
      if w_queue w' = w_queue w then w'
      else drive svs svf cfg cs n (job_failed_once job) (w'\<lparr>w_queue := w_queue w\<rparr>))"

lemma settle_uncrashed:
  fixes cfg :: app_config and cs :: CryptoService and job :: TransferJob and w :: world
  assumes "no_crash sv" "healthy svf"
  defines "w' \<equiv> settle_job sv svf cfg cs job w"
  shows "w_queue w' = w_queue w \<and> settled (job_id job) w' \<or>
    qj_attemptsMade job + 1 < totalAttempts job \<and> w_queue w' = w_queue w @ [job_failed_once job]"
proof -
  obtain x w1 where run: "process_job sv cfg cs job w = (x, w1)" by fastforce
  have q: "w_queue w1 = w_queue w" using job_law_process[of job w sv cfg cs] run by (simp add: job_law_def)
  show ?thesis
  proof (cases x)
    case (Done u)
    then show ?thesis using run q process_Done_settled by (simp add: w'_def settle_job_def)
  next
    case Crashed
    then show ?thesis using run calm_process[OF assms(1), of cfg cs job] by (auto simp: calm_def)
  next
    case (Raised e)
    let ?j = "job_failed_once job"
    show ?thesis
    proof (cases "qj_attemptsMade ?j < totalAttempts ?j")
      case True
      then show ?thesis
        using Raised run q by (simp add: w'_def settle_job_def onFailed_def ret_def Let_def)
          (simp add: job_failed_once_def)
    next
      case False
      note ex = onFailed_exhausted[OF assms(2) False, where cfg = cfg and err = e and w = w1]
      have "settled (job_id job) (snd (onFailed svf cfg ?j e w1))"
        using ex(1,2) by (auto simp: settled_def failed_row_def dead_lettered_def split: option.splits)
      then show ?thesis using Raised run False q ex(4) by (simp add: w'_def settle_job_def Let_def)
    qed
  qed
qed

lemma drive_settles:
  assumes "\<And>k. no_crash (svs k)" "healthy svf" "totalAttempts job - qj_attemptsMade job \<le> int n" "0 < n"
  shows "settled (job_id job) (drive svs svf cfg cs n job w) \<and> w_queue (drive svs svf cfg cs n job w) = w_queue w"
  using assms(3,4)
proof (induction n arbitrary: job w)
  case (Suc n)
  let ?w' = "settle_job (svs n) svf cfg cs job w"
  from settle_uncrashed[OF assms(1,2), of n cfg cs job w] show ?case
  proof (elim disjE conjE)
    assume "qj_attemptsMade job + 1 < totalAttempts job" "w_queue ?w' = w_queue w @ [job_failed_once job]"
    moreover from this have "0 < n" using Suc.prems by linarith
    ultimately show ?thesis
      using Suc.IH[of "job_failed_once job" "?w'\<lparr>w_queue := w_queue w\<rparr>"] Suc.prems
      by (simp add: Let_def) (simp add: job_failed_once_def)
  qed (simp add: Let_def)
qed simp

section \<open>Properties\<close>

text \<open>C1: The system invariant: whatever requests, jobs and timers run in whatever order, and whatever fails or
  crashes in them, the keys of the transfers are unique and each row's columns fit its status, every
  row, every queued job and every dead letter belongs to a transfer the outbox has recorded, every
  SUCCESS row has its object in the store, and every source path the worker will read lies under the
  data root.\<close>

theorem system_invariant:
  assumes "reachable cfg cs cwd w"
  shows "distinct (map ft_id (w_transfers w)) \<and> distinct (map ft_idempotencyKey (w_transfers w)) \<and>
     list_all row_wf (w_transfers w) \<and>
     ft_id ` set (w_transfers w) \<union> job_id ` set (w_queue w) \<union> dl_transferId ` set (w_dlq w)
       \<subseteq> oe_aggregateId ` set (w_outbox w) \<and>
     (\<forall>r\<in>set (w_transfers w). ft_status r = SUCCESS \<longrightarrow>
        (\<exists>k. ft_objectKey r = Some k \<and> w_objects w (ft_bucket r, k) \<noteq> None)) \<and>
     (\<forall>r\<in>set (w_transfers w). \<exists>rest. segs (ft_sourcePath r) = segs (data_root cwd cfg) @ rest \<and>
        clean (segs (ft_sourcePath r)) \<and> ft_sourcePath r = mk_abs (segs (ft_sourcePath r)))"
  using reachable_inv[OF assms]
  by (simp add: sys_inv_def transfers_ok_def named_def recorded_def success_stored_def paths_in_root_def in_root_def)

theorem system_invariant_witness:
  "list_all row_wf (w_transfers (snd (handleWebhook sv0 cfg0 ''/srv'' [] req1 hook1 world0))) \<and>
   w_transfers (snd (handleWebhook sv0 cfg0 ''/srv'' [] req1 hook1 world0)) \<noteq> []"
proof -
  let ?w = "snd (handleWebhook sv0 cfg0 ''/srv'' [] req1 hook1 world0)"
  have "reachable cfg0 cs_off ''/srv'' world0"
    unfolding reachable_def initial_def by (rule exI[of _ world0]) (simp add: world0_def)
  then have "reachable cfg0 cs_off ''/srv'' ?w" by (rule reachable_step) (rule step.Webhook)
  from system_invariant[OF this] have "list_all row_wf (w_transfers ?w)" by blast
  moreover have "w_transfers ?w \<noteq> []" unfolding hook1_run by (simp add: with_transfer_def Let_def)
  ultimately show ?thesis ..
qed

definition world1_hooked :: world where
  "world1_hooked = snd (handleWebhook sv0 cfg0 ''/srv'' [] req1 hook1 world0)"

text \<open>The identity of a transfer is permanent: no step of any handler changes the id, the idempotency key,
  the file name and paths, the size, the tenant, the user or the creation time of a row.\<close>

theorem identity_is_permanent:
  assumes "reachable cfg cs cwd w" "step cfg cs cwd w w'"
    and "r \<in> set (w_transfers w)" "r' \<in> set (w_transfers w')" "ft_id r' = ft_id r"
  shows "ident r' = ident r"
proof -
  have ok: "transfers_ok w" using reachable_inv[OF assms(1)] by (simp add: sys_inv_def)
  then have inj: "r' = r" if "r' \<in> set (w_transfers w)" using that assms(3,5) by (auto simp: transfers_ok_def distinct_map dest: inj_onD)
  from step_kinds[OF assms(2)] show ?thesis
  proof (elim disjE exE)
    fix sv carrier req p
    assume "w' = snd (handleWebhook sv cfg cwd carrier req p w)"
    then have "r' \<in> set (w_transfers w)"
      using webhook_state[of sv cfg cwd carrier req p w] assms(3-5)
      by (auto simp: with_transfer_def Let_def fresh_for_def new_transfer_def)
    then show ?thesis using inj by simp
  next
    fix sv
    assume "w' = snd (relay sv w)"
    then show ?thesis using inj assms(4) frameD[OF frame_relay(1), of sv w] by simp
  next
    assume "handler_step cfg cs w w'"
    then show ?thesis by (rule handlers.ident_permanent[OF _ ok assms(3-5)])
  qed
qed

theorem identity_is_permanent_witness:
  "ident (hd (w_transfers (snd (relay sv0 world1_hooked)))) = ident (hd (w_transfers world1_hooked))"
proof -
  let ?r = "hd (w_transfers world1_hooked)" and ?r' = "hd (w_transfers (snd (relay sv0 world1_hooked)))"
  have "w_transfers (snd (relay sv0 world1_hooked)) = w_transfers world1_hooked" by (rule frameD[OF frame_relay(1)])
  moreover have "w_transfers world1_hooked \<noteq> []" unfolding world1_hooked_def hook1_run by (simp add: with_transfer_def Let_def)
  ultimately have r: "?r \<in> set (w_transfers world1_hooked)" "?r' \<in> set (w_transfers (snd (relay sv0 world1_hooked)))" "ft_id ?r' = ft_id ?r"
    by simp_all
  have "reachable cfg0 cs_off ''/srv'' world0"
    unfolding reachable_def initial_def by (rule exI[of _ world0]) (simp add: world0_def)
  then have "reachable cfg0 cs_off ''/srv'' world1_hooked"
    unfolding world1_hooked_def by (rule reachable_step) (rule step.Webhook)
  from identity_is_permanent[OF this step.Relay r] show ?thesis .
qed



end
