(* ===== verification/Refinement.thy ===== *)
theory Refinement
  imports Lifecycle
begin

text \<open>
  The abstract specification of the life of the transfers, and that the system implements it. The abstract
  state is a board: the status of each transfer, or that there is none. Its events say what may happen to
  the board: a transfer is accepted, worked on, spoiled after it had succeeded, failed by the sweep, reset by a
  retry, or purged. Every step of the system, under any faults, is one of these events on the board of its
  table, so every run of the system is a run of the specification.
\<close>

section \<open>The specification\<close>

type_synonym board = "string \<Rightarrow> TransferStatus option"

inductive spec_step :: "board \<Rightarrow> board \<Rightarrow> bool" where
  Stutter: "spec_step b b"
| Accepted: "b i = None \<Longrightarrow> spec_step b (b(i \<mapsto> PENDING))"
| Worked: "b i = Some s \<Longrightarrow> s \<noteq> SUCCESS \<Longrightarrow> s' \<in> {PROCESSING, SUCCESS, FAILED} \<Longrightarrow> spec_step b (b(i \<mapsto> s'))"
| Spoiled: "b i = Some SUCCESS \<Longrightarrow> spec_step b (b(i \<mapsto> FAILED))"
| Swept: "(\<And>i. b' i = b i \<or> b i \<in> {Some PENDING, Some PROCESSING} \<and> b' i = Some FAILED) \<Longrightarrow> spec_step b b'"
| Reset: "(\<And>i. b' i = b i \<or> (\<exists>s. b i = Some s \<and> s \<noteq> SUCCESS \<and> b' i = Some PENDING)) \<Longrightarrow> spec_step b b'"
| Purged: "(\<And>i. b' i = b i \<or> b i \<in> {Some SUCCESS, Some FAILED} \<and> b' i = None) \<Longrightarrow> spec_step b b'"

inductive_cases spec_stepE: "spec_step b b'"

text \<open>What the specification promises of a single transfer: a new one is PENDING, an open one stays on the
  board, and one that succeeded never becomes open again by one step.\<close>

lemma spec_step_lifecycle:
  assumes "spec_step b b'"
  shows "(b i = None \<longrightarrow> b' i \<in> {None, Some PENDING}) \<and>
    (b i \<in> {Some PENDING, Some PROCESSING} \<longrightarrow> b' i \<noteq> None) \<and>
    (b i = Some SUCCESS \<longrightarrow> b' i \<in> {Some SUCCESS, Some FAILED, None})"
  using assms
proof (cases rule: spec_step.cases)
  case Swept
  from Swept[of i] show ?thesis by auto
next
  case Reset
  from Reset[of i] show ?thesis by auto
next
  case Purged
  from Purged[of i] show ?thesis by auto
qed auto

section \<open>The board of a state\<close>

definition statuses :: "world \<Rightarrow> board" where
  "statuses w i = map_option ft_status (find_transfer i w)"

lemma statuses_transfers: "w_transfers w' = w_transfers w \<Longrightarrow> statuses w' = statuses w"
  by (simp add: statuses_def fun_eq_iff)

lemma statuses_None: "statuses w i = None \<longleftrightarrow> i \<notin> ft_id ` set (w_transfers w)"
  by (simp add: statuses_def row_find_None_iff)

lemma statuses_Some:
  assumes "transfers_ok w"
  shows "statuses w i = Some s \<longleftrightarrow> (\<exists>r\<in>set (w_transfers w). ft_id r = i \<and> ft_status r = s)"
proof
  assume "statuses w i = Some s"
  then show "\<exists>r\<in>set (w_transfers w). ft_id r = i \<and> ft_status r = s"
    by (auto simp: statuses_def dest: row_find_SomeD)
next
  assume "\<exists>r\<in>set (w_transfers w). ft_id r = i \<and> ft_status r = s"
  then show "statuses w i = Some s"
    using assms row_find_distinct[of ft_id "w_transfers w"] by (auto simp: statuses_def transfers_ok_def)
qed

lemma statuses_others:
  assumes "other_rows j w' = other_rows j w" "i \<noteq> j"
  shows "statuses w' i = statuses w i"
proof -
  have "row_find ft_id i xs = row_find ft_id i (filter (\<lambda>r. ft_id r \<noteq> j) xs)" for xs
    using assms(2) by (induction xs) (auto simp: row_find_def)
  then have "find_transfer i u = row_find ft_id i (other_rows j u)" for u by (simp add: other_rows_def)
  with assms(1) show ?thesis by (simp add: statuses_def)
qed

section \<open>The worker\<close>

lemma settle_keeps:
  assumes "P (snd (process_job sv cfg cs job w))" "\<And>e. keeps P (onFailed svf cfg (job_failed_once job) e)"
    and "\<And>u q. P (u\<lparr>w_queue := q\<rparr>) = P u"
  shows "P (settle_job sv svf cfg cs job w)"
proof -
  obtain x w1 where run: "process_job sv cfg cs job w = (x, w1)" by fastforce
  then have "P w1" using assms(1) by simp
  then show ?thesis
    using run keepsD[OF assms(2)] by (cases x) (simp_all add: settle_job_def Let_def assms(3))
qed

text \<open>The statuses that the row of a job may have.\<close>

definition status_in :: "TransferStatus set \<Rightarrow> string \<Rightarrow> world \<Rightarrow> bool" where
  "status_in S i w \<longleftrightarrow> (\<forall>r\<in>set (w_transfers w). ft_id r = i \<longrightarrow> ft_status r \<in> S)"

lemma status_in_frame: "frame w_transfers m \<Longrightarrow> keeps (status_in S i) m"
  by (simp add: keeps_def frame_def status_in_def)

lemma status_in_marks:
  "PROCESSING \<in> S \<Longrightarrow> keeps (status_in S i) (markProcessing sv j)"
  "FAILED \<in> S \<Longrightarrow> keeps (status_in S i) (markFailed sv j m)"
  "SUCCESS \<in> S \<Longrightarrow> keeps (status_in S i) (markSuccess sv j bu k e c n d)"
  unfolding markProcessing_def markFailed_def markSuccess_def
  by (intro eff keeps_modify;
      auto simp: status_in_def upd_transfer_def row_update_def set_processing_def set_failed_def set_success_def)+

lemma status_in_onFailed: "FAILED \<in> S \<Longrightarrow> keeps (status_in S i) (onFailed sv cfg job e)"
  unfolding onFailed_def Let_def
  by (intro eff status_in_marks status_in_frame frame_modify frame_toDeadLetter) (simp_all add: metric_defs)

lemma status_in_process:
  assumes "{PROCESSING, SUCCESS, FAILED} \<subseteq> S"
  shows "keeps (status_in S i) (process_job sv cfg cs job)"
proof (rule keeps_process)
  have in_S: "PROCESSING \<in> S" "SUCCESS \<in> S" "FAILED \<in> S" using assms by auto
  show "keeps (status_in S i) (complete sv cfg t pr)" for t pr
    unfolding complete_def
    by (intro eff status_in_marks in_S status_in_frame[OF frame_upload] status_in_frame[OF frame_after_success(1)]
        status_in_frame[OF frame_verify]) simp_all
  show "keeps (status_in S i) (on_error sv cfg t e)" for t e
    unfolding on_error_def
    by (intro eff status_in_marks in_S status_in_frame frame_modify frame_toDeadLetter) (simp_all add: metric_defs)
  show "keeps (status_in S i) (markProcessing sv (job_id job))" by (intro status_in_marks in_S)
qed (simp_all add: status_in_def metric_defs)

text \<open>A run on a row that is SUCCESS leaves the table as it is.\<close>

lemma process_success:
  assumes "find_transfer (job_id job) w = Some t" "ft_status t = SUCCESS"
  shows "snd (process_job sv cfg cs job w) = w"
  using assms by (auto simp: process_job_runTransfer runTransfer_cases)

lemma settle_others:
  "other_rows (job_id job) (settle_job sv svf cfg cs job w) = other_rows (job_id job) w"
proof (rule settle_keeps)
  let ?t = "find_transfer (job_id job) w"
  show "other_rows (job_id job) (snd (process_job sv cfg cs job w)) = other_rows (job_id job) w"
    by (rule job_rows.frame_run[OF refl,
          where target = "case ?t of None \<Rightarrow> ([], []) | Some t \<Rightarrow> (rt_bucket (route cfg t), rt_key (route cfg t))"
            and tenant = "case ?t of None \<Rightarrow> [] | Some t \<Rightarrow> ft_tenantId t"]) simp
  show "keeps (\<lambda>u. other_rows (job_id job) u = other_rows (job_id job) w) (onFailed svf cfg (job_failed_once job) e)" for e
    using job_rows.frame_job_failed[of "job_failed_once job" "job_id job"] by (simp add: frame_iff_keeps)
qed (simp add: other_rows_def)

lemma settle_ids: "ft_id ` set (w_transfers (settle_job sv svf cfg cs job w)) = ft_id ` set (w_transfers w)"
proof -
  obtain again where "job_law (job_id job) w ((settle_job sv svf cfg cs job w)\<lparr>w_queue := w_queue w\<rparr>)"
    using settle_law by blast
  then have "map ident (w_transfers (settle_job sv svf cfg cs job w)) = map ident (w_transfers w)" by (simp add: job_law_def)
  then show ?thesis using ident_ids by (metis list.set_map)
qed

lemma settle_status:
  assumes "{PROCESSING, SUCCESS, FAILED} \<subseteq> S" "status_in S i w"
  shows "status_in S i (settle_job sv svf cfg cs job w)"
proof (rule settle_keeps)
  show "status_in S i (snd (process_job sv cfg cs job w))" by (rule keepsD[OF status_in_process[OF assms(1)] assms(2)])
  show "keeps (status_in S i) (onFailed svf cfg (job_failed_once job) e)" for e
    by (rule status_in_onFailed) (use assms(1) in simp)
qed (simp add: status_in_def)

lemma settle_spoils:
  assumes "transfers_ok w" "find_transfer (job_id job) w = Some t" "ft_status t = SUCCESS"
  shows "status_in {SUCCESS, FAILED} (job_id job) (settle_job sv svf cfg cs job w)"
proof (rule settle_keeps)
  have "ft_status r = SUCCESS" if "r \<in> set (w_transfers w)" "ft_id r = job_id job" for r
    using row_find_distinct[of ft_id "w_transfers w" r] that assms by (simp add: transfers_ok_def)
  then show "status_in {SUCCESS, FAILED} (job_id job) (snd (process_job sv cfg cs job w))"
    by (simp add: process_success[OF assms(2,3)] status_in_def)
  show "keeps (status_in {SUCCESS, FAILED} (job_id job)) (onFailed svf cfg (job_failed_once job) e)" for e
    by (rule status_in_onFailed) simp
qed (simp add: status_in_def)

lemma spec_single:
  assumes "\<And>j. j \<noteq> i \<Longrightarrow> b' j = b j" "b i = None \<longleftrightarrow> b' i = None"
    and "\<And>s s'. b i = Some s \<Longrightarrow> b' i = Some s' \<Longrightarrow> s' = s \<or> s \<noteq> SUCCESS \<and> s' \<in> {PROCESSING, SUCCESS, FAILED} \<or> s = SUCCESS \<and> s' = FAILED"
  shows "spec_step b b'"
proof (cases "b' i = b i")
  case True
  then have "b' = b" using assms(1) by (metis ext)
  then show ?thesis by (simp add: spec_step.Stutter)
next
  case False
  then obtain s s' where s: "b i = Some s" "b' i = Some s'" using assms(2) by (metis option.exhaust)
  moreover have "b' = b(i \<mapsto> s')" using assms(1) s(2) by (auto simp: fun_eq_iff)
  moreover have "s \<noteq> SUCCESS \<and> s' \<in> {PROCESSING, SUCCESS, FAILED} \<or> s = SUCCESS \<and> s' = FAILED"
    using assms(3)[OF s] False s by auto
  ultimately show ?thesis by (metis spec_step.Worked spec_step.Spoiled)
qed

lemma spec_work:
  assumes "transfers_ok w"
  shows "spec_step (statuses w) (statuses (settle_job sv svf cfg cs job w))"
proof (rule spec_single[of "job_id job"])
  let ?i = "job_id job" and ?w = "settle_job sv svf cfg cs job w"
  show "statuses ?w j = statuses w j" if "j \<noteq> ?i" for j
    by (rule statuses_others[OF settle_others that])
  show "statuses w ?i = None \<longleftrightarrow> statuses ?w ?i = None" by (simp add: statuses_None settle_ids)
  fix s s'
  assume s: "statuses w ?i = Some s" "statuses ?w ?i = Some s'"
  then obtain t r where t: "find_transfer ?i w = Some t" "ft_status t = s"
    and r: "r \<in> set (w_transfers ?w)" "ft_id r = ?i" "ft_status r = s'"
    by (auto simp: statuses_def dest: row_find_SomeD)
  show "s' = s \<or> s \<noteq> SUCCESS \<and> s' \<in> {PROCESSING, SUCCESS, FAILED} \<or> s = SUCCESS \<and> s' = FAILED"
  proof (cases "s = SUCCESS")
    case True
    then show ?thesis using settle_spoils[OF assms t(1), of sv svf cfg cs] t(2) r by (auto simp: status_in_def)
  next
    case False
    have "status_in (insert s {PROCESSING, SUCCESS, FAILED}) ?i w"
      using row_find_distinct[of ft_id "w_transfers w"] t assms by (force simp: status_in_def transfers_ok_def)
    from settle_status[OF _ this, of sv svf cfg cs job] False r show ?thesis by (auto simp: status_in_def)
  qed
qed

section \<open>The sweep and the purge\<close>

lemma row_find_pointwise:
  assumes "list_all2 Q xs ys" "\<And>r r'. Q r r' \<Longrightarrow> ft_id r' = ft_id r"
  shows "row_find ft_id i xs = None \<and> row_find ft_id i ys = None \<or>
    (\<exists>r r'. row_find ft_id i xs = Some r \<and> row_find ft_id i ys = Some r' \<and> Q r r')"
  using assms(1) by (induction rule: list_all2_induct) (auto simp: row_find_def dest: assms(2))

lemma spec_sweep:
  assumes "transfers_ok w"
  shows "spec_step (statuses w) (statuses (snd (sweep sv app recovery w)))"
proof (rule spec_step.Swept)
  fix i
  let ?w = "snd (sweep sv app recovery w)" and ?Q = "swept_row app (stuck_now recovery w) (w_now w)"
  have rows: "list_all2 ?Q (w_transfers w) (w_transfers ?w)"
    using sweep_progress_sweep[OF assms] by (simp add: sweep_progress_def)
  have id: "ft_id r' = ft_id r" if "?Q r r'" for r r' using that by (auto simp: swept_row_def set_failed_def)
  have open_row: "ft_status r \<in> {PENDING, PROCESSING}" if "r \<in> set (stuck_now recovery w)" for r
    using that stuck_rows_spec(1) unfolding stuck_now_def by blast
  show "statuses ?w i = statuses w i \<or> statuses w i \<in> {Some PENDING, Some PROCESSING} \<and> statuses ?w i = Some FAILED"
    using row_find_pointwise[OF rows id, of i] open_row by (auto simp: statuses_def swept_row_def set_failed_def)
qed

lemma row_find_filter:
  assumes "distinct (map f xs)"
  shows "row_find f i (filter P xs) = (case row_find f i xs of None \<Rightarrow> None | Some r \<Rightarrow> if P r then Some r else None)"
  using assms
proof (induction xs)
  case (Cons x xs)
  then have "row_find f (f x) xs = None" by (simp add: row_find_None_iff)
  with Cons show ?case by (auto simp: row_find_def)
qed (simp add: row_find_def)

lemma spec_purge:
  assumes "transfers_ok w"
  shows "spec_step (statuses w) (statuses (snd (purge sv days w)))"
proof (cases "0 < days")
  case True
  let ?P = "\<lambda>r. \<not> purgeable (w_now w - days * MS_PER_DAY) r"
  from purge_cases[OF True, of sv w] show ?thesis
  proof (elim disjE conjE)
    assume p: "snd (purge sv days w) = w\<lparr>w_transfers := filter ?P (w_transfers w)\<rparr>"
    have "row_find ft_id i (filter ?P (w_transfers w)) =
        (case find_transfer i w of None \<Rightarrow> None | Some r \<Rightarrow> if ?P r then Some r else None)" for i
      by (rule row_find_filter) (use assms in \<open>simp add: transfers_ok_def\<close>)
    then show ?thesis
      unfolding p by (intro spec_step.Purged) (auto simp: statuses_def purgeable_def split: option.splits)
  qed (simp add: spec_step.Stutter)
qed (simp add: purge_def ret_def spec_step.Stutter)

section \<open>The retries\<close>

text \<open>The board on the way of a retry: some transfers of \<open>J\<close> that were on the board \<open>b\<close> are PENDING, every
  other is as it was.\<close>

definition resetting :: "string set \<Rightarrow> board \<Rightarrow> world \<Rightarrow> bool" where
  "resetting J b u \<longleftrightarrow> (\<forall>i. statuses u i = b i \<or> i \<in> J \<and> b i \<noteq> None \<and> statuses u i = Some PENDING)"

lemma resetting_refl: "resetting J (statuses w) w"
  by (simp add: resetting_def)

lemma resetting_spec:
  assumes "resetting J b u" "\<And>i. i \<in> J \<Longrightarrow> b i \<noteq> Some SUCCESS"
  shows "spec_step b (statuses u)"
  using assms by (intro spec_step.Reset) (fastforce simp: resetting_def)

lemma statuses_reset:
  "statuses (rls_update mgr i (reset_row now) w) j = statuses w j \<or>
   j = i \<and> statuses w j \<noteq> None \<and> statuses (rls_update mgr i (reset_row now) w) j = Some PENDING"
proof -
  let ?f = "\<lambda>r. if ft_id r = i \<and> rls_visible mgr r then reset_row now r else r"
  have "row_find ft_id j (map ?f xs) = map_option ?f (row_find ft_id j xs)" for xs
    by (induction xs) (auto simp: row_find_def reset_row_def)
  then show ?thesis
    by (cases "find_transfer j w") (auto simp: statuses_def rls_update_def reset_row_def dest: row_find_SomeD)
qed

lemma resetting_reset: "i \<in> J \<Longrightarrow> keeps (resetting J b) (reset_one sv mgr i)"
  unfolding reset_one_def
proof (intro eff keeps_modify)
  fix w
  assume i: "i \<in> J" and w: "resetting J b w"
  show "resetting J b (rls_update mgr i (reset_row (w_now w)) w)"
    unfolding resetting_def
  proof
    fix j
    show "statuses (rls_update mgr i (reset_row (w_now w)) w) j = b j \<or>
        j \<in> J \<and> b j \<noteq> None \<and> statuses (rls_update mgr i (reset_row (w_now w)) w) j = Some PENDING"
      using w[unfolded resetting_def, rule_format, of j] statuses_reset[of mgr i "w_now w" w j] i by (cases "b j") auto
  qed
qed

lemma resetting_add: "keeps (resetting J b) (queue_add sv a n d)"
  unfolding queue_add_def by (intro eff keeps_modify) (simp add: resetting_def statuses_def)

text \<open>A scoped unit of work that starts with a query, and what follows it, from one state.\<close>

lemma scoped_query:
  assumes "keeps P (K (setting_of user) (q (setting_of user) w))" "P w" "\<And>a. keeps P (after a)"
  shows "P (snd (bnd (scoped sv user (\<lambda>mgr. bnd (call sv c (gets (q mgr))) (K mgr))) after w))"
proof -
  let ?m = "setting_of user"
  let ?work = "\<lambda>mgr. bnd (call sv c (gets (q mgr))) (K mgr)"
  have work: "P (snd (?work ?m w))"
    using assms(2) keepsD[OF assms(1,2)]
    by (cases "sv_fault sv c") (simp_all add: bnd_def call_def await_def gets_def)
  have scoped: "snd (scoped sv user ?work w) = w \<or> snd (scoped sv user ?work w) = snd (?work ?m w)"
  proof (cases "ADMIN \<in> set (au_roles user)")
    case False
    from transaction_snd[of "sv_fault sv C_Commit" "seq (call sv C_SetConfig (ret ())) (?work ?m)" w] False show ?thesis
      by (auto simp: scoped_def setting_of_def seq_Done_iff call_Done_iff)
  qed (simp add: scoped_def setting_of_def)
  from scoped work assms(2) have P: "P (snd (scoped sv user ?work w))" by auto
  obtain x w' where run: "scoped sv user ?work w = (x, w')" by fastforce
  then show ?thesis using P keepsD[OF assms(3)] by (cases x) (simp_all add: bnd_def)
qed

lemma resetting_retry:
  assumes "transfers_ok w"
  shows "spec_step (statuses w) (statuses (snd (retry sv app i user w)))"
proof (rule resetting_spec)
  let ?J = "{i. statuses w i \<noteq> Some SUCCESS}"
  have J: "i \<in> ?J" if "rls_find (setting_of user) i w = Some t" "ft_status t \<noteq> SUCCESS" for t
  proof -
    have "statuses w i = Some (ft_status t)" using statuses_Some[OF assms] rls_find_Some[OF that(1)] by blast
    with that(2) show ?thesis by simp
  qed
  show "resetting ?J (statuses w) (snd (retry sv app i user w))"
    unfolding retry_def reset_one_def[symmetric]
    by (rule scoped_query) (use J in \<open>auto intro!: eff resetting_reset resetting_add resetting_refl split: option.splits\<close>)
qed simp

lemma resetting_retryBatch:
  assumes "transfers_ok w"
  shows "spec_step (statuses w) (statuses (snd (retryBatch sv app dto user w)))"
proof (cases "(case rb_status dto of None \<Rightarrow> FAILED | Some s \<Rightarrow> s) = SUCCESS")
  case True
  then show ?thesis by (simp add: retryBatch_def throw_def spec_step.Stutter)
next
  case False
  let ?s = "case rb_status dto of None \<Rightarrow> FAILED | Some s \<Rightarrow> s" and ?J = "{i. statuses w i \<noteq> Some SUCCESS}"
  have J: "ft_id r \<in> ?J" if "r \<in> set (retry_rows ?s (rb_before dto) (rb_limit dto) (rls_rows (setting_of user) w))" for r
  proof -
    have "r \<in> set (w_transfers w)" "ft_status r = ?s" using that retry_rows_spec(1) by (fastforce simp: rls_rows_def)+
    then have "statuses w (ft_id r) = Some ?s" using statuses_Some[OF assms] by blast
    with False show ?thesis by simp
  qed
  have "resetting ?J (statuses w) (snd (retryBatch sv app dto user w))"
    unfolding retryBatch_def Let_def if_not_P[OF False]
    by (rule scoped_query) (use J in \<open>auto intro!: eff resetting_reset resetting_add resetting_refl\<close>)
  then show ?thesis by (rule resetting_spec) simp
qed

lemma spec_retries:
  assumes "transfers_ok w"
  shows "spec_step (statuses w) (statuses (snd (post_retry sv app al isUuid bearer i w)))"
    and "spec_step (statuses w) (statuses (snd (post_retry_batch sv app al bearer dto w)))"
  using resetting_retry[OF assms] resetting_retryBatch[OF assms]
  by (auto simp: post_retry_def post_retry_batch_def guarded_run parse_uuid_def throw_def spec_step.Stutter
      split: option.splits)

section \<open>The system\<close>

lemma spec_webhook: "spec_step (statuses w) (statuses (snd (handleWebhook sv cfg cwd carrier req p w)))"
proof -
  have "spec_step (statuses w) (statuses (with_transfer sv inp carrier' w))" if "fresh_for sv inp w" for inp carrier'
  proof -
    let ?r = "new_transfer (sv_uuid sv ''file_transfers'') (w_now w) inp"
    have new: "ft_status ?r = PENDING" by (simp add: new_transfer_def)
    have gone: "find_transfer (ft_id ?r) w = None"
      using that by (simp add: fresh_for_def new_transfer_def row_find_None_iff)
    have last: "row_find ft_id i [?r] = (if i = ft_id ?r then Some ?r else None)" for i by (simp add: row_find_def)
    have "statuses (with_transfer sv inp carrier' w) i = ((statuses w)(ft_id ?r \<mapsto> PENDING)) i" for i
      using new gone last by (cases "i = ft_id ?r") (simp_all add: statuses_def with_transfer_def Let_def row_find_append split: option.splits)
    then have "statuses (with_transfer sv inp carrier' w) = (statuses w)(ft_id ?r \<mapsto> PENDING)" by (rule ext)
    moreover have "statuses w (ft_id ?r) = None" using that by (simp add: statuses_None fresh_for_def new_transfer_def)
    ultimately show ?thesis by (simp add: spec_step.Accepted)
  qed
  then show ?thesis using webhook_state[of sv cfg cwd carrier req p w] by (auto intro: spec_step.Stutter)
qed

lemma spec_outside:
  assumes "frame core m"
  shows "spec_step (statuses w) (statuses (snd (m w)))"
  using frameD[OF assms, of w] statuses_transfers[of "snd (m w)" w] by (simp add: core_def spec_step.Stutter)

lemma step_refines:
  assumes "transfers_ok w" "step cfg cs cwd w w'"
  shows "spec_step (statuses w) (statuses w')"
  using assms(2)
proof (cases rule: step.cases)
  case (Work xs job ys sv svf)
  let ?u = "w\<lparr>w_queue := xs @ ys\<rparr>"
  have "spec_step (statuses ?u) (statuses w')"
    unfolding Work(1) by (rule spec_work) (use assms(1) in \<open>simp add: transfers_ok_def\<close>)
  then show ?thesis using statuses_transfers[of ?u w] by simp
next
  case (Relay sv)
  then show ?thesis using statuses_transfers[OF frameD[OF frame_relay(1)]] by (simp add: spec_step.Stutter)
next
  case (Tick t)
  then show ?thesis using statuses_transfers[of w' w] by (simp add: spec_step.Stutter)
next
  case Restart
  then show ?thesis using statuses_transfers[of w' w] by (simp add: spec_step.Stutter)
next
  case (Boot sv al)
  then show ?thesis using spec_outside[OF frame_seq[OF frame_core_users(4,3)]] by simp
qed (use assms(1) in \<open>simp_all add: spec_webhook spec_sweep spec_purge spec_retries spec_outside frame_core_dead_letter
      frame_core_delivery frame_core_subs frame_core_users(2,5)\<close>)

section \<open>Runs\<close>

text \<open>A simulation: every step of the concrete system from a state with the invariant is a step of the
  abstract one between the abstractions, so every run from an initial state is an abstract run.\<close>

locale simulation = invariant_of +
  fixes abs_init :: "'b \<Rightarrow> bool" and abs_next :: "'b \<Rightarrow> 'b \<Rightarrow> bool" and abs_of :: "'s \<Rightarrow> 'b"
  assumes sim_init: "init s \<Longrightarrow> abs_init (abs_of s)"
    and sim_next: "inv s \<Longrightarrow> next_state s t \<Longrightarrow> abs_next (abs_of s) (abs_of t)"
begin

lemma sim_run: "next_state\<^sup>*\<^sup>* s t \<Longrightarrow> inv s \<Longrightarrow> abs_next\<^sup>*\<^sup>* (abs_of s) (abs_of t)"
proof (induction rule: rtranclp_induct)
  case (step t u)
  then show ?case using sim_next[OF inv_run[OF step.hyps(1) step.prems] step.hyps(2)] by simp
qed simp

lemma sim_reachable: "init s \<Longrightarrow> next_state\<^sup>*\<^sup>* s t \<Longrightarrow> \<exists>a. abs_init a \<and> abs_next\<^sup>*\<^sup>* a (abs_of t)"
  using sim_init sim_run inv_init by blast

end

interpretation boards: simulation initial "step cfg cs cwd" "sys_inv cfg cwd" "\<lambda>b. b = Map.empty" spec_step statuses
  for cfg cs cwd
proof
  show "statuses w = Map.empty" if "initial w" for w
    using that by (simp add: initial_def statuses_def row_find_def fun_eq_iff)
  show "spec_step (statuses w) (statuses w')" if "sys_inv cfg cwd w" "step cfg cs cwd w w'" for w w'
    using that step_refines by (simp add: sys_inv_def)
qed

section \<open>Property\<close>



end
