(* ===== verification/Concurrency.thy ===== *)
theory Concurrency
  imports Refinement
begin

text \<open>
  Several jobs at once. The worker handles up to \<^verbatim>\<open>WORKER_CONCURRENCY\<close> jobs concurrently, and between two
  awaits of one handler others run. Here a run of the processor is cut at its awaits on shared state (finding
  the row, marking it, preparing, uploading, marking success, the effects after it, the error branch): each
  stage is a piece of \<^verbatim>\<open>runTransfer\<close>, and a run alone is exactly the handler. The reads of one preparation are one
  stage; they change nothing. The pool in which runs interleave with the other handlers is in \<open>Threads\<close>.
\<close>

section \<open>Stages\<close>

datatype run =
    Queued
  | Loaded FileTransfer
  | Marked FileTransfer
  | Ready FileTransfer Prepared
  | Uploaded FileTransfer Prepared UploadResult
  | Stored FileTransfer Prepared UploadResult
  | Failing FileTransfer js_error
  | Over "unit outcome"

definition after :: "'a outcome \<times> world \<Rightarrow> ('a \<Rightarrow> run) \<Rightarrow> (js_error \<Rightarrow> run) \<Rightarrow> run \<times> world" where
  "after res k h = (case res of
     (Done a, w) \<Rightarrow> (k a, w) | (Raised e, w) \<Rightarrow> (h e, w) | (Crashed, w) \<Rightarrow> (Over Crashed, w))"

text \<open>The end of the \<^verbatim>\<open>try\<close> block, with its \<^verbatim>\<open>finally\<close>.\<close>

definition finished :: "unit outcome \<times> world \<Rightarrow> run \<times> world" where
  "finished res = (case res of
     (Crashed, w) \<Rightarrow> (Over Crashed, w) | (x, w) \<Rightarrow> (Over x, endTimer (decInFlight w)))"

fun stage :: "services \<Rightarrow> app_config \<Rightarrow> CryptoService \<Rightarrow> TransferJob \<Rightarrow> run \<Rightarrow> world \<Rightarrow> run \<times> world" where
  "stage sv cfg cs job Queued w =
     after (findById sv C_FindById (tj_transferId (qj_data job)) w)
       (\<lambda>row. case row of
          None \<Rightarrow> Over (Done ())
        | Some t \<Rightarrow> if ft_status t = SUCCESS then Over (Done ()) else Loaded t)
       (\<lambda>e. Over (Raised e))"
| "stage sv cfg cs job (Loaded t) w =
     after (seq (modify incInFlight) (markProcessing sv (ft_id t)) w) (\<lambda>_. Marked t) (\<lambda>e. Over (Raised e))"
| "stage sv cfg cs job (Marked t) w = after (prepare sv cfg cs t w) (Ready t) (Failing t)"
| "stage sv cfg cs job (Ready t pr) w =
     after (uploadStream sv (cfg_s3 cfg) (pr_upload pr) w) (Uploaded t pr) (Failing t)"
| "stage sv cfg cs job (Uploaded t pr result) w =
     after (seq (if \<not> truthy (pr_wrappedDek pr) then verifyIntegrity (ur_etag result) (fc_md5 (pr_checksums pr)) else ret ())
         (markSuccess sv (ft_id t) (ur_bucket result) (ur_key result) (ur_etag result)
            (Some (fc_sha256 (pr_checksums pr))) (truthy (pr_wrappedDek pr)) (pr_wrappedDek pr)) w)
       (\<lambda>_. Stored t pr result) (Failing t)"
| "stage sv cfg cs job (Stored t pr result) w =
     (case after_success sv cfg t pr result w of
        (Raised e, w') \<Rightarrow> (Failing t e, w') | res \<Rightarrow> finished res)"
| "stage sv cfg cs job (Failing t e) w = finished (on_error sv cfg t e w)"
| "stage sv cfg cs job (Over x) w = (Over x, w)"

text \<open>A number of stages of one run, with nothing in between.\<close>

fun stages :: "nat \<Rightarrow> services \<Rightarrow> app_config \<Rightarrow> CryptoService \<Rightarrow> TransferJob \<Rightarrow> run \<Rightarrow> world \<Rightarrow> run \<times> world" where
  "stages 0 sv cfg cs job r w = (r, w)"
| "stages (Suc n) sv cfg cs job r w = (case stage sv cfg cs job r w of (r', w') \<Rightarrow> stages n sv cfg cs job r' w')"

text \<open>What the queue does when a run is over.\<close>

definition settle_outcome :: "services \<Rightarrow> app_config \<Rightarrow> TransferJob \<Rightarrow> unit outcome \<Rightarrow> world \<Rightarrow> world" where
  "settle_outcome svf cfg job x w =
     (case x of
        Done _ \<Rightarrow> w
      | Crashed \<Rightarrow> w\<lparr>w_queue := w_queue w @ [job]\<rparr>
      | Raised e \<Rightarrow>
          let job' = job_failed_once job;
              w2 = (if qj_attemptsMade job' < totalAttempts job' then w\<lparr>w_queue := w_queue w @ [job']\<rparr> else w)
          in snd (onFailed svf cfg job' e w2))"

section \<open>A run alone\<close>

lemma stages_Over [simp]: "stages n sv cfg cs job (Over x) w = (Over x, w)"
  by (induction n) simp_all

lemma stages_add: "stages (m + n) sv cfg cs job r w = (case stages m sv cfg cs job r w of (r', w') \<Rightarrow> stages n sv cfg cs job r' w')"
  by (induction m arbitrary: r w) (simp_all split: prod.splits)

lemma stages_Failing: "stages (Suc n) sv cfg cs job (Failing t e) w =
    (Over (fst (try_finally (on_error sv cfg t e) (\<lambda>w. endTimer (decInFlight w)) w)),
     snd (try_finally (on_error sv cfg t e) (\<lambda>w. endTimer (decInFlight w)) w))"
  by (auto simp: finished_def try_finally_def split: prod.splits outcome.splits)

text \<open>From each stage on, the rest of the run is the rest of the handler.\<close>

definition over :: "unit outcome \<times> world \<Rightarrow> run \<times> world" where
  "over res = (Over (fst res), snd res)"

abbreviation protect :: "services \<Rightarrow> app_config \<Rightarrow> FileTransfer \<Rightarrow> (world, unit) act \<Rightarrow> (world, unit) act" where
  "protect sv cfg t m \<equiv> try_finally (try_catch m (on_error sv cfg t)) (\<lambda>w. endTimer (decInFlight w))"

lemma protect_bnd:
  "protect sv cfg t (bnd m k) w = (case m w of
     (Done a, w') \<Rightarrow> protect sv cfg t (k a) w'
   | (Raised e, w') \<Rightarrow> try_finally (on_error sv cfg t e) (\<lambda>w. endTimer (decInFlight w)) w'
   | (Crashed, w') \<Rightarrow> (Crashed, w'))"
  by (auto simp: try_finally_def try_catch_def bnd_def split: prod.splits outcome.splits)

lemma stages_Stored:
  "stages (Suc (Suc n)) sv cfg cs job (Stored t pr r) w = over (protect sv cfg t (after_success sv cfg t pr r) w)"
  by (auto simp: finished_def over_def try_finally_def try_catch_def split: prod.splits outcome.splits)

lemma stages_after:
  assumes "\<And>a w'. stages (Suc n) sv cfg cs job (k a) w' = over (protect sv cfg t (f a) w')"
  shows "(case after (m w) k (Failing t) of (r', w') \<Rightarrow> stages (Suc n) sv cfg cs job r' w') = over (protect sv cfg t (bnd m f) w)"
  unfolding protect_bnd
  by (auto simp: after_def assms stages_Failing over_def simp del: stages.simps split: prod.splits outcome.splits)

lemma stages_Marked:
  "stages (Suc (Suc (Suc (Suc (Suc n))))) sv cfg cs job (Marked t) w =
     over (protect sv cfg t (bnd (prepare sv cfg cs t) (complete sv cfg t)) w)"
proof -
  have uploaded: "stages (Suc (Suc (Suc n))) sv cfg cs job (Uploaded t pr r) w =
      over (protect sv cfg t (seq (if \<not> truthy (pr_wrappedDek pr) then verifyIntegrity (ur_etag r) (fc_md5 (pr_checksums pr)) else ret ())
       (seq (markSuccess sv (ft_id t) (ur_bucket r) (ur_key r) (ur_etag r)
          (Some (fc_sha256 (pr_checksums pr))) (truthy (pr_wrappedDek pr)) (pr_wrappedDek pr))
        (after_success sv cfg t pr r))) w)" for pr r n w
  proof -
    have assoc: "seq a (seq b c) = bnd (seq a b) (\<lambda>_. c)" for a b and c :: "(world, unit) act"
      by (auto simp: seq_def bnd_def fun_eq_iff split: prod.splits outcome.splits)
    show ?thesis
      unfolding assoc by (subst stages.simps(2), subst stage.simps, rule stages_after) (rule stages_Stored)
  qed
  have ready: "stages (Suc (Suc (Suc (Suc n)))) sv cfg cs job (Ready t pr) w = over (protect sv cfg t (complete sv cfg t pr) w)" for pr n w
    unfolding complete_def by (subst stages.simps(2), subst stage.simps, rule stages_after) (rule uploaded)
  show ?thesis
    by (subst stages.simps(2), subst stage.simps, rule stages_after) (rule ready)
qed

lemma staged_run: "stages 7 sv cfg cs job Queued w = over (process_job sv cfg cs job w)"
proof -
  have seven: "(7::nat) = Suc (Suc (Suc (Suc (Suc (Suc (Suc 0))))))" by simp
  have loaded: "stages (Suc (Suc (Suc (Suc (Suc (Suc n)))))) sv cfg cs job (Loaded t) w =
      over (seq (modify incInFlight) (seq (markProcessing sv (ft_id t)) (protect sv cfg t (bnd (prepare sv cfg cs t) (complete sv cfg t)))) w)" for t n w
    by (subst stages.simps(2), subst stage.simps)
      (auto simp: after_def seq_def bnd_def modify_def over_def stages_Marked[unfolded over_def] simp del: stages.simps(2) split: prod.splits outcome.splits)
  show ?thesis
    unfolding seven process_job_runTransfer runTransfer_def
    by (subst stages.simps(2), subst stage.simps)
      (auto simp: after_def bnd_def over_def ret_def loaded[unfolded over_def] simp del: stages.simps(2)
        split: prod.splits outcome.splits option.splits)
qed

lemma settle_staged:
  "settle_job sv svf cfg cs job w =
     (case stages 7 sv cfg cs job Queued w of (r, w') \<Rightarrow> settle_outcome svf cfg job (case r of Over x \<Rightarrow> x | _ \<Rightarrow> Crashed) w')"
  by (cases "process_job sv cfg cs job w") (simp add: staged_run over_def settle_job_def settle_outcome_def split: outcome.splits)

text \<open>What holds of a run in progress: its transfer is recorded, the row it has read is the job's, what it has
  prepared says truthfully whether it is encrypted, and what it has uploaded is in the store.\<close>

fun run_ok :: "TransferJob \<Rightarrow> run \<Rightarrow> world \<Rightarrow> bool" where
  "run_ok job (Loaded t) w = (ft_id t = job_id job)"
| "run_ok job (Marked t) w = (ft_id t = job_id job)"
| "run_ok job (Ready t pr) w = (ft_id t = job_id job \<and> truthy (pr_wrappedDek pr) = (pr_wrappedDek pr \<noteq> None))"
| "run_ok job (Uploaded t pr r) w =
     (ft_id t = job_id job \<and> truthy (pr_wrappedDek pr) = (pr_wrappedDek pr \<noteq> None) \<and> present (ur_bucket r, ur_key r) w)"
| "run_ok job (Stored t pr r) w = (ft_id t = job_id job)"
| "run_ok job (Failing t e) w = (ft_id t = job_id job)"
| "run_ok job _ w = True"

section \<open>Stages keep the laws of a job\<close>

lemma job_law_refl: "job_law i w w"
  by (auto simp: job_law_def)

lemma job_law_inv:
  assumes "job_law i w w'" "sys_inv cfg cwd w" "i \<in> recorded w"
  shows "sys_inv cfg cwd w'" "recorded w' = recorded w"
proof -
  have idents: "map ident (w_transfers w') = map ident (w_transfers w)" using assms(1) by (simp add: job_law_def)
  have ids: "ft_id ` set (w_transfers w') = ft_id ` set (w_transfers w)" using arg_cong[OF ident_ids[OF idents], of set] by simp
  have "in_root cfg cwd (ft_sourcePath r')" if "r' \<in> set (w_transfers w')" for r'
  proof -
    have "ident r' \<in> ident ` set (w_transfers w)" using arg_cong[OF idents, of set] that by auto
    then obtain r where "ident r' = ident r" "r \<in> set (w_transfers w)" by (rule imageE)
    with assms(2) show ?thesis by (auto simp: sys_inv_def paths_in_root_def ident_def)
  qed
  moreover show "recorded w' = recorded w" using assms(1) by (simp add: recorded_def job_law_def)
  moreover have "named w' \<subseteq> recorded w"
    unfolding named_def
  proof (intro Un_least)
    have old: "ft_id ` set (w_transfers w) \<subseteq> recorded w" "job_id ` set (w_queue w) \<subseteq> recorded w" "dl_transferId ` set (w_dlq w) \<subseteq> recorded w"
      using assms(2) by (simp_all add: sys_inv_def named_def)
    then show "ft_id ` set (w_transfers w') \<subseteq> recorded w" "job_id ` set (w_queue w') \<subseteq> recorded w"
      using assms(1) ids by (simp_all add: job_law_def)
    have "dl_transferId ` set (w_dlq w') \<subseteq> insert i (dl_transferId ` set (w_dlq w))" using assms(1) by (simp add: job_law_def)
    also have "\<dots> \<subseteq> recorded w" using old(3) assms(3) by simp
    finally show "dl_transferId ` set (w_dlq w') \<subseteq> recorded w" .
  qed
  ultimately show "sys_inv cfg cwd w'"
    using assms(1,2) by (auto simp: sys_inv_def paths_in_root_def outbox_ok_def job_law_def)
qed

text \<open>Actions that leave the tables and queues alone, and lose no object.\<close>

definition tables_of :: "world \<Rightarrow> FileTransfer list \<times> OutboxEvent list \<times> TransferJob list \<times> DeadLetterJobData list" where
  "tables_of w = (w_transfers w, w_outbox w, w_queue w, w_dlq w)"

lemma job_law_tables:
  assumes "tables_of w' = tables_of w" "\<And>x. present x w \<Longrightarrow> present x w'"
  shows "job_law i w w'"
proof -
  have eq: "w_transfers w' = w_transfers w" "w_outbox w' = w_outbox w" "w_queue w' = w_queue w" "w_dlq w' = w_dlq w"
    using assms(1) by (simp_all add: tables_of_def)
  have "success_stored w'" if "success_stored w"
    using that assms(2) unfolding success_stored_def present_def eq by blast
  then show ?thesis by (auto simp: job_law_def transfers_ok_def eq)
qed

context row_patch
begin

lemma patch_law:
  assumes "\<And>r. ft_status (patch now r) = SUCCESS \<Longrightarrow> \<exists>k. ft_objectKey (patch now r) = Some k \<and> present (ft_bucket (patch now r), k) w"
  shows "job_law i w (upd_transfer i (patch now) w)"
proof -
  have "map ident (w_transfers (upd_transfer i (patch now) w)) = map ident (w_transfers w)"
    by (rule transfers.map_upd) (rule patch_ident)
  then show ?thesis
    using assms patch_keeps_ok by (auto simp: job_law_def success_stored_def upd_transfer_def row_update_def present_def)
qed

end

lemma law_metrics: "job_law i w (incInFlight w)" "job_law i w (endTimer (decInFlight w))"
  by (rule job_law_tables; simp add: tables_of_def present_def metric_defs)+

lemma snd_call_modify: "snd (call sv c (modify g) w) = w \<or> snd (call sv c (modify g) w) = g w"
  using snd_call[of sv c "modify g" w] by (simp add: modify_def)

lemma law_marks:
  "job_law i w (snd (markProcessing sv i w))"
  "present (b, k) w \<Longrightarrow> job_law i w (snd (markSuccess sv i b k e (Some c) (d \<noteq> None) d w))"
proof -
  show "job_law i w (snd (markProcessing sv i w))"
    using snd_call_modify[of sv C_MarkProcessing "\<lambda>w. upd_transfer i (set_processing (w_now w)) w" w]
    by (auto simp: markProcessing_def job_law_refl intro!: processing.patch_law) (simp add: set_processing_def)
  assume "present (b, k) w"
  then show "job_law i w (snd (markSuccess sv i b k e (Some c) (d \<noteq> None) d w))"
    using snd_call_modify[of sv C_MarkSuccess "\<lambda>w. upd_transfer i (set_success b k e (Some c) (d \<noteq> None) d (w_now w)) w" w]
      success.patch_law[of b k e c d "w_now w" w i]
    by (auto simp: markSuccess_def job_law_refl set_success_def simp del: not_None_eq)
qed

lemma law_upload: "job_law i w (snd (uploadStream sv cfg params w))"
proof (rule job_law_tables)
  show "tables_of (snd (uploadStream sv cfg params w)) = tables_of w"
    by (rule frameD[OF frame_upload]) (simp_all add: tables_of_def)
  show "present x w \<Longrightarrow> present x (snd (uploadStream sv cfg params w))" for x by (rule keepsD[OF present_upload])
qed

lemma law_after_success: "job_law i w (snd (after_success sv cfg t pr r w))"
proof (rule job_law_tables)
  have "frame w_outbox (after_success sv cfg t pr r)"
    unfolding after_success_def by (intro eff frame_modify frame_recordUsage frame_metrics; simp)
  from frameD[OF this] show "tables_of (snd (after_success sv cfg t pr r w)) = tables_of w"
    using frame_after_success[of sv cfg t pr r, THEN frameD] by (simp add: tables_of_def)
  show "present x w \<Longrightarrow> present x (snd (after_success sv cfg t pr r w))" for x
    by (rule keepsD[OF present_frame[OF frame_after_success(2)]])
qed

lemma law_on_error:
  assumes "ft_id t = i"
  shows "job_law i w (snd (on_error sv cfg t e w))"
proof -
  have stored: "keeps success_stored (on_error sv cfg t e)"
  proof -
    have fr: "keeps success_stored m" if "frame w_transfers m" "frame w_objects m" for m :: "(world, 'a) act"
      using that by (auto simp: keeps_def frame_def success_stored_def)
    have mark: "keeps success_stored (markFailed sv i msg)" for i msg
      unfolding markFailed_def
      by (intro eff keeps_modify) (auto simp: success_stored_def upd_transfer_def row_update_def set_failed_def)
    show ?thesis unfolding on_error_def by (intro eff mark fr frame_modify frame_toDeadLetter) (simp_all add: metric_defs)
  qed
  have "dlq_within (insert i (dl_transferId ` set (w_dlq w))) (snd (on_error sv cfg t e w))"
    by (rule keepsD[OF dlq_within_on_error]) (auto simp: dlq_within_def assms)
  then show ?thesis
    using frameD[OF job_idents.frame_on_error[OF assms], of sv cfg e w] frameD[OF job_tables.frame_on_error[OF assms], of sv cfg e w]
      keepsD[OF keeps_ok_on_error] keepsD[OF stored]
    by (simp add: job_law_def untouched_by_jobs_def dlq_within_def)
qed

lemma present_on_error: "present x w \<Longrightarrow> present x (snd (on_error sv cfg t e w))"
proof -
  have "keeps (present x) (on_error sv cfg t e)"
    unfolding on_error_def
    by (intro eff present_frame frame_modify frame_toDeadLetter frame_modify_transfer) (simp_all add: metric_defs)
  then show "present x w \<Longrightarrow> present x (snd (on_error sv cfg t e w))" by (rule keepsD)
qed

section \<open>What a stage leaves\<close>

text \<open>Which stage follows, and what it leaves.\<close>

lemma after_cases:
  assumes "after res k h = (r', w')"
  obtains a where "res = (Done a, w')" "r' = k a" | e where "res = (Raised e, w')" "r' = h e" | "res = (Crashed, w')" "r' = Over Crashed"
  using assms by (auto simp: after_def split: prod.splits outcome.splits)

lemma finished_run: "finished res = (r', w') \<Longrightarrow> (\<exists>x. r' = Over x) \<and> (w' = snd res \<or> w' = endTimer (decInFlight (snd res)))"
  by (auto simp: finished_def split: prod.splits outcome.splits)

definition stage_law :: "TransferJob \<Rightarrow> world \<Rightarrow> run \<times> world \<Rightarrow> bool" where
  "stage_law job w rw \<longleftrightarrow> job_law (job_id job) w (snd rw) \<and> run_ok job (fst rw) (snd rw) \<and> (\<forall>x. present x w \<longrightarrow> present x (snd rw))"

lemma stage_law_after:
  assumes "job_law (job_id job) w (snd res)" "\<And>x. present x w \<Longrightarrow> present x (snd res)"
    and "\<And>a. fst res = Done a \<Longrightarrow> run_ok job (k a) (snd res)" "\<And>e. run_ok job (h e) (snd res)"
  shows "stage_law job w (after res k h)"
  using assms by (cases res; cases "fst res") (auto simp: stage_law_def after_def)

lemma stage_law_finished:
  assumes "job_law (job_id job) w (snd res)" "\<And>x. present x w \<Longrightarrow> present x (snd res)"
  shows "stage_law job w (finished res)"
proof -
  obtain r' w' where f: "finished res = (r', w')" by fastforce
  have "job_law (job_id job) w (endTimer (decInFlight (snd res)))" by (rule job_law_trans[OF assms(1) law_metrics(2)])
  moreover have "present x (endTimer (decInFlight u)) = present x u" for x u by (simp add: present_def metric_defs)
  ultimately show ?thesis using finished_run[OF f] assms f by (auto simp: stage_law_def)
qed

lemma lawful_Uploaded:
  assumes ok: "run_ok job (Uploaded t pr res) w"
  shows "stage_law job w (stage sv cfg cs job (Uploaded t pr res) w)"
proof -
  from ok have d: "truthy (pr_wrappedDek pr) = (pr_wrappedDek pr \<noteq> None)" "ft_id t = job_id job" "present (ur_bucket res, ur_key res) w"
    by simp_all
  let ?v = "if \<not> truthy (pr_wrappedDek pr) then verifyIntegrity (ur_etag res) (fc_md5 (pr_checksums pr)) else ret ()"
  let ?m = "markSuccess sv (ft_id t) (ur_bucket res) (ur_key res) (ur_etag res) (Some (fc_sha256 (pr_checksums pr)))
    (truthy (pr_wrappedDek pr)) (pr_wrappedDek pr)"
  have "snd (?v w) = w" by (auto simp: verifyIntegrity_def ret_def throw_def split: option.splits)
  then have cases: "snd (seq ?v ?m w) = w \<or> snd (seq ?v ?m w) = snd (?m w)"
    by (auto simp: seq_def bnd_def split: prod.splits outcome.splits)
  have law: "job_law (job_id job) w (snd (?m w))" unfolding d(1) d(2) using d(3) by (rule law_marks(2))
  have "w_objects (snd (?m w)) = w_objects w" by (rule frameD) (rule frame_modify_transfer(2); simp)
  with cases law show ?thesis
    using d(2) unfolding stage.simps by (intro stage_law_after) (auto simp: job_law_refl present_def)
qed

lemma lawful_Stored:
  assumes ok: "run_ok job (Stored t pr res) w"
  shows "stage_law job w (stage sv cfg cs job (Stored t pr res) w)"
proof -
  obtain x w' where run: "after_success sv cfg t pr res w = (x, w')" by fastforce
  have law: "job_law (job_id job) w w'" using law_after_success[of "job_id job" w sv cfg t pr res] run by simp
  have p: "present y w \<Longrightarrow> present y w'" for y
    using keepsD[OF present_frame[OF frame_after_success(2)], of y w sv cfg t pr res] run by simp
  show ?thesis
  proof (cases x)
    case (Raised e)
    then show ?thesis using ok law p by (simp add: run stage_law_def)
  qed (use stage_law_finished[of job w "after_success sv cfg t pr res w"] run law p in \<open>simp_all\<close>)
qed

lemma stage_lawful: "run_ok job r w \<Longrightarrow> stage_law job w (stage sv cfg cs job r w)"
proof (cases r)
  case Queued
  have same: "snd (findById sv C_FindById (job_id job) w) = w" unfolding findById_def by (rule call_gets)
  have "ft_id t = job_id job" if "fst (findById sv C_FindById (job_id job) w) = Done (Some t)" for t
    using that by (cases "sv_fault sv C_FindById") (auto simp: findById_def call_def await_def gets_def dest: row_find_SomeD)
  then show ?thesis
    unfolding Queued stage.simps by (intro stage_law_after) (auto simp: same job_law_refl split: option.splits)
next
  case (Loaded t)
  assume ok: "run_ok job r w"
  let ?w = "snd (markProcessing sv (ft_id t) (incInFlight w))"
  have w': "snd (seq (modify incInFlight) (markProcessing sv (ft_id t)) w) = ?w" by (simp add: seq_def bnd_def modify_def)
  have "job_law (job_id job) w ?w" using job_law_trans[OF law_metrics(1) law_marks(1)] ok Loaded by simp
  moreover have "w_objects ?w = w_objects w"
    using frameD[OF frame_modify_transfer(1)[of w_objects sv "ft_id t"], of "incInFlight w"] by (simp add: metric_defs)
  ultimately show ?thesis
    using ok unfolding Loaded stage.simps by (intro stage_law_after) (simp_all add: w' present_def)
next
  case (Marked t)
  assume ok: "run_ok job r w"
  have "truthy (pr_wrappedDek pr) = (pr_wrappedDek pr \<noteq> None)" if "fst (prepare sv cfg cs t w) = Done pr" for pr
    using prepared_truthy[OF prepare_Done] that by (metis prod.collapse)
  then show ?thesis
    using ok unfolding Marked stage.simps by (intro stage_law_after) (simp_all add: prepare_pure job_law_refl)
next
  case (Ready t pr)
  assume ok: "run_ok job r w"
  have "present (ur_bucket res, ur_key res) (snd (uploadStream sv (cfg_s3 cfg) (pr_upload pr) w))"
    if "fst (uploadStream sv (cfg_s3 cfg) (pr_upload pr) w) = Done res" for res
    using uploadStream_Done[of sv "cfg_s3 cfg" "pr_upload pr" w res] that
    by (cases "uploadStream sv (cfg_s3 cfg) (pr_upload pr) w") (simp add: present_def)
  then show ?thesis
    using ok keepsD[OF present_upload] unfolding Ready stage.simps by (intro stage_law_after law_upload) simp_all
next
  case (Failing t e)
  assume ok: "run_ok job r w"
  show ?thesis
    using ok unfolding Failing stage.simps by (intro stage_law_finished law_on_error present_on_error) simp_all
next
  case (Over x)
  then show ?thesis by (simp add: stage_law_def job_law_refl)
next
  case (Uploaded t pr res)
  assume "run_ok job r w"
  then show ?thesis unfolding Uploaded by (rule lawful_Uploaded)
next
  case (Stored t pr res)
  assume "run_ok job r w"
  then show ?thesis unfolding Stored by (rule lawful_Stored)
qed

lemma present_onFailed: "keeps (present x) (onFailed sv cfg job e)"
  unfolding onFailed_def Let_def
  by (intro eff present_frame frame_modify frame_toDeadLetter frame_modify_transfer) (simp_all add: metric_defs)

lemma inv_queue:
  assumes "sys_inv cfg cwd w" "job_id ` set q \<subseteq> recorded w"
  shows "sys_inv cfg cwd (w\<lparr>w_queue := q\<rparr>)"
  using assms by (auto simp: sys_inv_def transfers_ok_def outbox_ok_def named_def recorded_def success_stored_def paths_in_root_def)

lemma named_queue: "sys_inv cfg cwd w \<Longrightarrow> job \<in> set (w_queue w) \<Longrightarrow> job_id job \<in> recorded w"
  by (auto simp: sys_inv_def named_def)

lemma settle_outcome_inv:
  assumes "sys_inv cfg cwd w" "job_id job \<in> recorded w"
  shows "sys_inv cfg cwd (settle_outcome svf cfg job x w) \<and> recorded (settle_outcome svf cfg job x w) = recorded w \<and>
    (\<forall>y. present y w \<longrightarrow> present y (settle_outcome svf cfg job x w))"
proof -
  have requeued: "sys_inv cfg cwd (w\<lparr>w_queue := w_queue w @ [j]\<rparr>)" if "job_id j = job_id job" for j
    by (rule inv_queue[OF assms(1)]) (use assms named_queue that in auto)
  show ?thesis
  proof (cases x)
    case (Raised e)
    let ?j = "job_failed_once job"
    define w2 where "w2 = (if qj_attemptsMade ?j < totalAttempts ?j then w\<lparr>w_queue := w_queue w @ [?j]\<rparr> else w)"
    have s: "settle_outcome svf cfg job x w = snd (onFailed svf cfg ?j e w2)" by (simp add: settle_outcome_def Raised w2_def Let_def)
    have w2: "sys_inv cfg cwd w2" "recorded w2 = recorded w" "\<And>y. present y w2 = present y w"
      using requeued[of ?j] assms(1) by (simp_all add: w2_def recorded_def present_def)
    from job_law_inv[OF job_law_onFailed[of ?j w2 svf cfg e] w2(1)] assms(2) w2(2,3) keepsD[OF present_onFailed]
    show ?thesis unfolding s by simp
  next
    case Crashed
    then show ?thesis using requeued[of job] by (simp add: settle_outcome_def recorded_def present_def)
  qed (use assms in \<open>simp add: settle_outcome_def\<close>)
qed

text \<open>No handler forgets what was recorded or stored.\<close>

lemma present_settle: "present x w \<Longrightarrow> present x (settle_job sv svf cfg cs job w)"
  by (rule settle_keeps[where P = "present x"]) (simp_all add: keepsD[OF present_process] present_onFailed, simp add: present_def)

lemma step_grows:
  assumes "step cfg cs cwd w w'" "sys_inv cfg cwd w"
  shows "recorded w \<subseteq> recorded w' \<and> (\<forall>x. present x w \<longrightarrow> present x w')"
proof -
  have ok: "transfers_ok w" "outbox_ok w" using assms(2) by (simp_all add: sys_inv_def)
  from step_kinds[OF assms(1)] show ?thesis
  proof (elim disjE exE)
    fix sv carrier req p
    assume "w' = snd (handleWebhook sv cfg cwd carrier req p w)"
    then show ?thesis
      using webhook_state[of sv cfg cwd carrier req p w] by (auto simp: with_transfer_def Let_def recorded_def present_def)
  next
    fix sv
    assume "w' = snd (relay sv w)"
    then show ?thesis using relay_recorded[OF ok(2), of sv] frameD[OF frame_relay(3), of sv w] by (simp add: present_def)
  next
    assume h: "handler_step cfg cs w w'"
    have "w_outbox w' = w_outbox w" by (rule handlers.outbox_law[OF h])
    moreover have "\<forall>x. present x w \<longrightarrow> present x w'"
      using h unfolding handler_step_def
    proof (elim disjE exE conjE)
      fix xs job ys sv svf
      assume "w' = settle_job sv svf cfg cs job (w\<lparr>w_queue := xs @ ys\<rparr>)"
      moreover have "present x (w\<lparr>w_queue := xs @ ys\<rparr>)" if "present x w" for x using that by (simp add: present_def)
      ultimately show ?thesis using present_settle by blast
    next
      fix sv
      assume "w' = snd (sweep sv (cfg_app cfg) (cfg_recovery cfg) w)"
      then have "sweep_rest w' = sweep_rest w"
        using sweep_progress_sweep[OF ok(1), of "cfg_app cfg" "cfg_recovery cfg" sv] by (simp add: sweep_progress_def)
      from sweep_rest_parts(3)[OF this] show ?thesis by (simp add: present_def)
    next
      fix sv
      assume "w' = snd (purge sv (cfg_retentionAuditDays cfg) w)"
      then show ?thesis
        using purge_cases[of "cfg_retentionAuditDays cfg" sv w]
        by (cases "cfg_retentionAuditDays cfg > 0") (auto simp: purge_def ret_def present_def)
    qed (simp_all add: retried_def core_def present_def)
    ultimately show ?thesis by (simp add: recorded_def)
  qed
qed

lemma run_ok_mono: "run_ok job r w \<Longrightarrow> (\<And>x. present x w \<Longrightarrow> present x w') \<Longrightarrow> run_ok job r w'"
  by (cases r) auto

section \<open>Two runs of one transfer\<close>

text \<open>The run of a good file up to its upload, and from there to its end.\<close>

lemma good_file_row: "good_file sv cfg cs (set_processing now t) sz bytes w = good_file sv cfg cs t sz bytes w"
  by (simp add: good_file_def admitted_def set_processing_def)

lemma good_file_later:
  assumes "good_file sv cfg cs t sz bytes w" "w_usage w' = w_usage w" "set (w_buckets w) \<subseteq> set (w_buckets w')"
  shows "good_file sv cfg cs t sz bytes w'"
  using assms by (auto simp: good_file_def admitted_def usage_of_def)

lemma upload_buckets: "keeps (\<lambda>w. B \<subseteq> set (w_buckets w)) (uploadStream sv cfg params)"
proof -
  have "keeps (\<lambda>w. B \<subseteq> set (w_buckets w)) (head_bucket b)" "keeps (\<lambda>w. B \<subseteq> set (w_buckets w)) (create_bucket b)"
    "keeps (\<lambda>w. B \<subseteq> set (w_buckets w)) (put_object b k body ct len)" for b k body ct len
    by (auto simp: keeps_def head_bucket_def create_bucket_def put_object_def modify_def)
  then show ?thesis unfolding uploadStream_def ensureBucket_def Let_def by (intro eff)
qed

lemma run_to_upload:
  assumes "upload_calls_ok sv" "find_transfer (job_id job) w = Some t" "ft_status t \<noteq> SUCCESS" "good_file sv cfg cs t sz bytes w"
  obtains pr r w1 where "stages 4 sv cfg cs job Queued w = (Uploaded t pr r, w1)" "prepared_ok sv cfg cs t pr w"
    "pr_sizeBytes pr = sz" "etag_verified pr r" "uploaded cfg t pr r w1"
    "find_transfer (job_id job) w1 = Some (set_processing (w_now w) t)" "w_usage w1 = w_usage w" "set (w_buckets w) \<subseteq> set (w_buckets w1)"
proof -
  have i: "ft_id t = job_id job" using assms(2) by (auto dest: row_find_SomeD)
  define w0 where "w0 = upd_transfer (ft_id t) (set_processing (w_now w)) (incInFlight w)"
  have w0: "w_usage w0 = w_usage w" "w_buckets w0 = w_buckets w" "w_now (incInFlight w) = w_now w"
    by (simp_all add: w0_def incInFlight_def)
  have good: "good_file sv cfg cs t sz bytes w0" using assms(4) w0 by (subst good_file_cong)
  obtain pr where pr: "prepare sv cfg cs t w0 = (Done pr, w0)" "pr_sizeBytes pr = sz"
    using prepare_succeeds[OF assms(1) good] by blast
  have ok0: "prepared_ok sv cfg cs t pr w0" using pr(1) by (rule prepare_Done)
  obtain r w1 where up: "uploadStream sv (cfg_s3 cfg) (pr_upload pr) w0 = (Done r, w1)" "etag_verified pr r"
    using good_file_upload[OF assms(1) good ok0 pr(2)] by blast
  note calls = upload_calls_okD[OF assms(1)]
  have four: "(4::nat) = Suc (Suc (Suc (Suc 0)))" by simp
  have "stages 4 sv cfg cs job Queued w = (Uploaded t pr r, w1)"
    using assms(2,3) pr(1) up(1)
    by (simp add: four after_def findById_def markProcessing_def call_Healthy calls gets_def seq_def bnd_def modify_def w0_def[symmetric] w0(3))
  moreover have "find_transfer (job_id job) w1 = Some (set_processing (w_now w) t)"
  proof -
    have "frame w_transfers (uploadStream sv (cfg_s3 cfg) (pr_upload pr))" by (rule frame_upload; simp)
    from frame_runD[OF this up(1)] show ?thesis using find_started[OF assms(2)] i by (simp add: w0_def)
  qed
  moreover have "w_usage w1 = w_usage w"
  proof -
    have "frame w_usage (uploadStream sv (cfg_s3 cfg) (pr_upload pr))" by (rule frame_upload; simp)
    from frame_runD[OF this up(1)] show ?thesis using w0 by simp
  qed
  moreover have "set (w_buckets w) \<subseteq> set (w_buckets w1)"
    using keepsD[OF upload_buckets, of "set (w_buckets w)" w0 sv "cfg_s3 cfg" "pr_upload pr"] up(1) w0 by simp
  moreover have "uploaded cfg t pr r w1" using uploadStream_Done[OF up(1)] ok0 by (auto simp: uploaded_def prepared_ok_def)
  moreover have "prepared_ok sv cfg cs t pr w" using ok0 prepared_ok_usage[of w0 w] w0 by simp
  ultimately show ?thesis using that pr(2) up(2) by blast
qed

lemma run_from_upload:
  assumes "healthy sv" "prepared_ok sv cfg cs t pr w0" "etag_verified pr r" "ft_id t = job_id job"
    and "find_transfer (job_id job) w = Some row"
  obtains w' where "stages 3 sv cfg cs job (Uploaded t pr r) w = (Over (Done ()), w')"
    "find_transfer (job_id job) w' = Some (set_success (ur_bucket r) (ur_key r) (ur_etag r)
       (Some (fc_sha256 (pr_checksums pr))) (pr_wrappedDek pr \<noteq> None) (pr_wrappedDek pr) (w_now w) row)"
    "w_objects w' = w_objects w" "usage_of (ft_tenantId t) w' = plus_object (usage_of (ft_tenantId t) w) (pr_sizeBytes pr)"
proof -
  have three: "(3::nat) = Suc (Suc (Suc 0))" by simp
  have tr: "truthy (pr_wrappedDek pr) \<longleftrightarrow> pr_wrappedDek pr \<noteq> None" by (rule prepared_truthy[OF assms(2)])
  have v: "(if pr_wrappedDek pr = None then verifyIntegrity (ur_etag r) (fc_md5 (pr_checksums pr)) else ret ()) u = (Done (), u)" for u
    using assms(3) by (auto simp: verifyIntegrity_def etag_verified_def ret_def split: option.splits)
  define w2 where "w2 = upsert_usage (ft_tenantId t) (pr_sizeBytes pr) (recordSuccess (pr_sizeBytes pr) (success_update t pr r w))"
  let ?p = "publishTransferEvent sv (cfg_kafka cfg) t transfer_completed (completed_data r (pr_sizeBytes pr) (truthy (pr_wrappedDek pr)))"
  obtain w3 where w3: "?p w2 = (Done (), w3)" using publish_healthy[OF assms(1)] by (metis prod.collapse)
  note parts = frame_publish_parts[THEN frame_runD, OF w3]
  have "stage sv cfg cs job (Uploaded t pr r) w = (Stored t pr r, success_update t pr r w)"
    using assms(1) by (simp add: tr seq_def bnd_def v after_def markSuccess_def modify_def)
  moreover have "stage sv cfg cs job (Stored t pr r) (success_update t pr r w) = (Over (Done ()), endTimer (decInFlight w3))"
    using w3 by (simp add: after_success_healthy[OF assms(1)] w2_def finished_def)
  ultimately have "stages 3 sv cfg cs job (Uploaded t pr r) w = (Over (Done ()), endTimer (decInFlight w3))"
    by (simp add: three del: stage.simps(5,6))
  moreover have "usage_of (ft_tenantId t) (endTimer (decInFlight w3)) = plus_object (usage_of (ft_tenantId t) w) (pr_sizeBytes pr)"
  proof -
    have "usage_of (ft_tenantId t) (endTimer (decInFlight w3)) = usage_of (ft_tenantId t) w2"
      using parts(3) by (simp add: usage_of_def metric_defs)
    then show ?thesis unfolding w2_def usage_upsert_same by (simp add: usage_of_def recordSuccess_def)
  qed
  ultimately show ?thesis
    using that parts(1,2) assms(4,5) by (simp add: w2_def metric_defs find_success)
qed

section \<open>Properties\<close>

text \<open>C35: Two runs of one transfer lose the file: the recovery sweep re-queues a row that is PROCESSING for longer
  than the stale time, also while its run is still uploading, and nothing stops the second run. With
  encryption on and every call healthy, when the second run goes from start to end between the upload of the
  first and its marking of the row, the transfer ends SUCCESS with the wrapped key of the first run, but the
  stored object is the second run's, encrypted under the other key; and the usage counts the file twice.\<close>

theorem concurrent_runs_lose_the_key:
  assumes "healthy sv" "healthy sv'" "cs_enabled cs" "find_transfer (job_id job) w = Some t" "ft_status t \<noteq> SUCCESS"
    and "good_file sv cfg cs t sz bytes w" "good_file sv' cfg cs t sz bytes w" "job_id job' = job_id job"
    and "createEncryptStream sv cs = Inr (st, wrapped)" "createEncryptStream sv' cs = Inr (st', wrapped')"
    and "stages 4 sv cfg cs job Queued w = (uploading, w1)" "w2 = snd (process_job sv' cfg cs job' w1)"
  shows "\<exists>w3 row. stages 3 sv cfg cs job uploading w2 = (Over (Done ()), w3) \<and>
     find_transfer (job_id job) w3 = Some row \<and> ft_status row = SUCCESS \<and> ft_wrappedDek row = Some wrapped \<and>
     map_option so_body (w_objects w3 (ft_bucket row, the (ft_objectKey row))) =
       Some (enc_run sv' st' (sv_chunks sv' C_Upload (ft_sourcePath t))) \<and>
     usage_of (ft_tenantId t) w3 = plus_object (plus_object (usage_of (ft_tenantId t) w) sz) sz"
proof -
  have i: "ft_id t = job_id job" using assms(4) by (auto dest: row_find_SomeD)
  let ?t = "set_processing (w_now w) t"
  have t: "ft_status ?t \<noteq> SUCCESS" "ft_tenantId ?t = ft_tenantId t" "ft_sourcePath ?t = ft_sourcePath t" "ft_id ?t = ft_id t"
    by (simp_all add: set_processing_def)
  have rt: "route cfg ?t = route cfg t" by (rule route_ident) (simp_all add: set_processing_def)
  obtain pr r where first: "uploading = Uploaded t pr r" "prepared_ok sv cfg cs t pr w" "pr_sizeBytes pr = sz" "etag_verified pr r"
      "uploaded cfg t pr r w1" "find_transfer (job_id job) w1 = Some ?t" "w_usage w1 = w_usage w" "set (w_buckets w) \<subseteq> set (w_buckets w1)"
    using run_to_upload[OF healthy_upload_calls[OF assms(1)] assms(4-6)] assms(11) by (metis prod.inject)
  have good: "good_file sv' cfg cs ?t sz bytes w1" using good_file_later[OF assms(7) first(7,8)] by (simp add: good_file_row)
  obtain pr' r' u where second: "stages 4 sv' cfg cs job' Queued w1 = (Uploaded ?t pr' r', u)" "prepared_ok sv' cfg cs ?t pr' w1"
      "pr_sizeBytes pr' = sz" "etag_verified pr' r'" "uploaded cfg ?t pr' r' u"
      "find_transfer (job_id job') u = Some (set_processing (w_now w1) ?t)" "w_usage u = w_usage w1"
    using run_to_upload[OF healthy_upload_calls[OF assms(2)] _ t(1) good, of job'] first(6) assms(8) by metis
  obtain v where end2: "stages 3 sv' cfg cs job' (Uploaded ?t pr' r') u = (Over (Done ()), v)" "w_objects v = w_objects u"
      "find_transfer (job_id job') v \<noteq> None" "usage_of (ft_tenantId ?t) v = plus_object (usage_of (ft_tenantId ?t) u) (pr_sizeBytes pr')"
    using run_from_upload[OF assms(2) second(2,4) _ second(6)] i assms(8) t(4) by (metis option.distinct(1))
  have "over (process_job sv' cfg cs job' w1) = (Over (Done ()), v)"
    unfolding staged_run[symmetric] using stages_add[of 4 3 sv' cfg cs job' Queued w1] second(1) end2(1) by simp
  then have w2: "w2 = v" using assms(12) by (simp add: over_def)
  then obtain row2 where row2: "find_transfer (job_id job) w2 = Some row2" using end2(3) assms(8) by auto
  obtain w3 where end1: "stages 3 sv cfg cs job (Uploaded t pr r) w2 = (Over (Done ()), w3)"
      "find_transfer (job_id job) w3 = Some (set_success (ur_bucket r) (ur_key r) (ur_etag r)
         (Some (fc_sha256 (pr_checksums pr))) (pr_wrappedDek pr \<noteq> None) (pr_wrappedDek pr) (w_now w2) row2)"
      "w_objects w3 = w_objects w2" "usage_of (ft_tenantId t) w3 = plus_object (usage_of (ft_tenantId t) w2) (pr_sizeBytes pr)"
    by (rule run_from_upload[OF assms(1) first(2,4) i row2])
  have "pr_wrappedDek pr = Some wrapped" "up_body (pr_upload pr') = enc_run sv' st' (sv_chunks sv' C_Upload (ft_sourcePath t))"
    using first(2) second(2) assms(3,9,10) t(3) by (auto simp: prepared_ok_def)
  moreover have "usage_of (ft_tenantId t) u = usage_of (ft_tenantId t) w" using second(7) first(7) by (simp add: usage_of_def)
  ultimately show ?thesis
    using end1 end2 first(1,3,5) second(3,5) w2 t rt by (auto simp: uploaded_def set_success_def)
qed

theorem concurrent_runs_lose_the_key_witness:
  "let sv' = sv0\<lparr>sv_dek := replicate 32 3\<rparr>;
       (uploading, w1) = stages 4 sv0 cfg0 cs1 job1 Queued world_t1;
       w2 = snd (process_job sv' cfg0 cs1 job1 w1);
       w3 = snd (stages 3 sv0 cfg0 cs1 job1 uploading w2)
   in map_option ft_status (find_transfer (job_id job1) w3) = Some SUCCESS \<and>
      u_bytesStored (usage_of (ft_tenantId transfer1) w3) = 4"
proof -
  let ?sv = "sv0\<lparr>sv_dek := replicate 32 3\<rparr>"
  have h: "healthy ?sv" by (simp add: healthy_def sv0_def)
  have e: "cs_enabled cs1" by (simp add: cs1_def)
  obtain st wrapped where c: "createEncryptStream sv0 cs1 = Inr (st, wrapped)" using create_sv0 by blast
  obtain st' wrapped' where c': "createEncryptStream ?sv cs1 = Inr (st', wrapped')"
    by (simp add: createEncryptStream_def createCipheriv_def sv0_def wrapDek_def kek_of_def cs1_def cipher_update_def Let_def)
  have "crypto_sizes ?sv" by (simp add: crypto_sizes_def sv0_def IV_LEN_def TAG_LEN_def)
  then have g: "good_file ?sv cfg0 cs1 transfer1 2 [104, 105] world_t1"
    using world_t1_good_encrypted c' e by (simp add: good_file_def admitted_def scan_reply_def)
  obtain uploading w1 where s: "stages 4 sv0 cfg0 cs1 job1 Queued world_t1 = (uploading, w1)" by fastforce
  have u: "u_bytesStored (usage_of (ft_tenantId transfer1) world_t1) = 0" by (simp add: usage_of_def world_t1_def world0_def row_find_def)
  from concurrent_runs_lose_the_key[OF healthy_sv0 h e world_t1_row world_t1_good_encrypted g refl c c' s refl] u
  show ?thesis by (auto simp: s Let_def)
qed

end
