(* ===== verification/Threads.thy ===== *)
theory Threads
  imports Concurrency
begin

text \<open>
  The system at the grain of its awaits. Besides the jobs (\<^verbatim>\<open>ingestion.processor.ts\<close>), the two timers with a
  loop are cut at their awaits too: the sweep of \<^verbatim>\<open>ingestion/recovery.service.ts\<close> and the relay of
  \<^verbatim>\<open>outbox/outbox.service.ts\<close>, each with its busy flag, its \<^verbatim>\<open>try\<close> and its \<^verbatim>\<open>finally\<close>. A timer that runs alone is
  the timer's method. A pool of such threads interleaves await by await with each other and with all other
  handlers.
\<close>

section \<open>Threads\<close>

text \<open>A thread that makes a number of stages with nothing in between.\<close>

fun alone :: "('s \<Rightarrow> world \<Rightarrow> 's \<times> world) \<Rightarrow> nat \<Rightarrow> 's \<Rightarrow> world \<Rightarrow> 's \<times> world" where
  "alone f 0 s w = (s, w)"
| "alone f (Suc n) s w = (case f s w of (s', w') \<Rightarrow> alone f n s' w')"

text \<open>The continuation after an await inside the \<^verbatim>\<open>try\<close> block of a timer: an error is caught and logged, and the
  \<^verbatim>\<open>finally\<close> clears the flag; a process that dies does neither.\<close>

definition resume :: "'a outcome \<times> world \<Rightarrow> ('a \<Rightarrow> 's) \<Rightarrow> 's \<Rightarrow> (world \<Rightarrow> world) \<Rightarrow> 's \<times> world" where
  "resume res k stop clear = (case res of
     (Done a, w) \<Rightarrow> (k a, w) | (Raised e, w) \<Rightarrow> (stop, clear w) | (Crashed, w) \<Rightarrow> (stop, w))"

datatype sweeper = SweepDue | SweepRows "FileTransfer list" | SweepOver

definition sweep_clear :: "world \<Rightarrow> world" where
  "sweep_clear w = w\<lparr>w_sweeping := False\<rparr>"

fun sweep_stage :: "services \<Rightarrow> app_section \<Rightarrow> recovery_section \<Rightarrow> sweeper \<Rightarrow> world \<Rightarrow> sweeper \<times> world" where
  "sweep_stage sv app recovery SweepDue w =
     (if \<not> recovery_enabled recovery \<or> w_sweeping w then (SweepOver, w)
      else resume (findStuck sv (w_now w - recovery_staleMs recovery) (nat (recovery_batchSize recovery)) (w\<lparr>w_sweeping := True\<rparr>))
             SweepRows SweepOver sweep_clear)"
| "sweep_stage sv app recovery (SweepRows []) w = (SweepOver, sweep_clear w)"
| "sweep_stage sv app recovery (SweepRows (transfer # rest)) w =
     resume (sweep_one sv app transfer w) (\<lambda>_. SweepRows rest) SweepOver sweep_clear"
| "sweep_stage sv app recovery SweepOver w = (SweepOver, w)"

datatype relayer = RelayDue | RelayEvents "OutboxEvent list" | RelayMark OutboxEvent "OutboxEvent list" | RelayOver

definition relay_clear :: "world \<Rightarrow> world" where
  "relay_clear w = w\<lparr>w_relaying := False\<rparr>"

fun relay_stage :: "services \<Rightarrow> relayer \<Rightarrow> world \<Rightarrow> relayer \<times> world" where
  "relay_stage sv RelayDue w =
     (if w_relaying w then (RelayOver, w)
      else resume (call sv C_FindPending (gets pending_events) (w\<lparr>w_relaying := True\<rparr>)) RelayEvents RelayOver relay_clear)"
| "relay_stage sv (RelayEvents []) w = (RelayOver, relay_clear w)"
| "relay_stage sv (RelayEvents (evt # rest)) w =
     resume (queue_add sv outbox_queue_attempts (oe_type evt) (oe_payload evt) w) (\<lambda>_. RelayMark evt rest) RelayOver relay_clear"
| "relay_stage sv (RelayMark evt rest) w =
     resume (call sv (C_MarkPublished (oe_id evt)) (modify (\<lambda>w. upd_outbox (oe_id evt) (set_published (w_now w)) w)) w)
       (\<lambda>_. RelayEvents rest) RelayOver relay_clear"
| "relay_stage sv RelayOver w = (RelayOver, w)"

section \<open>A timer alone\<close>

lemma alone_over [simp]:
  "alone (sweep_stage sv app recovery) n SweepOver w = (SweepOver, w)" "alone (relay_stage sv) n RelayOver w = (RelayOver, w)"
  by (induction n) simp_all

lemma sweep_rows_alone:
  "length rows < n \<Longrightarrow> alone (sweep_stage sv app recovery) n (SweepRows rows) w =
    (SweepOver, snd (try_finally (try_catch (for_each (sweep_one sv app) rows) (\<lambda>err. ret ())) sweep_clear w))"
proof (induction rows arbitrary: n w)
  case Nil
  then obtain m where "n = Suc m" by (cases n) simp_all
  then show ?case by (simp add: try_finally_def try_catch_def ret_def)
next
  case (Cons r rows)
  then obtain m where m: "n = Suc m" "length rows < m" by (cases n) simp_all
  show ?case
    by (cases "sweep_one sv app r w"; cases "fst (sweep_one sv app r w)")
      (auto simp: m Cons.IH[OF m(2)] resume_def seq_def bnd_def try_finally_def try_catch_def ret_def)
qed

lemma relay_events_alone:
  "2 * length es < n \<Longrightarrow> alone (relay_stage sv) n (RelayEvents es) w =
    (RelayOver, snd (try_finally (try_catch (for_each (publish_event sv) es) (\<lambda>e. ret ())) relay_clear w))"
proof (induction es arbitrary: n w)
  case Nil
  then obtain m where "n = Suc m" by (cases n) simp_all
  then show ?case by (simp add: try_finally_def try_catch_def ret_def)
next
  case (Cons e es)
  then obtain m where m: "n = Suc (Suc m)" "2 * length es < m" by (cases n; cases "n - 1") simp_all
  let ?a = "queue_add sv outbox_queue_attempts (oe_type e) (oe_payload e) w"
  let ?b = "call sv (C_MarkPublished (oe_id e)) (modify (\<lambda>w. upd_outbox (oe_id e) (set_published (w_now w)) w))"
  show ?case
    by (cases ?a; cases "fst ?a"; cases "?b (snd ?a)"; cases "fst (?b (snd ?a))")
      (auto simp: m Cons.IH[OF m(2)] resume_def publish_event_def seq_def bnd_def try_finally_def try_catch_def ret_def)
qed

lemma sweep_alone:
  assumes "recovery_batchSize recovery \<le> int n"
  shows "alone (sweep_stage sv app recovery) (n + 2) SweepDue w = (SweepOver, snd (sweep sv app recovery w))"
proof (cases "\<not> recovery_enabled recovery \<or> w_sweeping w")
  case True
  then show ?thesis by (auto simp: sweep_idle)
next
  case False
  let ?w = "w\<lparr>w_sweeping := True\<rparr>" and ?q = "findStuck sv (w_now w - recovery_staleMs recovery) (nat (recovery_batchSize recovery))"
  have clear: "(\<lambda>w. w\<lparr>w_sweeping := False\<rparr>) = sweep_clear" by (simp add: sweep_clear_def fun_eq_iff)
  have run: "sweep sv app recovery w = try_finally (try_catch (bnd ?q (\<lambda>stuck.
      if stuck = [] then ret () else for_each (sweep_one sv app) stuck)) (\<lambda>err. ret ())) sweep_clear ?w"
    using False unfolding sweep_def clear by (simp add: try_finally_def try_catch_def)
  have each: "(if stuck = [] then ret () else for_each (sweep_one sv app) stuck) = for_each (sweep_one sv app) stuck" for stuck
    by (cases stuck) simp_all
  have small: "length rows < n + 1" if "?q ?w = (Done rows, u)" for rows u
  proof -
    have "length rows \<le> nat (recovery_batchSize recovery)"
      using that stuck_rows_spec(2) by (auto simp: findStuck_def call_Done_iff gets_def)
    with assms show ?thesis by linarith
  qed
  have two: "n + 2 = Suc (n + 1)" by simp
  show ?thesis
    unfolding two alone.simps(2) using False small
    by (cases "?q ?w"; cases "fst (?q ?w)")
      (auto simp: run each resume_def bnd_def try_finally_def try_catch_def ret_def sweep_rows_alone simp del: alone.simps)
qed

lemma relay_alone: "alone (relay_stage sv) (2 * RELAY_BATCH + 2) RelayDue w = (RelayOver, snd (relay sv w))"
proof (cases "w_relaying w")
  case True
  then show ?thesis by (simp add: relay_idle)
next
  case False
  let ?w = "w\<lparr>w_relaying := True\<rparr>" and ?q = "call sv C_FindPending (gets pending_events)"
  have clear: "(\<lambda>w. w\<lparr>w_relaying := False\<rparr>) = relay_clear" by (simp add: relay_clear_def fun_eq_iff)
  have run: "relay sv w = try_finally (try_catch (bnd ?q (\<lambda>pending. for_each (publish_event sv) pending)) (\<lambda>e. ret ())) relay_clear ?w"
    using False unfolding relay_def clear by simp
  have small: "2 * length es < 2 * RELAY_BATCH + 1" if "?q ?w = (Done es, u)" for es u
  proof -
    have "length es \<le> RELAY_BATCH" using that length_pending_events by (auto simp: call_Done_iff gets_def)
    then show ?thesis by linarith
  qed
  have two: "2 * RELAY_BATCH + 2 = Suc (2 * RELAY_BATCH + 1)" by simp
  show ?thesis
    unfolding two alone.simps(2) using False small
    by (cases "?q ?w"; cases "fst (?q ?w)")
      (auto simp: run resume_def bnd_def try_finally_def try_catch_def ret_def relay_events_alone simp del: alone.simps)
qed

section \<open>The pool\<close>

text \<open>The server's state and the threads in progress. A handler of the system makes one of its steps, a job is taken
  from the queue, a timer fires, a thread makes its next stage (each under faults of its own), a run that is over is
  settled, or a timer's thread that is over goes away.\<close>

datatype thread = Job TransferJob run | Sweeper sweeper | Relayer relayer

fun advance :: "services \<Rightarrow> app_config \<Rightarrow> CryptoService \<Rightarrow> thread \<Rightarrow> world \<Rightarrow> thread \<times> world" where
  "advance sv cfg cs (Job job r) w = map_prod (Job job) id (stage sv cfg cs job r w)"
| "advance sv cfg cs (Sweeper s) w = map_prod Sweeper id (sweep_stage sv (cfg_app cfg) (cfg_recovery cfg) s w)"
| "advance sv cfg cs (Relayer r) w = map_prod Relayer id (relay_stage sv r w)"

type_synonym pool = "world \<times> thread list"

inductive pool_step :: "app_config \<Rightarrow> CryptoService \<Rightarrow> string \<Rightarrow> pool \<Rightarrow> pool \<Rightarrow> bool"
  for cfg :: app_config and cs :: CryptoService and cwd :: string where
  Handler: "step cfg cs cwd w w' \<Longrightarrow> pool_step cfg cs cwd (w, ts) (w', ts)"
| Take: "w_queue w = xs @ job # ys \<Longrightarrow> pool_step cfg cs cwd (w, ts) (w\<lparr>w_queue := xs @ ys\<rparr>, ts @ [Job job Queued])"
| Timer: "t \<in> {Sweeper SweepDue, Relayer RelayDue} \<Longrightarrow> pool_step cfg cs cwd (w, ts) (w, ts @ [t])"
| Advance: "advance sv cfg cs t w = (t', w') \<Longrightarrow> pool_step cfg cs cwd (w, as @ t # bs) (w', as @ t' # bs)"
| Settle: "pool_step cfg cs cwd (w, as @ Job job (Over x) # bs) (settle_outcome svf cfg job x w, as @ bs)"
| Gone: "t \<in> {Sweeper SweepOver, Relayer RelayOver} \<Longrightarrow> pool_step cfg cs cwd (w, as @ t # bs) (w, as @ bs)"

definition pool_initial :: "pool \<Rightarrow> bool" where
  "pool_initial p \<longleftrightarrow> initial (fst p) \<and> snd p = []"

text \<open>The transfers a thread holds on to, which the outbox has recorded, and what else a run in progress needs.\<close>

fun thread_ids :: "thread \<Rightarrow> string set" where
  "thread_ids (Job job r) = {job_id job}"
| "thread_ids (Sweeper (SweepRows rows)) = ft_id ` set rows"
| "thread_ids (Relayer (RelayEvents es)) = (\<lambda>e. tj_transferId (oe_payload e)) ` set es"
| "thread_ids (Relayer (RelayMark evt es)) = (\<lambda>e. tj_transferId (oe_payload e)) ` set es"
| "thread_ids _ = {}"

fun thread_ok :: "thread \<Rightarrow> world \<Rightarrow> bool" where
  "thread_ok (Job job r) w = run_ok job r w"
| "thread_ok _ w = True"

definition pool_inv :: "app_config \<Rightarrow> string \<Rightarrow> pool \<Rightarrow> bool" where
  "pool_inv cfg cwd p \<longleftrightarrow> sys_inv cfg cwd (fst p) \<and>
     (\<forall>t\<in>set (snd p). thread_ids t \<subseteq> recorded (fst p) \<and> thread_ok t (fst p))"

section \<open>Stages keep the invariant\<close>

text \<open>What a stage of a thread leaves: the invariant, everything recorded and every object.\<close>

definition stage_keeps :: "app_config \<Rightarrow> string \<Rightarrow> world \<Rightarrow> thread \<times> world \<Rightarrow> bool" where
  "stage_keeps cfg cwd w tw \<longleftrightarrow> sys_inv cfg cwd (snd tw) \<and> recorded (snd tw) = recorded w \<and>
     (\<forall>x. present x w \<longrightarrow> present x (snd tw)) \<and> thread_ids (fst tw) \<subseteq> recorded w \<and> thread_ok (fst tw) (snd tw)"

lemma stage_keeps_job:
  assumes "sys_inv cfg cwd w" "job_id job \<in> recorded w" "run_ok job r w"
  shows "stage_keeps cfg cwd w (advance sv cfg cs (Job job r) w)"
proof -
  obtain r' w' where s: "stage sv cfg cs job r w = (r', w')" by fastforce
  have law: "stage_law job w (r', w')" using stage_lawful[OF assms(3), of sv cfg cs] s by simp
  then have "job_law (job_id job) w w'" by (simp add: stage_law_def)
  from job_law_inv[OF this assms(1,2)] law assms(2) s show ?thesis by (simp add: stage_keeps_def stage_law_def)
qed

lemma inv_flags:
  "sys_inv cfg cwd (w\<lparr>w_sweeping := b\<rparr>) = sys_inv cfg cwd w" "sys_inv cfg cwd (w\<lparr>w_relaying := b\<rparr>) = sys_inv cfg cwd w"
  by (simp_all add: sys_inv_def transfers_ok_def outbox_ok_def named_def recorded_def success_stored_def paths_in_root_def)

text \<open>A stage of a timer: an awaited call that keeps the invariant, and then the next part of the loop.\<close>

definition call_keeps :: "app_config \<Rightarrow> string \<Rightarrow> world \<Rightarrow> world \<Rightarrow> bool" where
  "call_keeps cfg cwd w w' \<longleftrightarrow> sys_inv cfg cwd w' \<and> recorded w' = recorded w \<and> (\<forall>x. present x w \<longrightarrow> present x w')"

lemma stage_keeps_resume:
  assumes "call_keeps cfg cwd w (snd res)" "clear = sweep_clear \<or> clear = relay_clear"
    and "\<And>a. fst res = Done a \<Longrightarrow> thread_ids (c (k a)) \<subseteq> recorded w \<and> thread_ok (c (k a)) (snd res)"
    and "thread_ids (c stop) = {}" "\<And>u. thread_ok (c stop) u"
  shows "stage_keeps cfg cwd w (map_prod c id (resume res k stop clear))"
proof -
  obtain x u where res: "res = (x, u)" by fastforce
  have "call_keeps cfg cwd w (clear u)"
    using assms(1,2) by (auto simp: res call_keeps_def sweep_clear_def relay_clear_def inv_flags recorded_def present_def)
  then show ?thesis
    using assms(1,3-5) by (cases x) (auto simp: res resume_def stage_keeps_def call_keeps_def)
qed

lemma call_keeps_refl: "sys_inv cfg cwd w \<Longrightarrow> call_keeps cfg cwd w w"
  by (simp add: call_keeps_def)

lemma call_keeps_add:
  assumes "sys_inv cfg cwd w" "tj_transferId d \<in> recorded w"
  shows "call_keeps cfg cwd w (snd (queue_add sv a n d w))"
proof -
  let ?q = "w_queue w @ [mk_job a n d]"
  have "job_id ` set ?q \<subseteq> recorded w" using assms by (auto simp: mk_job_def intro: named_queue)
  from inv_queue[OF assms(1) this] have "call_keeps cfg cwd w (w\<lparr>w_queue := ?q\<rparr>)"
    by (simp add: call_keeps_def recorded_def present_def)
  then show ?thesis
    using snd_call_modify[of sv "C_QueueAdd (tj_transferId d)" "\<lambda>w. w\<lparr>w_queue := w_queue w @ [mk_job a n d]\<rparr>" w]
      call_keeps_refl[OF assms(1)] unfolding queue_add_def by auto
qed

lemma call_keeps_failed:
  assumes "sys_inv cfg cwd w" "i \<in> recorded w"
  shows "call_keeps cfg cwd w (snd (markFailed sv i m w))"
proof -
  let ?w = "upd_transfer i (set_failed m (w_now w)) w"
  have "job_law i w ?w" by (rule failed.patch_law) (simp add: set_failed_def)
  from job_law_inv[OF this assms] have "call_keeps cfg cwd w ?w" by (simp add: call_keeps_def present_def)
  then show ?thesis
    using snd_call_modify[of sv "C_MarkFailed i" "\<lambda>w. upd_transfer i (set_failed m (w_now w)) w" w] call_keeps_refl[OF assms(1)]
    unfolding markFailed_def by auto
qed

lemma call_keeps_published:
  assumes "sys_inv cfg cwd w"
  shows "call_keeps cfg cwd w (snd (call sv c (modify (\<lambda>w. upd_outbox i (set_published (w_now w)) w)) w))"
proof -
  let ?f = "\<lambda>e. if oe_id e = i then set_published (w_now w) e else e" and ?w = "upd_outbox i (set_published (w_now w)) w"
  have out: "w_outbox ?w = map ?f (w_outbox w)" by (simp add: upd_outbox_def row_update_def)
  have cols: "oe_id (?f e) = oe_id e" "oe_aggregateId (?f e) = oe_aggregateId e" "oe_type (?f e) = oe_type e" "oe_payload (?f e) = oe_payload e" for e
    by (simp_all add: set_published_def)
  have "outbox_ok ?w" using assms by (simp add: sys_inv_def outbox_ok_def out cols list.pred_map comp_def del: if_split)
  moreover have "recorded ?w = recorded w"
  proof -
    have "map oe_aggregateId (w_outbox ?w) = map oe_aggregateId (w_outbox w)" by (simp add: out cols del: if_split)
    from arg_cong[OF this, of set] show ?thesis by (simp add: recorded_def)
  qed
  moreover have "named ?w = named w" by (simp add: named_def upd_outbox_def)
  ultimately have "call_keeps cfg cwd w ?w"
    using assms by (simp add: call_keeps_def sys_inv_def transfers_ok_def success_stored_def paths_in_root_def upd_outbox_def present_def)
  then show ?thesis
    using snd_call_modify[of sv c "\<lambda>w. upd_outbox i (set_published (w_now w)) w" w] call_keeps_refl[OF assms] by auto
qed

lemma stage_keeps_sweeper:
  assumes "sys_inv cfg cwd w" "thread_ids (Sweeper s) \<subseteq> recorded w"
  shows "stage_keeps cfg cwd w (advance sv cfg cs (Sweeper s) w)"
proof -
  have stop: "stage_keeps cfg cwd w (Sweeper SweepOver, w)" "stage_keeps cfg cwd w (Sweeper SweepOver, sweep_clear w)"
    using assms(1) by (simp_all add: stage_keeps_def sweep_clear_def inv_flags recorded_def present_def)
  show ?thesis
  proof (cases "(sv, cfg_app cfg, cfg_recovery cfg, s, w)" rule: sweep_stage.cases)
    case (1 sv app recovery w)
    let ?q = "findStuck sv (w_now w - recovery_staleMs recovery) (nat (recovery_batchSize recovery)) (w\<lparr>w_sweeping := True\<rparr>)"
    have "snd ?q = w\<lparr>w_sweeping := True\<rparr>" unfolding findStuck_def by (rule call_gets)
    then have "call_keeps cfg cwd w (snd ?q)" using assms(1) 1 by (simp add: call_keeps_def inv_flags recorded_def present_def)
    moreover have "ft_id ` set rows \<subseteq> recorded w" if "fst ?q = Done rows" for rows
    proof -
      have "set rows \<subseteq> set (w_transfers w)"
        using that stuck_subset by (cases "sv_fault sv C_FindStuck") (auto simp: findStuck_def call_def await_def gets_def)
      then show ?thesis using assms(1) 1 by (auto simp: sys_inv_def named_def)
    qed
    ultimately have "stage_keeps cfg cwd w (map_prod Sweeper id (resume ?q SweepRows SweepOver sweep_clear))"
      by (intro stage_keeps_resume) simp_all
    then show ?thesis using stop 1 by simp
  next
    case (3 sv app recovery r rest w)
    have ids: "ft_id r \<in> recorded w" "ft_id ` set rest \<subseteq> recorded w" using assms(2) 3 by simp_all
    have "call_keeps cfg cwd w (snd (sweep_one sv app r w))"
      using assms(1) 3 ids(1) unfolding sweep_one_def by (simp add: call_keeps_failed call_keeps_add)
    then show ?thesis using 3 ids(2) by (simp add: stage_keeps_resume)
  qed (use stop in simp_all)
qed

lemma stage_keeps_relayer:
  assumes "sys_inv cfg cwd w" "thread_ids (Relayer r) \<subseteq> recorded w"
  shows "stage_keeps cfg cwd w (advance sv cfg cs (Relayer r) w)"
proof -
  have stop: "stage_keeps cfg cwd w (Relayer RelayOver, w)" "stage_keeps cfg cwd w (Relayer RelayOver, relay_clear w)"
    using assms(1) by (simp_all add: stage_keeps_def relay_clear_def inv_flags recorded_def present_def)
  show ?thesis
  proof (cases "(sv, r, w)" rule: relay_stage.cases)
    case (1 sv w)
    let ?q = "call sv C_FindPending (gets pending_events) (w\<lparr>w_relaying := True\<rparr>)"
    have "snd ?q = w\<lparr>w_relaying := True\<rparr>" by (rule call_gets)
    then have "call_keeps cfg cwd w (snd ?q)" using assms(1) 1 by (simp add: call_keeps_def inv_flags recorded_def present_def)
    moreover have "(\<lambda>e. tj_transferId (oe_payload e)) ` set es \<subseteq> recorded w" if "fst ?q = Done es" for es
    proof -
      have "set es \<subseteq> set (w_outbox w)"
        using that pending_events_sub[of w] by (cases "sv_fault sv C_FindPending") (auto simp: call_def await_def gets_def)
      then show ?thesis using assms(1) 1 by (auto simp: sys_inv_def outbox_ok_def list_all_iff recorded_def)
    qed
    ultimately have "stage_keeps cfg cwd w (map_prod Relayer id (resume ?q RelayEvents RelayOver relay_clear))"
      by (intro stage_keeps_resume) simp_all
    then show ?thesis using stop 1 by simp
  next
    case (3 sv evt rest w)
    then show ?thesis using assms by (simp add: stage_keeps_resume call_keeps_add)
  next
    case (4 sv evt rest w)
    then show ?thesis using assms by (simp add: stage_keeps_resume call_keeps_published)
  qed (use stop in simp_all)
qed

lemma advance_keeps:
  "sys_inv cfg cwd w \<Longrightarrow> thread_ids t \<subseteq> recorded w \<Longrightarrow> thread_ok t w \<Longrightarrow> stage_keeps cfg cwd w (advance sv cfg cs t w)"
  by (cases t) (simp_all del: advance.simps thread_ids.simps add: stage_keeps_sweeper stage_keeps_relayer, simp add: stage_keeps_job del: advance.simps)

section \<open>The invariant of the pool\<close>

lemma thread_ok_mono: "thread_ok t w \<Longrightarrow> (\<And>x. present x w \<Longrightarrow> present x w') \<Longrightarrow> thread_ok t w'"
  using run_ok_mono by (cases t) auto

lemma pool_inv_change:
  assumes "pool_inv cfg cwd (w, ts)" "sys_inv cfg cwd w'" "recorded w \<subseteq> recorded w'" "\<And>x. present x w \<Longrightarrow> present x w'"
    and "\<And>t. t \<in> set ts' \<Longrightarrow> t \<in> set ts \<or> thread_ids t \<subseteq> recorded w' \<and> thread_ok t w'"
  shows "pool_inv cfg cwd (w', ts')"
proof -
  have "thread_ids t \<subseteq> recorded w' \<and> thread_ok t w'" if "t \<in> set ts'" for t
    using assms(5)[OF that]
  proof
    assume "t \<in> set ts"
    then have "thread_ids t \<subseteq> recorded w" "thread_ok t w" using assms(1) by (auto simp: pool_inv_def)
    then show ?thesis using assms(3) thread_ok_mono[OF _ assms(4)] by blast
  qed
  then show ?thesis using assms(2) by (auto simp: pool_inv_def)
qed

lemma pool_inv_threads:
  assumes "pool_inv cfg cwd (w, ts)" "\<And>t. t \<in> set ts' \<Longrightarrow> t \<in> set ts \<or> thread_ids t = {} \<and> thread_ok t w"
  shows "pool_inv cfg cwd (w, ts')"
proof (rule pool_inv_change[OF assms(1)])
  show "sys_inv cfg cwd w" using assms(1) by (simp add: pool_inv_def)
  show "t \<in> set ts \<or> thread_ids t \<subseteq> recorded w \<and> thread_ok t w" if "t \<in> set ts'" for t using assms(2)[OF that] by auto
qed simp_all

interpretation pools: invariant_of pool_initial "pool_step cfg cs cwd" "pool_inv cfg cwd" for cfg cs cwd
proof
  show "pool_inv cfg cwd p" if "pool_initial p" for p
    using that running.inv_init by (simp add: pool_initial_def pool_inv_def)
  show "pool_inv cfg cwd p'" if "pool_step cfg cs cwd p p'" "pool_inv cfg cwd p" for p p'
    using that
  proof (cases rule: pool_step.cases)
    case (Handler w w' ts)
    have inv: "sys_inv cfg cwd w" using that(2) Handler by (simp add: pool_inv_def)
    show ?thesis
      unfolding Handler(2) by (rule pool_inv_change[OF that(2)[unfolded Handler(1)] running.inv_next[OF Handler(3) inv]])
        (use step_grows[OF Handler(3) inv] in blast)+
  next
    case (Take w xs job ys ts)
    have inv: "sys_inv cfg cwd w" using that(2) Take by (simp add: pool_inv_def)
    have named: "job_id j \<in> recorded w" if "j \<in> set (xs @ job # ys)" for j using named_queue[OF inv] that Take(3) by simp
    then have "job_id ` set (xs @ ys) \<subseteq> recorded w" by auto
    then show ?thesis
      unfolding Take(2) using named[of job]
      by (intro pool_inv_change[OF that(2)[unfolded Take(1)] inv_queue[OF inv]]) (auto simp: recorded_def present_def)
  next
    case (Timer t w ts)
    show ?thesis unfolding Timer(2) by (rule pool_inv_threads[OF that(2)[unfolded Timer(1)]]) (use Timer(3) in auto)
  next
    case (Advance sv t w t' w' as bs)
    have "sys_inv cfg cwd w" "thread_ids t \<subseteq> recorded w" "thread_ok t w" using that(2) Advance by (auto simp: pool_inv_def)
    from advance_keeps[OF this, of sv cs] Advance(3)
    have new: "sys_inv cfg cwd w'" "recorded w' = recorded w" "\<forall>x. present x w \<longrightarrow> present x w'"
      "thread_ids t' \<subseteq> recorded w'" "thread_ok t' w'" by (simp_all add: stage_keeps_def)
    show ?thesis
      unfolding Advance(2) by (rule pool_inv_change[OF that(2)[unfolded Advance(1)] new(1)]) (use new(2-) in auto)
  next
    case (Settle w as job x bs svf)
    have inv: "sys_inv cfg cwd w" "job_id job \<in> recorded w" using that(2) Settle by (auto simp: pool_inv_def)
    show ?thesis
      unfolding Settle(2) by (rule pool_inv_change[OF that(2)[unfolded Settle(1)]])
        (use settle_outcome_inv[OF inv, of svf x] in auto)
  next
    case (Gone t w as bs)
    show ?thesis unfolding Gone(2) by (rule pool_inv_threads[OF that(2)[unfolded Gone(1)]]) auto
  qed
qed

section \<open>The sweep on rows that have changed\<close>

lemma healthy_sweep_one: "healthy sv \<Longrightarrow> fst (sweep_one sv app r w) = Done ()"
  by (simp add: sweep_one_def markFailed_def queue_add_def modify_def)

lemma frame_sweep_loop:
  "frame w_objects (for_each (sweep_one sv app) rs)" "frame w_metrics (for_each (sweep_one sv app) rs)"
  "frame w_dlq (for_each (sweep_one sv app) rs)"
  unfolding sweep_one_def markFailed_def queue_add_def by (intro eff frame_modify; simp add: upd_transfer_def)+

lemma sweep_one_keeps_failed: "keeps (\<lambda>w. statuses w i = Some FAILED) (sweep_one sv app r)"
proof -
  have "statuses (upd_transfer j (set_failed m now) w) i = Some FAILED" if "statuses w i = Some FAILED" for j m now w
  proof (cases "i = j")
    case True
    then show ?thesis using that by (auto simp: statuses_def failed.patch_find_same set_failed_def)
  next
    case False
    then show ?thesis using that by (simp add: statuses_def failed.patch_find_other)
  qed
  then show ?thesis
    unfolding sweep_one_def markFailed_def queue_add_def by (intro eff keeps_modify) (simp_all add: statuses_def)
qed

lemma sweep_one_keeps_row: "keeps (\<lambda>w. statuses w i \<noteq> None) (sweep_one sv app r)"
proof -
  have "statuses (upd_transfer j (set_failed m now) w) i \<noteq> None" if "statuses w i \<noteq> None" for j m now w
    using that by (cases "i = j") (auto simp: statuses_def failed.patch_find_same failed.patch_find_other)
  then show ?thesis
    unfolding sweep_one_def markFailed_def queue_add_def by (intro eff keeps_modify) (simp_all add: statuses_def)
qed

lemma sweep_loop_fails:
  assumes "healthy sv" "t \<in> set rs" "app_transferMaxAttempts app \<le> ft_attempts t" "find_transfer (ft_id t) w = Some t2"
  shows "statuses (snd (for_each (sweep_one sv app) rs w)) (ft_id t) = Some FAILED"
proof -
  obtain as bs where rs: "rs = as @ t # bs" using assms(2) by (meson split_list)
  have app: "for_each f (xs @ ys) = seq (for_each f xs) (for_each f ys)" for f :: "FileTransfer \<Rightarrow> (world, unit) act" and xs ys
    by (induction xs) (auto simp: seq_def bnd_def ret_def fun_eq_iff split: prod.splits outcome.splits)
  have go: "fst (for_each (sweep_one sv app) xs u) = Done ()" for xs u
    by (rule for_each_healthy) (rule healthy_sweep_one[OF assms(1)])
  obtain u where u: "for_each (sweep_one sv app) as w = (Done (), u)" using go[of as w] by (metis prod.collapse)
  have "keeps (\<lambda>w. statuses w (ft_id t) \<noteq> None) (for_each (sweep_one sv app) as)" by (rule keeps_for_each) (rule sweep_one_keeps_row)
  from keepsD[OF this, of w] have row: "statuses u (ft_id t) \<noteq> None" using assms(4) u by (simp add: statuses_def)
  let ?v = "upd_transfer (ft_id t) (set_failed (recovered_message (ft_attempts t)) (w_now u)) u"
  have one: "sweep_one sv app t u = (Done (), ?v)" using assms(1,3) by (simp add: sweep_one_def markFailed_def modify_def)
  have "statuses ?v (ft_id t) = Some FAILED" using row by (auto simp: statuses_def failed.patch_find_same set_failed_def)
  moreover have "keeps (\<lambda>w. statuses w (ft_id t) = Some FAILED) (for_each (sweep_one sv app) bs)"
    by (rule keeps_for_each) (rule sweep_one_keeps_failed)
  ultimately have "statuses (snd (for_each (sweep_one sv app) bs ?v)) (ft_id t) = Some FAILED" by (rule keepsD[rotated])
  then show ?thesis unfolding rs app using u one by (simp add: seq_def bnd_def)
qed

section \<open>Properties\<close>




text \<open>C36: The sweep overwrites a transfer that has finished: it fails the rows of its first query, by id and without
  looking again. A transfer on its last attempt that runs for longer than the stale time is in that query; when
  its run finishes while the sweep is at its query, the row is SUCCESS, the object stored and the success
  counted, and then the sweep marks it FAILED, with no failure counted and no dead letter.\<close>

theorem sweep_overwrites_finished_transfer:
  assumes "healthy sv" "healthy sv'" "transfers_ok w" "recovery_enabled recovery" "\<not> w_sweeping w"
    and "t \<in> set (stuck_now recovery w)" "app_transferMaxAttempts app \<le> ft_attempts t"
    and "good_file sv' cfg cs t sz bytes w" "job_id job = ft_id t"
    and "sweep_stage sv app recovery SweepDue w = (rows, w1)" "w2 = snd (process_job sv' cfg cs job w1)"
  shows "\<exists>w3. alone (sweep_stage sv app recovery) (length (stuck_now recovery w) + 1) rows w2 = (SweepOver, w3) \<and>
     statuses w2 (ft_id t) = Some SUCCESS \<and> m_success (w_metrics w2) = m_success (w_metrics w) + 1 \<and>
     statuses w3 (ft_id t) = Some FAILED \<and> w_objects w3 = w_objects w2 \<and> w_metrics w3 = w_metrics w2 \<and> w_dlq w3 = w_dlq w2"
proof -
  let ?stuck = "stuck_now recovery w"
  have "stuck_now recovery w = stuck_rows (w_now w - recovery_staleMs recovery) (nat (recovery_batchSize recovery)) (w_transfers (w\<lparr>w_sweeping := True\<rparr>))"
    by (simp add: stuck_now_def)
  then have first: "rows = SweepRows ?stuck" "w1 = w\<lparr>w_sweeping := True\<rparr>"
    using assms(1,4,5,10) by (auto simp: findStuck_def gets_def resume_def)
  have "t \<in> set (w_transfers w)" "ft_status t \<in> {PENDING, PROCESSING}"
    using assms(6) stuck_rows_spec(1) unfolding stuck_now_def by blast+
  then have t: "t \<in> set (w_transfers w)" "ft_status t \<noteq> SUCCESS" by auto
  have "find_transfer (job_id job) w1 = Some t"
    using row_find_distinct[of ft_id "w_transfers w" t] t(1) assms(3,9) by (simp add: first(2) transfers_ok_def)
  moreover have "good_file sv' cfg cs t sz bytes w1" using assms(8) good_file_cong[of w1 w] by (simp add: first(2))
  ultimately obtain t2 where run: "process_job sv' cfg cs job w1 = (Done (), w2)" "find_transfer (job_id job) w2 = Some t2" "ft_status t2 = SUCCESS"
      "m_success (w_metrics w2) = m_success (w_metrics w1) + 1"
    using good_run[OF assms(2) _ t(2), of job w1 cfg cs sz bytes] assms(11) by auto
  let ?body = "for_each (sweep_one sv app) ?stuck"
  let ?w3 = "snd (try_finally (try_catch ?body (\<lambda>err. ret ())) sweep_clear w2)"
  have rest: "alone (sweep_stage sv app recovery) (length ?stuck + 1) rows w2 = (SweepOver, ?w3)"
    unfolding first(1) by (rule sweep_rows_alone) simp
  obtain u where u: "?body w2 = (Done (), u)"
    using for_each_healthy[of "sweep_one sv app" ?stuck w2] assms(1)
    by (metis healthy_sweep_one prod.collapse)
  then have w3: "?w3 = sweep_clear u" by (simp add: try_finally_def try_catch_def)
  have "statuses u (ft_id t) = Some FAILED"
    using sweep_loop_fails[OF assms(1,6,7), of w2 t2] run(2) u assms(9) by simp
  moreover have "w_objects u = w_objects w2" "w_metrics u = w_metrics w2" "w_dlq u = w_dlq w2"
    using frame_sweep_loop[THEN frame_runD, OF u] by simp_all
  ultimately show ?thesis
    using rest run assms(9) unfolding w3 by (simp add: sweep_clear_def statuses_def first(2))
qed

theorem sweep_overwrites_finished_transfer_witness:
  "let t = transfer1\<lparr>ft_status := PROCESSING, ft_attempts := 3\<rparr>;
       w = world0\<lparr>w_now := 5000, w_transfers := [t], w_buckets := [''landing'']\<rparr>;
       (rows, w1) = sweep_stage sv0 app0 (cfg_recovery cfg0) SweepDue w;
       w2 = snd (process_job sv0 cfg0 cs_off job1 w1);
       w3 = snd (alone (sweep_stage sv0 app0 (cfg_recovery cfg0)) 2 rows w2)
   in statuses w2 ''t1'' = Some SUCCESS \<and> statuses w3 ''t1'' = Some FAILED \<and> w_dlq w3 = w_dlq w2"
proof -
  let ?t = "transfer1\<lparr>ft_status := PROCESSING, ft_attempts := 3\<rparr>"
  let ?w = "world0\<lparr>w_now := 5000, w_transfers := [?t], w_buckets := [''landing'']\<rparr>"
  obtain rows w1 where s: "sweep_stage sv0 app0 (cfg_recovery cfg0) SweepDue ?w = (rows, w1)" by fastforce
  have ok: "transfers_ok ?w" by (simp add: transfers_ok_def row_wf_def transfer1_def)
  have on: "recovery_enabled (cfg_recovery cfg0)" "\<not> w_sweeping ?w" by (simp_all add: cfg0_def world0_def)
  have stuck: "stuck_now (cfg_recovery cfg0) ?w = [?t]"
    by (simp add: stuck_now_def stuck_rows_def cfg0_def order_asc_def transfer1_def)
  have "w_usage world_t1 = w_usage ?w" "w_buckets world_t1 = w_buckets ?w" by (simp_all add: world_t1_def)
  then have good: "good_file sv0 cfg0 cs_off ?t 2 [104, 105] ?w"
    using world_t1_good by (simp add: good_file_def admitted_def usage_of_def cs_off_def) blast
  have job: "job_id job1 = ft_id ?t" by (simp add: job1_def mk_job_def transfer1_def)
  have "?t \<in> set (stuck_now (cfg_recovery cfg0) ?w)" "app_transferMaxAttempts app0 \<le> ft_attempts ?t"
    by (simp_all add: stuck app0_def)
  note overwritten = sweep_overwrites_finished_transfer[OF healthy_sv0 healthy_sv0 ok on this good job s refl]
  have two: "length (stuck_now (cfg_recovery cfg0) ?w) + 1 = 2" by (simp add: stuck)
  from overwritten[unfolded two] show ?thesis unfolding Let_def s by (auto simp: transfer1_def simp del: alone.simps)
qed

end
