(* ===== verification/Progress.thy ===== *)
theory Progress
  imports Refinement
begin

text \<open>
  What the system can still do after anything has happened to it. A round of recovery restarts the process, lets
  the stale time pass, runs one sweep and works the queue off; every part of it is a run of the system's own
  steps, without faults. The number of open transfers (PENDING or PROCESSING) falls in every round, so from
  every reachable state, whatever failed on the way there, every transfer can still be brought to an end.
\<close>

section \<open>A round of recovery\<close>

definition restart :: "world \<Rightarrow> world" where
  "restart w = w\<lparr>w_metrics := metrics0, w_relaying := False, w_sweeping := False,
     w_kafkaProducer := False, w_kafkaReady := False\<rparr>"

text \<open>A time at which no row was changed within the stale time.\<close>

definition stale_time :: "recovery_section \<Rightarrow> world \<Rightarrow> int" where
  "stale_time recovery w = foldr (\<lambda>r t. max (ft_updatedAt r + recovery_staleMs recovery + 1) t) (w_transfers w) (w_now w)"

text \<open>The first job of the queue, attempt after attempt until it is gone, and so on with the whole queue.\<close>

definition job_fuel :: "TransferJob \<Rightarrow> nat" where
  "job_fuel job = nat (max 1 (totalAttempts job - qj_attemptsMade job))"

definition work_next :: "services \<Rightarrow> app_config \<Rightarrow> CryptoService \<Rightarrow> world \<Rightarrow> world" where
  "work_next sv cfg cs w =
     (case w_queue w of
        [] \<Rightarrow> w
      | job # jobs \<Rightarrow> drive (\<lambda>_. sv) sv cfg cs (job_fuel job) job (w\<lparr>w_queue := jobs\<rparr>))"

definition drain :: "services \<Rightarrow> app_config \<Rightarrow> CryptoService \<Rightarrow> world \<Rightarrow> world" where
  "drain sv cfg cs w = (work_next sv cfg cs ^^ length (w_queue w)) w"

definition heal_round :: "services \<Rightarrow> app_config \<Rightarrow> CryptoService \<Rightarrow> world \<Rightarrow> world" where
  "heal_round sv cfg cs w =
     (let w1 = restart w;
          w2 = w1\<lparr>w_now := stale_time (cfg_recovery cfg) w1\<rparr>
      in drain sv cfg cs (snd (sweep sv (cfg_app cfg) (cfg_recovery cfg) w2)))"

definition heal :: "services \<Rightarrow> app_config \<Rightarrow> CryptoService \<Rightarrow> nat \<Rightarrow> world \<Rightarrow> world" where
  "heal sv cfg cs n w = (heal_round sv cfg cs ^^ n) w"

section \<open>Progress by a measure\<close>

text \<open>Rounds that keep an invariant and make a measure fall as long as it is not zero.\<close>

locale falling =
  fixes round_of :: "'s \<Rightarrow> 's" and inv :: "'s \<Rightarrow> bool" and size_of :: "'s \<Rightarrow> nat"
  assumes round_inv: "inv s \<Longrightarrow> inv (round_of s)"
    and round_falls: "inv s \<Longrightarrow> size_of (round_of s) \<le> size_of s - 1"
begin

lemma rounds_inv: "inv s \<Longrightarrow> inv ((round_of ^^ n) s)"
  by (induction n) (simp_all add: round_inv)

lemma rounds_fall: "inv s \<Longrightarrow> size_of ((round_of ^^ n) s) \<le> size_of s - n"
proof (induction n)
  case (Suc n)
  have "size_of ((round_of ^^ Suc n) s) \<le> size_of ((round_of ^^ n) s) - 1" using round_falls[OF rounds_inv[OF Suc.prems]] by simp
  with Suc show ?case by simp
qed simp

lemma rounds_empty: "inv s \<Longrightarrow> size_of s \<le> n \<Longrightarrow> size_of ((round_of ^^ n) s) = 0"
  using rounds_fall[of s n] by simp

end

section \<open>Working the queue off\<close>

text \<open>The transfers that are not at an end.\<close>

definition open_ids :: "world \<Rightarrow> string set" where
  "open_ids w = {i. statuses w i \<in> {Some PENDING, Some PROCESSING}}"

lemma open_ids_rows: "open_ids w \<subseteq> ft_id ` set (w_transfers w)"
proof
  fix i
  assume "i \<in> open_ids w"
  then have "statuses w i \<noteq> None" by (auto simp: open_ids_def)
  then show "i \<in> ft_id ` set (w_transfers w)" by (simp add: statuses_None)
qed

lemma finite_open_ids: "finite (open_ids w)"
  by (rule finite_subset[OF open_ids_rows]) simp

lemma open_ids_transfers: "w_transfers w' = w_transfers w \<Longrightarrow> open_ids w' = open_ids w"
  unfolding open_ids_def by (drule statuses_transfers) simp

lemma settled_closed: "settled i w \<Longrightarrow> i \<notin> open_ids w"
  by (auto simp: settled_def open_ids_def statuses_def split: option.splits)

text \<open>A job driven to its end is a run of the worker's steps.\<close>

lemma drive_steps:
  assumes "\<And>k. no_crash (svs k)" "healthy svf" "totalAttempts job - qj_attemptsMade job \<le> int n" "0 < n"
    and "w_queue w = xs @ job # ys"
  shows "(step cfg cs cwd)\<^sup>*\<^sup>* w (drive svs svf cfg cs n job (w\<lparr>w_queue := xs @ ys\<rparr>))"
  using assms(3-5)
proof (induction n arbitrary: job w xs ys)
  case (Suc n)
  let ?u = "w\<lparr>w_queue := xs @ ys\<rparr>"
  let ?w' = "settle_job (svs n) svf cfg cs job ?u"
  have work: "step cfg cs cwd w ?w'" using Suc.prems(3) by (rule step.Work)
  from settle_uncrashed[OF assms(1,2), of n cfg cs job ?u] show ?case
  proof (elim disjE conjE)
    assume "w_queue ?w' = w_queue ?u"
    then show ?thesis using work by (simp add: Let_def)
  next
    assume again: "qj_attemptsMade job + 1 < totalAttempts job" "w_queue ?w' = w_queue ?u @ [job_failed_once job]"
    then have "0 < n" using Suc.prems by linarith
    then have "(step cfg cs cwd)\<^sup>*\<^sup>* ?w' (drive svs svf cfg cs n (job_failed_once job) (?w'\<lparr>w_queue := (xs @ ys) @ []\<rparr>))"
      using Suc.prems again by (intro Suc.IH) (simp_all add: job_failed_once_def totalAttempts_def)
    then show ?thesis using work again by (simp add: Let_def)
  qed
qed simp

lemma drive_rows:
  "other_rows (job_id job) (drive svs svf cfg cs n job w) = other_rows (job_id job) w \<and>
   ft_id ` set (w_transfers (drive svs svf cfg cs n job w)) = ft_id ` set (w_transfers w)"
proof (induction n arbitrary: job w)
  case (Suc n)
  let ?w' = "settle_job (svs n) svf cfg cs job w"
  have q: "other_rows i (u\<lparr>w_queue := x\<rparr>) = other_rows i u" for i u x by (simp add: other_rows_def)
  show ?case
    using Suc.IH[of "job_failed_once job" "?w'\<lparr>w_queue := w_queue w\<rparr>"] settle_others settle_ids
    by (simp add: Let_def q)
qed simp

lemma job_fuel: "totalAttempts job - qj_attemptsMade job \<le> int (job_fuel job)" "0 < job_fuel job"
  by (auto simp: job_fuel_def)

lemma healthy_no_crash: "healthy sv \<Longrightarrow> no_crash sv"
  by (simp add: healthy_def no_crash_def)

lemma work_next_spec:
  fixes cfg :: app_config and cs :: CryptoService
  assumes "healthy sv" "w_queue w = job # jobs"
  defines "w' \<equiv> work_next sv cfg cs w"
  shows "(step cfg cs cwd)\<^sup>*\<^sup>* w w'" "w_queue w' = jobs" "ft_id ` set (w_transfers w') = ft_id ` set (w_transfers w)"
    "open_ids w' \<subseteq> open_ids w - {job_id job}"
proof -
  let ?u = "w\<lparr>w_queue := jobs\<rparr>" and ?d = "drive (\<lambda>_. sv) sv cfg cs (job_fuel job) job"
  have w': "w' = ?d ?u" by (simp add: w'_def work_next_def assms(2))
  have nc: "no_crash ((\<lambda>_. sv) k)" for k :: nat using healthy_no_crash[OF assms(1)] by simp
  show "(step cfg cs cwd)\<^sup>*\<^sup>* w w'"
    unfolding w' using drive_steps[OF nc assms(1) job_fuel, of w "[]" job jobs] assms(2) by simp
  note finished = drive_settles[OF nc assms(1) job_fuel, of job cfg cs ?u]
  show "w_queue w' = jobs" unfolding w' using finished by simp
  note rows = drive_rows[of job "\<lambda>_. sv" sv cfg cs "job_fuel job" ?u]
  show "ft_id ` set (w_transfers w') = ft_id ` set (w_transfers w)" unfolding w' using rows by simp
  have "statuses w' i = statuses w i" if "i \<noteq> job_id job" for i
  proof -
    have "statuses w' i = statuses ?u i" unfolding w' by (rule statuses_others[OF conjunct1[OF rows] that])
    also have "\<dots> = statuses w i" by (simp add: statuses_def)
    finally show ?thesis .
  qed
  moreover have "job_id job \<notin> open_ids w'" unfolding w' using finished by (intro settled_closed) simp
  ultimately have "i \<in> open_ids w - {job_id job}" if "i \<in> open_ids w'" for i
    using that by (cases "i = job_id job") (simp_all add: open_ids_def)
  then show "open_ids w' \<subseteq> open_ids w - {job_id job}" by blast
qed

lemma drain_spec:
  assumes "healthy sv"
  shows "(step cfg cs cwd)\<^sup>*\<^sup>* w (drain sv cfg cs w) \<and> w_queue (drain sv cfg cs w) = [] \<and>
    ft_id ` set (w_transfers (drain sv cfg cs w)) = ft_id ` set (w_transfers w) \<and>
    open_ids (drain sv cfg cs w) \<subseteq> open_ids w - job_id ` set (w_queue w)"
proof (induction "w_queue w" arbitrary: w)
  case Nil
  then show ?case by (simp add: drain_def)
next
  case (Cons job jobs)
  let ?w = "work_next sv cfg cs w"
  note one = work_next_spec[OF assms Cons(2)[symmetric], of cfg cs]
  have d: "drain sv cfg cs w = drain sv cfg cs ?w"
    using Cons(2)[symmetric] one(2) by (simp add: drain_def funpow_swap1)
  have "(step cfg cs cwd)\<^sup>*\<^sup>* w ?w" by (rule one(1))
  then show ?case
    using Cons(1)[of ?w] one(2-4) Cons(2)[symmetric] unfolding d by (auto intro: rtranclp_trans)
qed

section \<open>A round closes transfers\<close>

lemma stale_time_bounds:
  "w_now w \<le> stale_time recovery w"
  "r \<in> set (w_transfers w) \<Longrightarrow> ft_updatedAt r < stale_time recovery w - recovery_staleMs recovery"
proof -
  let ?f = "\<lambda>r t. max (ft_updatedAt r + recovery_staleMs recovery + 1) t"
  have "t \<le> foldr ?f rs t" for rs t by (induction rs) auto
  then show "w_now w \<le> stale_time recovery w" by (simp add: stale_time_def)
  have "ft_updatedAt r + recovery_staleMs recovery < foldr ?f rs t" if "r \<in> set rs" for rs t
    using that by (induction rs) auto
  from this[of "w_transfers w" "w_now w"]
  show "r \<in> set (w_transfers w) \<Longrightarrow> ft_updatedAt r < stale_time recovery w - recovery_staleMs recovery"
    by (simp add: stale_time_def)
qed

text \<open>After the stale time the batch of the sweep has an open row, when there is one.\<close>

lemma batch_not_empty:
  assumes "transfers_ok w" "\<And>r. r \<in> set (w_transfers w) \<Longrightarrow> ft_updatedAt r < w_now w - recovery_staleMs recovery"
    and "1 \<le> recovery_batchSize recovery" "open_ids w \<noteq> {}"
  obtains r where "r \<in> set (stuck_now recovery w)" "ft_id r \<in> open_ids w"
proof -
  from assms(4) obtain i s where "statuses w i = Some s" "s \<in> {PENDING, PROCESSING}" by (auto simp: open_ids_def)
  then obtain r0 where "r0 \<in> set (w_transfers w)" "ft_status r0 \<in> {PENDING, PROCESSING}"
    using statuses_Some[OF assms(1)] by blast
  with assms(2) have "r0 \<in> set (filter (\<lambda>r. ft_status r \<in> {PENDING, PROCESSING} \<and>
      ft_updatedAt r < w_now w - recovery_staleMs recovery) (w_transfers w))" (is "_ \<in> set ?open") by simp
  then have "0 < length ?open" by (rule length_pos_if_in_set)
  then have "0 < length (stuck_now recovery w)" using assms(3) by (simp add: stuck_now_def stuck_rows_def del: length_filter_conv_card)
  then have "stuck_now recovery w \<noteq> []" by simp
  then obtain r where r: "r \<in> set (stuck_now recovery w)" by (meson last_in_set)
  then have "r \<in> set (w_transfers w)" "ft_status r \<in> {PENDING, PROCESSING}"
    using stuck_rows_spec(1) unfolding stuck_now_def by blast+
  then have "ft_id r \<in> open_ids w"
    using statuses_Some[OF assms(1), of "ft_id r"] unfolding open_ids_def by blast
  with r show ?thesis by (rule that)
qed

lemma sweep_all_statuses:
  assumes "transfers_ok w"
  shows "statuses (sweep_all app stuck w) i =
    (if \<exists>r\<in>set stuck. r \<in> set (w_transfers w) \<and> ft_id r = i \<and> exhausted app r then Some FAILED else statuses w i)"
proof -
  let ?g = "\<lambda>r. if r \<in> set (filter (exhausted app) stuck)
      then set_failed (recovered_message (ft_attempts r)) (w_now w) r else r"
  have "row_find ft_id i (map ?g rows) = map_option ?g (row_find ft_id i rows)" for rows
    by (induction rows) (auto simp: row_find_def set_failed_def)
  then have "statuses (sweep_all app stuck w) i = map_option (ft_status \<circ> ?g) (find_transfer i w)"
    by (simp add: statuses_def sweep_all_def option.map_comp)
  note board = this
  show ?thesis
  proof (cases "find_transfer i w")
    case None
    then have "i \<notin> ft_id ` set (w_transfers w)" by (simp add: row_find_None_iff)
    then show ?thesis using None board by (auto simp: statuses_def)
  next
    case (Some t)
    then have t: "t \<in> set (w_transfers w)" "ft_id t = i" by (auto dest: row_find_SomeD)
    have "r = t" if "r \<in> set (w_transfers w)" "ft_id r = i" for r
      using that Some row_find_distinct[of ft_id "w_transfers w" r] assms by (simp add: transfers_ok_def)
    then have "(\<exists>r\<in>set stuck. r \<in> set (w_transfers w) \<and> ft_id r = i \<and> exhausted app r) \<longleftrightarrow> t \<in> set (filter (exhausted app) stuck)"
      unfolding set_filter using t by blast
    then show ?thesis unfolding board by (simp add: Some statuses_def set_failed_def)
  qed
qed

lemma sweep_closes:
  fixes app :: app_section
  assumes "healthy sv" "transfers_ok w" "recovery_enabled recovery" "\<not> w_sweeping w" "1 \<le> recovery_batchSize recovery"
    and "\<And>r. r \<in> set (w_transfers w) \<Longrightarrow> ft_updatedAt r < w_now w - recovery_staleMs recovery"
  defines "w' \<equiv> snd (sweep sv app recovery w)"
  shows "card (open_ids w' - job_id ` set (w_queue w')) \<le> card (open_ids w) - 1"
    and "ft_id ` set (w_transfers w') = ft_id ` set (w_transfers w)"
proof -
  let ?stuck = "stuck_now recovery w"
  have w': "w' = sweep_all app ?stuck w" using sweep_run[OF assms(1-4)] by (simp add: w'_def)
  show "ft_id ` set (w_transfers w') = ft_id ` set (w_transfers w)"
  proof -
    have "ft_id (if c then set_failed m now r else r) = ft_id r" for c m now r by (simp add: set_failed_def)
    then have "map ft_id (w_transfers w') = map ft_id (w_transfers w)" by (simp add: w' sweep_all_def)
    from arg_cong[OF this, of set] show ?thesis by simp
  qed
  have sub: "open_ids w' \<subseteq> open_ids w" unfolding w' open_ids_def sweep_all_statuses[OF assms(2)] by auto
  have dealt: "ft_id r \<notin> open_ids w' - job_id ` set (w_queue w')" if "r \<in> set ?stuck" for r
  proof (cases "exhausted app r")
    case True
    have "r \<in> set (w_transfers w)" using that stuck_subset unfolding stuck_now_def by blast
    with True that show ?thesis unfolding w' open_ids_def sweep_all_statuses[OF assms(2)] by auto
  next
    case False
    with that have "sweep_job app r \<in> set (w_queue w')" by (simp add: w' sweep_all_def)
    then have "job_id (sweep_job app r) \<in> job_id ` set (w_queue w')" by (rule imageI)
    then show ?thesis by (simp add: sweep_job_def mk_job_def)
  qed
  show "card (open_ids w' - job_id ` set (w_queue w')) \<le> card (open_ids w) - 1"
  proof (cases "open_ids w = {}")
    case True
    then show ?thesis using sub by simp
  next
    case False
    from batch_not_empty[OF assms(2,6,5) this] obtain r where r: "r \<in> set ?stuck" "ft_id r \<in> open_ids w" .
    with dealt[OF r(1)] sub have "open_ids w' - job_id ` set (w_queue w') \<subseteq> open_ids w - {ft_id r}" by blast
    from card_mono[OF _ this] show ?thesis using r(2) finite_open_ids by simp
  qed
qed

lemma heal_round_spec:
  fixes cfg :: app_config and cs :: CryptoService
  assumes "healthy sv" "sys_inv cfg cwd w" "recovery_enabled (cfg_recovery cfg)" "1 \<le> recovery_batchSize (cfg_recovery cfg)"
  defines "w' \<equiv> heal_round sv cfg cs w"
  shows "(step cfg cs cwd)\<^sup>*\<^sup>* w w'" "card (open_ids w') \<le> card (open_ids w) - 1"
    "ft_id ` set (w_transfers w') = ft_id ` set (w_transfers w)"
proof -
  let ?rec = "cfg_recovery cfg"
  define w1 where "w1 = restart w"
  define w2 where "w2 = w1\<lparr>w_now := stale_time ?rec w1\<rparr>"
  define w3 where "w3 = snd (sweep sv (cfg_app cfg) ?rec w2)"
  have w': "w' = drain sv cfg cs w3" by (simp add: w'_def heal_round_def w1_def w2_def w3_def Let_def)
  have rows: "w_transfers w2 = w_transfers w" by (simp add: w2_def w1_def restart_def)
  have "step cfg cs cwd w w1" unfolding w1_def restart_def by (rule step.Restart)
  moreover have "step cfg cs cwd w1 w2" unfolding w2_def by (rule step.Tick) (rule stale_time_bounds)
  moreover have "step cfg cs cwd w2 w3" unfolding w3_def by (rule step.Sweep)
  ultimately have start: "(step cfg cs cwd)\<^sup>*\<^sup>* w w3" by (meson converse_rtranclp_into_rtranclp r_into_rtranclp)
  note drained = drain_spec[OF assms(1), of cfg cs cwd w3]
  show "(step cfg cs cwd)\<^sup>*\<^sup>* w w'" unfolding w' using start drained by (meson rtranclp_trans)
  have ok: "transfers_ok w2" using assms(2) rows by (simp add: sys_inv_def transfers_ok_def)
  have "\<not> w_sweeping w2" by (simp add: w2_def w1_def restart_def)
  moreover have "ft_updatedAt r < w_now w2 - recovery_staleMs ?rec" if "r \<in> set (w_transfers w2)" for r
    using that stale_time_bounds(2)[of r w1] by (simp add: w2_def)
  ultimately have swept: "card (open_ids w3 - job_id ` set (w_queue w3)) \<le> card (open_ids w2) - 1"
    "ft_id ` set (w_transfers w3) = ft_id ` set (w_transfers w2)"
    unfolding w3_def using sweep_closes[OF assms(1) ok assms(3) _ assms(4), where app = "cfg_app cfg"] by blast+
  have "card (open_ids w') \<le> card (open_ids w3 - job_id ` set (w_queue w3))"
    unfolding w' using drained finite_open_ids by (intro card_mono) auto
  also have "\<dots> \<le> card (open_ids w) - 1" using swept(1) open_ids_transfers[OF rows] by simp
  finally show "card (open_ids w') \<le> card (open_ids w) - 1" .
  show "ft_id ` set (w_transfers w') = ft_id ` set (w_transfers w)" unfolding w' using drained swept(2) rows by simp
qed

text \<open>The invariant of the rounds: the recovery is on, and the state is one that a run from a given one reaches,
  with the same transfers.\<close>

definition healing :: "services \<Rightarrow> app_config \<Rightarrow> CryptoService \<Rightarrow> string \<Rightarrow> world \<Rightarrow> world \<Rightarrow> bool" where
  "healing sv cfg cs cwd w0 w \<longleftrightarrow> healthy sv \<and> recovery_enabled (cfg_recovery cfg) \<and> 1 \<le> recovery_batchSize (cfg_recovery cfg) \<and>
     sys_inv cfg cwd w0 \<and> (step cfg cs cwd)\<^sup>*\<^sup>* w0 w \<and> ft_id ` set (w_transfers w) = ft_id ` set (w_transfers w0)"

interpretation rounds: falling "heal_round sv cfg cs" "healing sv cfg cs cwd w0" "\<lambda>w. card (open_ids w)" for sv cfg cs cwd w0
proof
  fix w
  assume h: "healing sv cfg cs cwd w0 w"
  then have inv: "sys_inv cfg cwd w" using running.inv_run by (auto simp: healing_def)
  have on: "healthy sv" "recovery_enabled (cfg_recovery cfg)" "1 \<le> recovery_batchSize (cfg_recovery cfg)"
    using h by (simp_all add: healing_def)
  note r = heal_round_spec[OF on(1) inv on(2,3), of cs]
  show "healing sv cfg cs cwd w0 (heal_round sv cfg cs w)" using h r(1,3) by (auto simp: healing_def)
  show "card (open_ids (heal_round sv cfg cs w)) \<le> card (open_ids w) - 1" by (rule r(2))
qed

section \<open>Properties\<close>

text \<open>C6: Every transfer can still come to an end: from every state the system reaches, whatever requests, faults,
  crashes and lost acknowledgements led there, when the recovery is on, as many rounds of restarting,
  waiting for the stale time, one sweep and working the queue off as there are open transfers (there are never
  more than rows), without further faults, are a run of the system that leaves every transfer SUCCESS or FAILED;
  and none was added or removed.\<close>

theorem every_transfer_can_settle:
  assumes "reachable cfg cs cwd w" "healthy sv" "recovery_enabled (cfg_recovery cfg)" "1 \<le> recovery_batchSize (cfg_recovery cfg)"
  defines "w' \<equiv> heal sv cfg cs (length (w_transfers w)) w"
  shows "(step cfg cs cwd)\<^sup>*\<^sup>* w w' \<and> (\<forall>r\<in>set (w_transfers w'). ft_status r \<in> {SUCCESS, FAILED}) \<and>
    ft_id ` set (w_transfers w') = ft_id ` set (w_transfers w)"
proof -
  have inv: "sys_inv cfg cwd w" by (rule reachable_inv[OF assms(1)])
  then have h: "healing sv cfg cs cwd w w" using assms(2-4) by (simp add: healing_def)
  have "card (open_ids w) \<le> card (ft_id ` set (w_transfers w))" by (rule card_mono[OF _ open_ids_rows]) simp
  also have "\<dots> \<le> length (w_transfers w)" by (metis card_length length_map list.set_map)
  finally have "card (open_ids w') = 0" unfolding w'_def heal_def by (rule rounds.rounds_empty[OF h])
  then have closed: "open_ids w' = {}" using finite_open_ids by simp
  have h': "healing sv cfg cs cwd w w'" unfolding w'_def heal_def by (rule rounds.rounds_inv[OF h])
  then have run: "(step cfg cs cwd)\<^sup>*\<^sup>* w w'" by (simp add: healing_def)
  then have ok: "transfers_ok w'" using running.inv_run[OF _ inv] by (simp add: sys_inv_def)
  have "ft_status r \<in> {SUCCESS, FAILED}" if "r \<in> set (w_transfers w')" for r
  proof -
    have "statuses w' (ft_id r) = Some (ft_status r)" using that statuses_Some[OF ok] by blast
    then show ?thesis using closed by (cases "ft_status r") (auto simp: open_ids_def)
  qed
  then show ?thesis using run h' by (simp add: healing_def)
qed

theorem every_transfer_can_settle_witness:
  "\<exists>w'. (step cfg0 cs_off ''/srv'')\<^sup>*\<^sup>* world1_hooked w' \<and> w_transfers w' \<noteq> [] \<and>
     (\<forall>r\<in>set (w_transfers w'). ft_status r \<in> {SUCCESS, FAILED})"
proof -
  have "reachable cfg0 cs_off ''/srv'' world0"
    unfolding reachable_def initial_def by (rule exI[of _ world0]) (simp add: world0_def)
  then have r: "reachable cfg0 cs_off ''/srv'' world1_hooked"
    unfolding world1_hooked_def by (rule reachable_step) (rule step.Webhook)
  have "recovery_enabled (cfg_recovery cfg0)" "1 \<le> recovery_batchSize (cfg_recovery cfg0)" by (simp_all add: cfg0_def)
  note end_state = every_transfer_can_settle[OF r healthy_sv0 this]
  have "w_transfers world1_hooked \<noteq> []" unfolding world1_hooked_def hook1_run by (simp add: with_transfer_def Let_def)
  then have "w_transfers (heal sv0 cfg0 cs_off (length (w_transfers world1_hooked)) world1_hooked) \<noteq> []"
    using end_state by (metis image_is_empty set_empty)
  then show ?thesis using end_state by blast
qed

end
