(* ===== verification/Environment.thy ===== *)
theory Environment
  imports Config
begin

text \<open>
  Start-up: \<^verbatim>\<open>config/env.validation.ts\<close> resolves file secrets and validates the environment, and the
  factory of \<^verbatim>\<open>config/configuration.ts\<close> builds the configuration from it. The process environment is a
  list of variables in the order of \<^verbatim>\<open>Object.keys\<close>; reading a file is a parameter (None: it throws), and so are
  the messages of the validation library. The decorators of \<^verbatim>\<open>EnvironmentVariables\<close> are data, with their
  documented meaning in \<^verbatim>\<open>holds\<close>.
\<close>

type_synonym env = "(string \<times> string) list"

datatype jsval = VUndefined | VStr string | VNum js_number | VBool bool

section \<open>The factory\<close>

definition TRUE_WORDS :: "string list" where
  "TRUE_WORDS = [''true'', ''1'', ''yes'', ''on'']"

definition config_bool :: "string option \<Rightarrow> bool \<Rightarrow> bool" where
  "config_bool v fallback =
     (case v of None \<Rightarrow> fallback | Some s \<Rightarrow> toLowerCase s \<in> set TRUE_WORDS)"

definition config_int :: "string option \<Rightarrow> int \<Rightarrow> js_number" where
  "config_int v fallback =
     (let n = (case v of None \<Rightarrow> NaN | Some s \<Rightarrow> js_Number s)
      in if is_finite n then n else Fin (of_int fallback))"

text \<open>\<^verbatim>\<open>v ?? d\<close> and \<^verbatim>\<open>v || undefined\<close>.\<close>

definition or_default :: "string option \<Rightarrow> string \<Rightarrow> string" where
  "or_default v d = (case v of None \<Rightarrow> d | Some s \<Rightarrow> s)"

definition or_undefined :: "string option \<Rightarrow> string option" where
  "or_undefined v = (if truthy v then v else None)"

fun parseRoutingRules :: "string option \<Rightarrow> js_number JSON list" where
  "parseRoutingRules raw =
     (if \<not> truthy raw then []
      else case JSON_parse (the raw) of Some (JArr xs) \<Rightarrow> xs | _ \<Rightarrow> [])"

fun parseJson :: "string option \<Rightarrow> js_number JSON" where
  "parseJson raw =
     (if \<not> truthy raw then JObj []
      else case JSON_parse (the raw) of
        Some (JObj kvs) \<Rightarrow> JObj kvs | Some (JArr xs) \<Rightarrow> JArr xs | _ \<Rightarrow> JObj [])"

fun parseJsonMap :: "string option \<Rightarrow> js_number JSON" where
  "parseJsonMap raw =
     (if \<not> truthy raw then JObj []
      else case JSON_parse (the raw) of
        Some (JObj kvs) \<Rightarrow> JObj kvs | Some (JArr xs) \<Rightarrow> JArr xs | _ \<Rightarrow> JObj [])"

definition configuration ::
    "(string \<Rightarrow> string option) \<Rightarrow>
     (js_number, string option, js_number JSON list, js_number JSON, js_number JSON) AppConfig" where
  "configuration env = \<lparr>
     cfg_app = \<lparr>
       app_nodeEnv = or_default (env ''NODE_ENV'') ''development'',
       app_port = config_int (env ''APP_PORT'') 3000,
       app_webhookSecret = env ''WEBHOOK_SECRET'',
       app_logLevel = or_default (env ''LOG_LEVEL'') ''info'',
       app_logPretty = config_bool (env ''LOG_PRETTY'') False,
       app_transferMaxAttempts = config_int (env ''TRANSFER_MAX_ATTEMPTS'') 3,
       app_transferRetryBackoffMs = config_int (env ''TRANSFER_RETRY_BACKOFF_MS'') 1000,
       app_ingestionDataRoot = env ''INGESTION_DATA_ROOT'',
       app_workerConcurrency = config_int (env ''WORKER_CONCURRENCY'') 5,
       app_maxPayloadBytes = num_scale 1024 (config_int (env ''MAX_PAYLOAD_SIZE_KB'') 1024)\<rparr>,
     cfg_throttle = \<lparr>
       throttle_ttlMs = config_int (env ''THROTTLE_TTL_MS'') 60000,
       throttle_limit = config_int (env ''THROTTLE_LIMIT'') 100\<rparr>,
     cfg_auth = \<lparr>
       auth_jwtSecret = env ''JWT_SECRET'',
       auth_jwtExpiresIn = or_default (env ''JWT_EXPIRES_IN'') ''1h'',
       auth_adminUsername = or_default (env ''ADMIN_USERNAME'') ''admin'',
       auth_adminPassword = env ''ADMIN_PASSWORD''\<rparr>,
     cfg_alerts = \<lparr>
       alerts_enabled = config_bool (env ''ALERTS_ENABLED'') False,
       alerts_webhookUrl = or_undefined (env ''ALERT_WEBHOOK_URL'')\<rparr>,
     cfg_recovery = \<lparr>
       recovery_enabled = config_bool (env ''RECOVERY_ENABLED'') True,
       recovery_staleMs = config_int (env ''RECOVERY_STALE_MS'') 900000,
       recovery_batchSize = config_int (env ''RECOVERY_BATCH_SIZE'') 50\<rparr>,
     cfg_retentionAuditDays = config_int (env ''AUDIT_RETENTION_DAYS'') 0,
     cfg_redis = \<lparr>
       redis_host = env ''REDIS_HOST'',
       redis_port = config_int (env ''REDIS_PORT'') 6379,
       redis_password = or_undefined (env ''REDIS_PASSWORD'')\<rparr>,
     cfg_database = \<lparr>
       db_host = env ''POSTGRES_HOST'',
       db_port = config_int (env ''POSTGRES_PORT'') 5432,
       db_username = (if truthy (env ''APP_DB_USER'') then env ''APP_DB_USER'' else env ''POSTGRES_USER''),
       db_password = env ''POSTGRES_PASSWORD'',
       db_database = env ''POSTGRES_DB'',
       db_synchronize = config_bool (env ''DB_SYNCHRONIZE'') False,
       db_logging = config_bool (env ''DB_LOGGING'') False\<rparr>,
     cfg_s3 = \<lparr>
       s3_endpoint = or_undefined (env ''S3_ENDPOINT''),
       s3_region = env ''S3_REGION'',
       s3_bucket = env ''S3_BUCKET'',
       s3_accessKeyId = env ''S3_ACCESS_KEY_ID'',
       s3_secretAccessKey = env ''S3_SECRET_ACCESS_KEY'',
       s3_forcePathStyle = config_bool (env ''S3_FORCE_PATH_STYLE'') True,
       s3_uploadPartSizeBytes = num_scale 1024 (num_scale 1024 (config_int (env ''S3_UPLOAD_PART_SIZE_MB'') 8)),
       s3_uploadConcurrency = config_int (env ''S3_UPLOAD_CONCURRENCY'') 4\<rparr>,
     cfg_pipeline = \<lparr>
       pipeline_maxFileSizeBytes = num_scale 1024 (num_scale 1024 (config_int (env ''MAX_FILE_SIZE_MB'') 1024)),
       pipeline_avEnabled = config_bool (env ''AV_ENABLED'') False,
       pipeline_clamavHost = or_default (env ''CLAMAV_HOST'') ''clamav'',
       pipeline_clamavPort = config_int (env ''CLAMAV_PORT'') 3310\<rparr>,
     cfg_encryption = \<lparr>
       enc_enabled = config_bool (env ''ENCRYPTION_ENABLED'') False,
       enc_kek = or_undefined (env ''ENCRYPTION_KEK'')\<rparr>,
     cfg_routingRules = parseRoutingRules (env ''ROUTING_RULES''),
     cfg_tenancy = \<lparr>
       tenancy_defaultTenant = or_default (env ''DEFAULT_TENANT'') ''default'',
       tenancy_map = parseJsonMap (env ''TENANT_MAP'')\<rparr>,
     cfg_quotas = \<lparr>
       quotas_defaultMaxBytes = config_int (env ''QUOTA_DEFAULT_MAX_BYTES'') 0,
       quotas_defaultMaxObjects = config_int (env ''QUOTA_DEFAULT_MAX_OBJECTS'') 0,
       quotas_map = parseJson (env ''TENANT_QUOTAS'')\<rparr>,
     cfg_kafka = \<lparr>
       kafka_enabled = config_bool (env ''KAFKA_ENABLED'') False,
       kafka_brokers = map trim (split_on (CHR '','') (or_default (env ''KAFKA_BROKERS'') ''kafka:9092'')),
       kafka_clientId = or_default (env ''KAFKA_CLIENT_ID'') ''s3-syncbridge'',
       kafka_eventsTopic = or_default (env ''KAFKA_EVENTS_TOPIC'') ''syncbridge.events''\<rparr>\<rparr>"

section \<open>The contract of the environment\<close>

datatype NodeEnv = Development | Production | Test

fun node_env_value :: "NodeEnv \<Rightarrow> string" where
  "node_env_value Development = ''development''"
| "node_env_value Production = ''production''"
| "node_env_value Test = ''test''"

definition LOG_LEVELS :: "string list" where
  "LOG_LEVELS = [''fatal'', ''error'', ''warn'', ''info'', ''debug'', ''trace'', ''silent'']"

fun toBoolean :: "jsval \<Rightarrow> bool" where
  "toBoolean (VBool b) = b"
| "toBoolean (VStr s) = (toLowerCase (trim s) \<in> set TRUE_WORDS)"
| "toBoolean _ = False"

datatype decorator =
    TypeNumber | TransformToBoolean | IsOptional
  | IsEnum "string list" | IsIn "string list" | IsInt | Min int | Max int | IsString | IsNotEmpty | IsBoolean

text \<open>A property of the class: its name, its decorators and its initial value.\<close>

record EnvVar =
  ev_name :: string
  ev_decorators :: "decorator list"
  ev_initial :: jsval

abbreviation property :: "decorator list \<Rightarrow> string \<Rightarrow> jsval \<Rightarrow> EnvVar" where
  "property ds n v \<equiv> \<lparr>ev_name = n, ev_decorators = ds, ev_initial = v\<rparr>"

abbreviation numv :: "int \<Rightarrow> jsval" where
  "numv n \<equiv> VNum (Fin (of_int n))"

definition ENV_NODE :: "EnvVar list" where
  "ENV_NODE =
     [property [IsEnum (map node_env_value [Development, Production, Test]), IsOptional] ''NODE_ENV'' (VStr (node_env_value Development))]"

definition ENV_APP :: "EnvVar list" where
  "ENV_APP =
     [property [TypeNumber, IsInt, Min 1, Max 65535] ''APP_PORT'' (numv 3000),
      property [IsString, IsNotEmpty] ''WEBHOOK_SECRET'' VUndefined]"

definition ENV_AUTH :: "EnvVar list" where
  "ENV_AUTH =
     [property [IsString, IsNotEmpty] ''JWT_SECRET'' VUndefined,
      property [IsString, IsNotEmpty] ''JWT_EXPIRES_IN'' (VStr ''1h''),
      property [IsString, IsNotEmpty] ''ADMIN_USERNAME'' (VStr ''admin''),
      property [IsString, IsNotEmpty] ''ADMIN_PASSWORD'' VUndefined,
      property [IsIn LOG_LEVELS] ''LOG_LEVEL'' (VStr ''info''),
      property [TransformToBoolean, IsBoolean] ''LOG_PRETTY'' (VBool False),
      property [TypeNumber, IsInt, Min 1, Max 10] ''TRANSFER_MAX_ATTEMPTS'' (numv 3),
      property [TypeNumber, IsInt, Min 0] ''TRANSFER_RETRY_BACKOFF_MS'' (numv 1000),
      property [IsString, IsNotEmpty] ''INGESTION_DATA_ROOT'' VUndefined]"

definition ENV_LIMITS :: "EnvVar list" where
  "ENV_LIMITS =
     [property [TypeNumber, IsInt, Min 1000] ''THROTTLE_TTL_MS'' (numv 60000),
      property [TypeNumber, IsInt, Min 1] ''THROTTLE_LIMIT'' (numv 100),
      property [TypeNumber, IsInt, Min 1] ''MAX_PAYLOAD_SIZE_KB'' (numv 1024),
      property [TypeNumber, IsInt, Min 1, Max 256] ''WORKER_CONCURRENCY'' (numv 5)]"

definition ENV_PIPELINE :: "EnvVar list" where
  "ENV_PIPELINE =
     [property [TypeNumber, IsInt, Min 0] ''MAX_FILE_SIZE_MB'' (numv 1024),
      property [TransformToBoolean, IsBoolean] ''AV_ENABLED'' (VBool False),
      property [TransformToBoolean, IsBoolean] ''ENCRYPTION_ENABLED'' (VBool False),
      property [IsString, IsOptional] ''ENCRYPTION_KEK'' VUndefined,
      property [IsString, IsNotEmpty] ''CLAMAV_HOST'' (VStr ''clamav''),
      property [TypeNumber, IsInt, Min 1, Max 65535] ''CLAMAV_PORT'' (numv 3310)]"

definition ENV_ALERTS :: "EnvVar list" where
  "ENV_ALERTS =
     [property [TransformToBoolean, IsBoolean] ''ALERTS_ENABLED'' (VBool False),
      property [IsString, IsOptional] ''ALERT_WEBHOOK_URL'' VUndefined]"

definition ENV_RECOVERY :: "EnvVar list" where
  "ENV_RECOVERY =
     [property [TransformToBoolean, IsBoolean] ''RECOVERY_ENABLED'' (VBool True),
      property [TypeNumber, IsInt, Min 1000] ''RECOVERY_STALE_MS'' (numv 900000),
      property [TypeNumber, IsInt, Min 1, Max 1000] ''RECOVERY_BATCH_SIZE'' (numv 50),
      property [TypeNumber, IsInt, Min 0] ''AUDIT_RETENTION_DAYS'' (numv 0)]"

definition ENV_REDIS :: "EnvVar list" where
  "ENV_REDIS =
     [property [IsString, IsNotEmpty] ''REDIS_HOST'' VUndefined,
      property [TypeNumber, IsInt, Min 1, Max 65535] ''REDIS_PORT'' (numv 6379),
      property [IsString, IsOptional] ''REDIS_PASSWORD'' VUndefined]"

definition ENV_POSTGRES :: "EnvVar list" where
  "ENV_POSTGRES =
     [property [IsString, IsNotEmpty] ''POSTGRES_HOST'' VUndefined,
      property [TypeNumber, IsInt, Min 1, Max 65535] ''POSTGRES_PORT'' (numv 5432),
      property [IsString, IsNotEmpty] ''POSTGRES_USER'' VUndefined,
      property [IsString, IsNotEmpty] ''POSTGRES_PASSWORD'' VUndefined,
      property [IsString, IsNotEmpty] ''POSTGRES_DB'' VUndefined,
      property [TransformToBoolean, IsBoolean] ''DB_SYNCHRONIZE'' (VBool False),
      property [TransformToBoolean, IsBoolean] ''DB_LOGGING'' (VBool False)]"

definition ENV_S3 :: "EnvVar list" where
  "ENV_S3 =
     [property [IsString, IsOptional] ''S3_ENDPOINT'' VUndefined,
      property [IsString, IsNotEmpty] ''S3_REGION'' VUndefined,
      property [IsString, IsNotEmpty] ''S3_BUCKET'' VUndefined,
      property [IsString, IsNotEmpty] ''S3_ACCESS_KEY_ID'' VUndefined,
      property [IsString, IsNotEmpty] ''S3_SECRET_ACCESS_KEY'' VUndefined,
      property [TransformToBoolean, IsBoolean] ''S3_FORCE_PATH_STYLE'' (VBool True),
      property [TypeNumber, IsInt, Min 5] ''S3_UPLOAD_PART_SIZE_MB'' (numv 8),
      property [TypeNumber, IsInt, Min 1, Max 64] ''S3_UPLOAD_CONCURRENCY'' (numv 4)]"

definition EnvironmentVariables :: "EnvVar list" where
  "EnvironmentVariables =
     ENV_NODE @ ENV_APP @ ENV_AUTH @ ENV_LIMITS @ ENV_PIPELINE @ ENV_ALERTS @ ENV_RECOVERY @ ENV_REDIS @
     ENV_POSTGRES @ ENV_S3"

section \<open>Validation\<close>

text \<open>The value a property gets: the initial one when the plain object does not have the key, else the
  key's, converted by its decorators.\<close>

definition convert :: "decorator list \<Rightarrow> string \<Rightarrow> jsval" where
  "convert ds s =
     (if TypeNumber \<in> set ds then VNum (js_Number s)
      else if TransformToBoolean \<in> set ds then VBool (toBoolean (VStr s)) else VStr s)"

definition prop_value :: "(string \<Rightarrow> string option) \<Rightarrow> EnvVar \<Rightarrow> jsval" where
  "prop_value plain v =
     (case plain (ev_name v) of None \<Rightarrow> ev_initial v | Some s \<Rightarrow> convert (ev_decorators v) s)"

fun at_least :: "int \<Rightarrow> js_number \<Rightarrow> bool" where
  "at_least k (Fin q) = (of_int k \<le> q)"
| "at_least k PInf = True"
| "at_least k _ = False"

fun at_most :: "int \<Rightarrow> js_number \<Rightarrow> bool" where
  "at_most k (Fin q) = (q \<le> of_int k)"
| "at_most k NInf = True"
| "at_most k _ = False"

fun holds :: "decorator \<Rightarrow> jsval \<Rightarrow> bool" where
  "holds (IsEnum xs) v = (\<exists>x\<in>set xs. v = VStr x)"
| "holds (IsIn xs) v = (\<exists>x\<in>set xs. v = VStr x)"
| "holds IsInt v = (case v of VNum n \<Rightarrow> int_of_num n \<noteq> None | _ \<Rightarrow> False)"
| "holds (Min k) v = (case v of VNum n \<Rightarrow> at_least k n | _ \<Rightarrow> False)"
| "holds (Max k) v = (case v of VNum n \<Rightarrow> at_most k n | _ \<Rightarrow> False)"
| "holds IsString v = (case v of VStr s \<Rightarrow> True | _ \<Rightarrow> False)"
| "holds IsNotEmpty v = (v \<noteq> VStr [] \<and> v \<noteq> VUndefined)"
| "holds IsBoolean v = (case v of VBool b \<Rightarrow> True | _ \<Rightarrow> False)"
| "holds _ v = True"

definition violated :: "(string \<Rightarrow> string option) \<Rightarrow> EnvVar \<Rightarrow> decorator list" where
  "violated plain v =
     (if IsOptional \<in> set (ev_decorators v) \<and> prop_value plain v = VUndefined then []
      else filter (\<lambda>d. \<not> holds d (prop_value plain v)) (ev_decorators v))"

definition validation_errors :: "(string \<Rightarrow> string option) \<Rightarrow> (string \<times> decorator list) list" where
  "validation_errors plain =
     filter (\<lambda>e. snd e \<noteq> []) (map (\<lambda>v. (ev_name v, violated plain v)) EnvironmentVariables)"

text \<open>\<^verbatim>\<open>process.env[base] = ...\<close> for one key of the snapshot of keys.\<close>

definition resolve_secret :: "(string \<Rightarrow> string option) \<Rightarrow> env \<Rightarrow> string \<Rightarrow> env" where
  "resolve_secret readFile env key =
     (if \<not> endsWith key ''_FILE'' then env
      else let base = take (length key - length ''_FILE'') key; path = map_of env key in
        if \<not> truthy path then env
        else case readFile (the path) of None \<Rightarrow> env | Some t \<Rightarrow> put_key env (base, trim t))"

definition resolveFileSecrets :: "(string \<Rightarrow> string option) \<Rightarrow> env \<Rightarrow> env" where
  "resolveFileSecrets readFile env = foldl (resolve_secret readFile) env (map fst env)"

text \<open>The hook of the ConfigModule, given the variables it has read: the new process environment, and the
  validated object (its declared properties) or the error that aborts the start-up.\<close>

definition validateEnv ::
    "(string \<Rightarrow> decorator \<Rightarrow> string) \<Rightarrow> (string \<Rightarrow> string option) \<Rightarrow> env \<Rightarrow> env \<Rightarrow>
     env \<times> (js_error + (string \<times> jsval) list)" where
  "validateEnv message readFile penv config =
     (let penv' = resolveFileSecrets readFile penv;
          plain = map_of (foldl put_key penv' config);
          errors = validation_errors plain;
          details = join_with [CHR 0x0A] (map (\<lambda>(p, ds). ''  - '' @ p @ '': '' @ join_with '', '' (map (message p) ds)) errors)
      in (penv',
          if errors \<noteq> [] then Inl (JsError ''Error'' (''Invalid environment configuration:'' @ [CHR 0x0A] @ details))
          else Inr (map (\<lambda>v. (ev_name v, prop_value plain v)) EnvironmentVariables)))"

section \<open>What validation guarantees\<close>

lemmas env_tables = EnvironmentVariables_def ENV_NODE_def ENV_APP_def ENV_AUTH_def ENV_LIMITS_def ENV_PIPELINE_def
  ENV_ALERTS_def ENV_RECOVERY_def ENV_REDIS_def ENV_POSTGRES_def ENV_S3_def

lemma no_errors_iff: "validation_errors plain = [] \<longleftrightarrow> (\<forall>v\<in>set EnvironmentVariables. violated plain v = [])"
  by (auto simp: validation_errors_def filter_empty_conv)

lemma validated_number:
  assumes "validation_errors plain = []"
    and "property ([TypeNumber, IsInt, Min lo] @ ds) x (numv d) \<in> set EnvironmentVariables" "IsOptional \<notin> set ds"
  shows "\<exists>k. config_int (plain x) d = Fin (of_int k) \<and> lo \<le> k \<and> (\<forall>hi. Max hi \<in> set ds \<longrightarrow> k \<le> hi)"
proof -
  let ?n = "case plain x of None \<Rightarrow> Fin (of_int d) | Some s \<Rightarrow> js_Number s"
  have ok: "\<forall>r\<in>set (IsInt # Min lo # ds). holds r (VNum ?n)"
  proof -
    let ?v = "property ([TypeNumber, IsInt, Min lo] @ ds) x (numv d)"
    have "violated plain ?v = []" using assms(1,2) unfolding no_errors_iff by blast
    moreover have "prop_value plain ?v = VNum ?n"
      by (simp add: prop_value_def convert_def split: option.split)
    ultimately show ?thesis using assms(3) by (simp add: violated_def filter_empty_conv split: if_splits)
  qed
  then obtain k where k: "?n = Fin (of_int k)" by (auto simp: int_of_num_eq_Some)
  then have "config_int (plain x) d = Fin (of_int k)"
    by (auto simp: config_int_def is_finite_def split: option.splits)
  moreover have "lo \<le> k" using ok k by simp
  moreover have "k \<le> hi" if "Max hi \<in> set ds" for hi
  proof -
    have "holds (Max hi) (VNum ?n)" by (rule bspec[OF ok]) (simp add: that)
    then show ?thesis by (simp add: k)
  qed
  ultimately show ?thesis by blast
qed

lemma validated_string:
  assumes "validation_errors plain = []" "property [IsString, IsNotEmpty] x VUndefined \<in> set EnvironmentVariables"
  shows "\<exists>s. plain x = Some s \<and> s \<noteq> []"
proof -
  have "violated plain (property [IsString, IsNotEmpty] x VUndefined) = []"
    using assms unfolding no_errors_iff by blast
  then show ?thesis by (auto simp: violated_def prop_value_def convert_def split: option.splits if_splits)
qed

text \<open>The bounds the components rely on. A size in bytes is exact as long as it stays below 2^53.\<close>

definition int_between :: "int \<Rightarrow> int \<Rightarrow> js_number \<Rightarrow> bool" where
  "int_between lo hi n \<longleftrightarrow> (\<exists>k. n = Fin (of_int k) \<and> lo \<le> k \<and> k \<le> hi)"

definition int_from :: "int \<Rightarrow> js_number \<Rightarrow> bool" where
  "int_from lo n \<longleftrightarrow> (\<exists>k. n = Fin (of_int k) \<and> lo \<le> k)"

definition scaled_from :: "int \<Rightarrow> int \<Rightarrow> js_number \<Rightarrow> bool" where
  "scaled_from unit lo n \<longleftrightarrow> (\<exists>k. lo \<le> k \<and> (unit * k < 2 ^ 53 \<longrightarrow> n = Fin (of_int (unit * k))))"

definition given :: "string option \<Rightarrow> bool" where
  "given v \<longleftrightarrow> (\<exists>s. v = Some s \<and> s \<noteq> [])"

definition numbers_ok ::
    "(js_number, string option, js_number JSON list, js_number JSON, js_number JSON) AppConfig \<Rightarrow> bool" where
  "numbers_ok c \<longleftrightarrow>
     int_between 1 65535 (app_port (cfg_app c)) \<and> int_between 1 10 (app_transferMaxAttempts (cfg_app c)) \<and>
     int_from 0 (app_transferRetryBackoffMs (cfg_app c)) \<and> int_between 1 256 (app_workerConcurrency (cfg_app c)) \<and>
     scaled_from 1024 1 (app_maxPayloadBytes (cfg_app c)) \<and>
     int_from 1000 (throttle_ttlMs (cfg_throttle c)) \<and> int_from 1 (throttle_limit (cfg_throttle c)) \<and>
     int_from 1000 (recovery_staleMs (cfg_recovery c)) \<and> int_between 1 1000 (recovery_batchSize (cfg_recovery c)) \<and>
     int_from 0 (cfg_retentionAuditDays c) \<and> int_between 1 65535 (redis_port (cfg_redis c)) \<and>
     int_between 1 65535 (db_port (cfg_database c)) \<and> scaled_from 1048576 5 (s3_uploadPartSizeBytes (cfg_s3 c)) \<and>
     int_between 1 64 (s3_uploadConcurrency (cfg_s3 c)) \<and> scaled_from 1048576 0 (pipeline_maxFileSizeBytes (cfg_pipeline c)) \<and>
     int_between 1 65535 (pipeline_clamavPort (cfg_pipeline c))"

definition secrets_ok ::
    "(js_number, string option, js_number JSON list, js_number JSON, js_number JSON) AppConfig \<Rightarrow> bool" where
  "secrets_ok c \<longleftrightarrow>
     given (app_webhookSecret (cfg_app c)) \<and> given (app_ingestionDataRoot (cfg_app c)) \<and>
     given (auth_jwtSecret (cfg_auth c)) \<and> given (auth_adminPassword (cfg_auth c)) \<and>
     given (redis_host (cfg_redis c)) \<and> given (db_host (cfg_database c)) \<and> given (db_username (cfg_database c)) \<and>
     given (db_password (cfg_database c)) \<and> given (db_database (cfg_database c)) \<and>
     given (s3_region (cfg_s3 c)) \<and> given (s3_bucket (cfg_s3 c)) \<and>
     given (s3_accessKeyId (cfg_s3 c)) \<and> given (s3_secretAccessKey (cfg_s3 c))"

lemma validated_between:
  assumes "validation_errors plain = []" "property [TypeNumber, IsInt, Min lo, Max hi] x (numv d) \<in> set EnvironmentVariables"
  shows "int_between lo hi (config_int (plain x) d)"
  using validated_number[OF assms(1), where lo = lo and ds = "[Max hi]" and x = x and d = d] assms(2) by (auto simp: int_between_def)

lemma validated_from:
  assumes "validation_errors plain = []" "property [TypeNumber, IsInt, Min lo] x (numv d) \<in> set EnvironmentVariables"
  shows "int_from lo (config_int (plain x) d)"
  using validated_number[OF assms(1), where lo = lo and ds = "[]" and x = x and d = d] assms(2) by (auto simp: int_from_def)

lemma int_from_scale1: "int_from lo n \<Longrightarrow> 0 \<le> lo \<Longrightarrow> scaled_from 1024 lo (num_scale 1024 n)"
  using num_scale_int[of 1024] by (auto simp: int_from_def scaled_from_def)

lemma int_from_scale2: "int_from lo n \<Longrightarrow> 0 \<le> lo \<Longrightarrow> scaled_from 1048576 lo (num_scale 1024 (num_scale 1024 n))"
proof -
  assume "int_from lo n" "0 \<le> lo"
  then obtain k where k: "n = Fin (of_int k)" "lo \<le> k" "0 \<le> k" by (auto simp: int_from_def)
  have "num_scale 1024 (num_scale 1024 n) = Fin (of_int (1048576 * k))" if "1048576 * k < 2 ^ 53"
    using num_scale_int[of 1024 k] num_scale_int[of 1024 "1024 * k"] that k by simp
  with k show ?thesis by (auto simp: scaled_from_def)
qed

lemma configuration_numbers: "validation_errors plain = [] \<Longrightarrow> numbers_ok (configuration plain)"
  unfolding numbers_ok_def configuration_def AppConfig.simps AppSection.simps ThrottleSection.simps RecoverySection.simps
    RedisSection.simps DatabaseSection.simps S3Section.simps PipelineSection.simps
  by (intro conjI validated_between validated_from int_from_scale1 int_from_scale2; (simp add: env_tables; fail)?)

lemma configuration_secrets: "validation_errors plain = [] \<Longrightarrow> secrets_ok (configuration plain)"
proof -
  assume v: "validation_errors plain = []"
  have g: "given (plain x)" if "property [IsString, IsNotEmpty] x VUndefined \<in> set EnvironmentVariables" for x
    using validated_string[OF v that] by (simp add: given_def)
  have u: "given (if truthy (plain x) then plain x else plain y)" if "given (plain y)" for x y
    using that by (auto simp: given_def truthy_def)
  show ?thesis
    unfolding secrets_ok_def configuration_def AppConfig.simps AppSection.simps AuthSection.simps
      RedisSection.simps DatabaseSection.simps S3Section.simps
    by (intro conjI g u) (simp_all add: env_tables)
qed

lemma map_of_put_key: "map_of (put_key xs kv) = (map_of xs)(fst kv \<mapsto> snd kv)"
proof (cases "fst kv \<in> fst ` set xs")
  case True
  have "map_of (map (\<lambda>(k, v). if k = fst kv then kv else (k, v)) ys) k =
      (if k = fst kv then if fst kv \<in> fst ` set ys then Some (snd kv) else None else map_of ys k)" for k and ys :: "(string \<times> 'a) list"
    by (induction ys) (auto split: prod.splits, metis fst_conv image_eqI)
  with True show ?thesis by (auto simp: put_key_def fun_eq_iff)
next
  case False
  then have "map_of xs (fst kv) = None" by (simp add: map_of_eq_None_iff)
  with False show ?thesis by (cases kv) (auto simp: put_key_def fun_eq_iff map_add_def split: option.split)
qed

lemma overlay_agrees:
  "\<forall>kv\<in>set config. map_of penv (fst kv) = Some (snd kv) \<Longrightarrow> map_of (foldl put_key penv config) = map_of penv"
proof (induction config arbitrary: penv)
  case (Cons kv config)
  then have "map_of (put_key penv kv) = map_of penv" by (auto simp: map_of_put_key fun_eq_iff)
  with Cons show ?case by (metis foldl_Cons list.set_intros(2))
qed simp

text \<open>Numbers in their decimal spelling are read as themselves.\<close>

lemma trim_plain: "\<forall>c\<in>set s. \<not> is_space c \<Longrightarrow> trim s = s"
  by (simp add: trim_def dropWhile_eq_self_iff hd_in_set)
    (metis dropWhile_eq_self_iff hd_in_set rev_rev_ident set_rev)

lemma digits_not_radix: "\<forall>c\<in>set s. is_digit c \<Longrightarrow> non_decimal s = None"
proof -
  assume d: "\<forall>c\<in>set s. is_digit c"
  have "radix_of c = None" if "is_digit c" for c using that by (auto simp: radix_of_def is_digit_def)
  with d show ?thesis by (auto simp: non_decimal_def split: list.splits)
qed

lemma js_Number_show_nat: "n < 2 ^ 53 \<Longrightarrow> js_Number (show_nat n) = Fin (of_nat n)"
proof -
  assume n: "n < 2 ^ 53"
  have ds: "\<forall>c\<in>set (show_nat n). is_digit c" by (rule show_nat_is_digit)
  then have t: "trim (show_nat n) = show_nat n" by (intro trim_plain) (auto simp: is_digit_def is_space_def)
  have "read_sign (show_nat n) = (False, show_nat n)"
  proof (cases "show_nat n")
    case (Cons c cs)
    then have "is_digit c" using ds by simp
    then show ?thesis using Cons by (auto simp: read_sign_def is_digit_def)
  qed simp
  moreover have "show_nat n \<noteq> ''Infinity''"
  proof
    assume "show_nat n = ''Infinity''"
    then have "is_digit (CHR ''I'')" using ds by simp
    then show False by (simp add: is_digit_def)
  qed
  moreover have "unsigned_decimal (show_nat n) = Some (of_nat n)"
  proof -
    have "takeWhile is_digit (show_nat n) = show_nat n" "dropWhile is_digit (show_nat n) = []" using ds by simp_all
    moreover have "read_fraction [] = ([], [])" "read_exponent [] = (0, [])"
      by (simp_all add: read_fraction_def read_exponent_def)
    ultimately show ?thesis by (simp only: unsigned_decimal_def Let_def prod.case show_nat_not_Nil
      decimal_value_show_nat simp_thms if_False)
  qed
  moreover have "to_double (of_nat n) = Fin (of_nat n)" using to_double_int[of "int n"] n by simp
  ultimately show ?thesis using digits_not_radix[OF ds] t by (simp add: js_Number_def Let_def)
qed

section \<open>Properties of the start-up\<close>


definition env1 :: env where
  "env1 = [(''WEBHOOK_SECRET'', ''hook''), (''JWT_SECRET_FILE'', ''/run/secrets/jwt''), (''ADMIN_PASSWORD'', ''pw''),
     (''INGESTION_DATA_ROOT'', ''/data''), (''REDIS_HOST'', ''redis''), (''POSTGRES_HOST'', ''pg''),
     (''POSTGRES_USER'', ''app''), (''POSTGRES_PASSWORD'', ''pw''), (''POSTGRES_DB'', ''sync''),
     (''S3_REGION'', ''eu''), (''S3_BUCKET'', ''landing''), (''S3_ACCESS_KEY_ID'', ''key''),
     (''S3_SECRET_ACCESS_KEY'', ''sk''), (''TRANSFER_MAX_ATTEMPTS'', ''5'')]"

definition files1 :: "string \<Rightarrow> string option" where
  "files1 p = (if p = ''/run/secrets/jwt'' then Some (''jwt '' @ [CHR 0x0A]) else None)"

definition env1_read :: env where
  "env1_read = env1 @ [(''JWT_SECRET'', ''jwt'')]"

lemma env1_resolved: "resolveFileSecrets files1 env1 = env1_read"
  by code_simp

lemma env1_valid: "validation_errors (map_of env1_read) = []"
  by code_simp


text \<open>After the validation the ConfigModule assigns the validated values to the variables that the process
  does not have; a variable that was missing gets the initial value of its property.\<close>

fun js_String :: "jsval \<Rightarrow> string option" where
  "js_String VUndefined = None"
| "js_String (VStr s) = Some s"
| "js_String (VBool b) = Some (if b then ''true'' else ''false'')"
| "js_String (VNum n) = map_option show_int (int_of_num n)"

definition assign_defaults :: "(string \<Rightarrow> string option) \<Rightarrow> string \<Rightarrow> string option" where
  "assign_defaults env k =
     (case env k of
        Some s \<Rightarrow> Some s
      | None \<Rightarrow> (case find (\<lambda>v. ev_name v = k) EnvironmentVariables of None \<Rightarrow> None | Some v \<Rightarrow> js_String (ev_initial v)))"

definition initial_of :: "string \<Rightarrow> string option" where
  "initial_of k = Option.bind (find (\<lambda>v. ev_name v = k) EnvironmentVariables) (\<lambda>v. js_String (ev_initial v))"

lemma assign_defaults_eq: "assign_defaults env k = (case env k of Some s \<Rightarrow> Some s | None \<Rightarrow> initial_of k)"
  by (simp add: assign_defaults_def initial_of_def split: option.split)

lemma names_distinct: "distinct (map ev_name EnvironmentVariables)"
  by code_simp

definition has_initial :: "string \<Rightarrow> jsval \<Rightarrow> bool" where
  "has_initial k x \<longleftrightarrow> (\<exists>v\<in>set EnvironmentVariables. ev_name v = k \<and> ev_initial v = x)"

lemma initial_of_eq: "has_initial k x \<Longrightarrow> initial_of k = js_String x"
proof -
  assume "has_initial k x"
  then obtain v where v: "v \<in> set EnvironmentVariables" "ev_name v = k" "ev_initial v = x" by (auto simp: has_initial_def)
  have "find (\<lambda>v. ev_name v = k) EnvironmentVariables = Some v"
    using find_distinct_key[OF names_distinct v(1)] v(2) by simp
  with v show ?thesis by (simp add: initial_of_def)
qed

lemma default_int: "has_initial k (numv d) \<Longrightarrow> 0 \<le> d \<Longrightarrow> d < 9007199254740992 \<Longrightarrow>
    config_int (assign_defaults env k) d = config_int (env k) d"
  using js_Number_show_nat[of "nat d"] initial_of_eq[of k "numv d"]
  by (simp add: assign_defaults_eq config_int_def is_finite_def show_int_def nat_less_iff split: option.split)

lemma default_bool: "has_initial k (VBool d) \<Longrightarrow> config_bool (assign_defaults env k) d = config_bool (env k) d"
proof -
  have "toLowerCase ''true'' \<in> set TRUE_WORDS" "toLowerCase ''false'' \<notin> set TRUE_WORDS" by code_simp+
  then show "has_initial k (VBool d) \<Longrightarrow> ?thesis"
    by (simp add: initial_of_eq assign_defaults_eq config_bool_def split: option.split)
qed

lemma default_string: "has_initial k (VStr d) \<Longrightarrow> or_default (assign_defaults env k) d = or_default (env k) d"
  by (simp add: initial_of_eq assign_defaults_eq or_default_def split: option.split)

lemma no_initial: "initial_of k = None \<Longrightarrow> assign_defaults env k = env k"
  by (simp add: assign_defaults_eq split: option.split)

lemma no_default: "has_initial k VUndefined \<Longrightarrow> assign_defaults env k = env k"
  by (simp add: initial_of_eq no_initial)

lemma int_of_num_literal [simp]:
  "int_of_num (Fin (numeral n)) = Some (numeral n)" "int_of_num (Fin 0) = Some 0" "int_of_num (Fin 1) = Some 1"
  using int_of_num_int[of "numeral n"] int_of_num_int[of 0] int_of_num_int[of 1] by simp_all

lemma all_initial: "\<forall>v\<in>set EnvironmentVariables. has_initial (ev_name v) (ev_initial v)"
  by (auto simp: has_initial_def)

lemmas initial_facts = all_initial[unfolded env_tables, simplified]

lemma undeclared:
  "initial_of ''APP_DB_USER'' = None"
  "initial_of ''ROUTING_RULES'' = None"
  "initial_of ''DEFAULT_TENANT'' = None"
  "initial_of ''TENANT_MAP'' = None"
  "initial_of ''QUOTA_DEFAULT_MAX_BYTES'' = None"
  "initial_of ''QUOTA_DEFAULT_MAX_OBJECTS'' = None"
  "initial_of ''TENANT_QUOTAS'' = None"
  "initial_of ''KAFKA_ENABLED'' = None"
  "initial_of ''KAFKA_BROKERS'' = None"
  "initial_of ''KAFKA_CLIENT_ID'' = None"
  "initial_of ''KAFKA_EVENTS_TOPIC'' = None"
  by (simp_all add: initial_of_def env_tables)

text \<open>The two sets of defaults agree: the factory reads the same configuration from an environment as from
  the one in which every missing variable was set to the initial value of its validated property, so the
  values the validation reports are those the components get when a variable is not set.\<close>

theorem defaults_agree: "configuration (assign_defaults env) = configuration env"
  unfolding configuration_def
  by (simp add: default_int default_bool default_string no_default no_initial undeclared initial_facts)

lemma still_valid:
  assumes "validation_errors plain = []" "\<forall>v\<in>set EnvironmentVariables. ev_name v = k \<longrightarrow> violated (plain(k \<mapsto> x)) v = []"
  shows "validation_errors (plain(k \<mapsto> x)) = []"
  unfolding no_errors_iff
proof
  fix v
  assume v: "v \<in> set EnvironmentVariables"
  show "violated (plain(k \<mapsto> x)) v = []"
  proof (cases "ev_name v = k")
    case False
    then have "violated (plain(k \<mapsto> x)) v = violated plain v" by (simp add: violated_def prop_value_def)
    then show ?thesis using v assms(1) unfolding no_errors_iff by simp
  qed (use v assms(2) in simp)
qed

lemma reported:
  "property ds k x \<in> set EnvironmentVariables \<Longrightarrow> plain k = Some s \<Longrightarrow>
     (k, convert ds s) \<in> set (map (\<lambda>v. (ev_name v, prop_value plain v)) EnvironmentVariables)"
  by (force simp: prop_value_def intro!: image_eqI[of _ _ "property ds k x"])

lemma validateEnv_accepts:
  assumes "resolveFileSecrets readFile penv = penv'" "map_of (foldl put_key penv' config) = plain" "validation_errors plain = []"
  shows "validateEnv message readFile penv config =
    (penv', Inr (map (\<lambda>v. (ev_name v, prop_value plain v)) EnvironmentVariables))"
  using assms by (simp add: validateEnv_def Let_def)

definition env_blank :: env where
  "env_blank = env1_read @ [(''ENCRYPTION_ENABLED'', ''true '')]"

definition env_both :: env where
  "env_both = env1_read @ [(''WEBHOOK_SECRET_FILE'', ''/run/secrets/hook'')]"

definition files2 :: "string \<Rightarrow> string option" where
  "files2 p = (if p = ''/run/secrets/hook'' then Some [CHR 0x0A] else None)"

lemma env_maps:
  "map_of env_blank = (map_of env1_read)(''ENCRYPTION_ENABLED'' \<mapsto> ''true '')"
  "map_of env_both = (map_of env1_read)(''WEBHOOK_SECRET_FILE'' \<mapsto> ''/run/secrets/hook'')"
  by (auto simp: env_blank_def env_both_def env1_read_def env1_def)

lemma env_blank_valid: "validation_errors (map_of env_blank) = []"
  unfolding env_maps
  by (rule still_valid[OF env1_valid]) (simp add: env_tables violated_def prop_value_def convert_def)

lemma env_both_valid: "validation_errors (map_of env_both) = []"
  unfolding env_maps by (rule still_valid[OF env1_valid]) (simp add: env_tables)

lemma secrets_resolved:
  "resolveFileSecrets files1 env_blank = env_blank"
  "resolveFileSecrets files2 env_both = (''WEBHOOK_SECRET'', []) # tl env_both"
  "foldl put_key ((''WEBHOOK_SECRET'', []) # tl env_both) env_both = env_both"
  "foldl put_key env_blank env_blank = env_blank"
  by code_simp+

text \<open>C39: What is validated is not always what is read, for two reasons: the validation trims a boolean that the
  factory does not (so ENCRYPTION_ENABLED set to "true" with a trailing blank is accepted as true and
  objects are stored unencrypted), and it prefers the variables read before the secrets were resolved to the
  resolved ones (so an empty secret file is accepted when the plain variable is set, and the webhook secret
  the components get is empty).\<close>

theorem validated_is_not_read:
  "(\<exists>penv penv' inst. validateEnv message files1 penv penv = (penv', Inr inst) \<and>
      (''ENCRYPTION_ENABLED'', VBool True) \<in> set inst \<and> \<not> enc_enabled (cfg_encryption (configuration (map_of penv')))) \<and>
   (\<exists>readFile penv penv' inst. validateEnv message readFile penv penv = (penv', Inr inst) \<and>
      (''WEBHOOK_SECRET'', VStr ''hook'') \<in> set inst \<and> app_webhookSecret (cfg_app (configuration (map_of penv'))) = Some [])"
proof (intro conjI exI)
  show "validateEnv message files1 env_blank env_blank =
      (env_blank, Inr (map (\<lambda>v. (ev_name v, prop_value (map_of env_blank) v)) EnvironmentVariables))"
    by (rule validateEnv_accepts) (simp_all add: secrets_resolved env_blank_valid)
  have "convert [TransformToBoolean, IsBoolean] ''true '' = VBool True" by code_simp
  with reported[of "''ENCRYPTION_ENABLED''" "[TransformToBoolean, IsBoolean]" "VBool False" "map_of env_blank" "''true ''"]
  show "(''ENCRYPTION_ENABLED'', VBool True) \<in> set (map (\<lambda>v. (ev_name v, prop_value (map_of env_blank) v)) EnvironmentVariables)"
    by (simp add: env_maps env_tables)
  have "\<not> config_bool (Some ''true '') False" by code_simp
  then show "\<not> enc_enabled (cfg_encryption (configuration (map_of env_blank)))"
    by (simp add: configuration_def env_maps)
  show "validateEnv message files2 env_both env_both = ((''WEBHOOK_SECRET'', []) # tl env_both,
      Inr (map (\<lambda>v. (ev_name v, prop_value (map_of env_both) v)) EnvironmentVariables))"
    by (rule validateEnv_accepts) (simp_all add: secrets_resolved env_both_valid)
  have "convert [IsString, IsNotEmpty] ''hook'' = VStr ''hook''" by (simp add: convert_def)
  moreover have "map_of env_both ''WEBHOOK_SECRET'' = Some ''hook''" by (simp add: env_both_def env1_read_def env1_def)
  ultimately show "(''WEBHOOK_SECRET'', VStr ''hook'') \<in>
      set (map (\<lambda>v. (ev_name v, prop_value (map_of env_both) v)) EnvironmentVariables)"
    using reported[of "''WEBHOOK_SECRET''" "[IsString, IsNotEmpty]" VUndefined "map_of env_both" "''hook''"]
    by (simp add: env_tables)
  show "app_webhookSecret (cfg_app (configuration (map_of ((''WEBHOOK_SECRET'', []) # tl env_both)))) = Some []"
    by (simp add: configuration_def)
qed

end
