(* ===== verification/Schema.thy ===== *)
theory Schema
  imports Data_Model
begin

text \<open>
  The database schema: the migrations of \<^verbatim>\<open>database/migrations/\<close> as the lists of statements they run, the
  effect of these statements on a schema (PostgreSQL's, for the forms the migrations use), and the metadata
  the decorators of the entities declare. The properties relate the two: the tables the migrations build are
  the ones the entities describe, with the unique indexes on which the handlers rely.
\<close>

section \<open>Schemas and statements\<close>

datatype ctype = Uuid | Varchar nat | Bigint | Integer | Text | Timestamptz | Boolean | Jsonb | EnumType string

record Column =
  c_name :: string
  c_type :: ctype
  c_notNull :: bool
  c_default :: "string option"

record Table =
  t_columns :: "Column list"
  t_primary :: "string list"
  t_rls :: bool
  t_forceRls :: bool
  t_policies :: "string list"

record Index =
  i_table :: string
  i_columns :: "string list"
  i_unique :: bool

record Schema =
  s_types :: "(string \<times> string list) list"
  s_tables :: "(string \<times> Table) list"
  s_indexes :: "(string \<times> Index) list"

datatype ddl =
    CreateTypeIfAbsent string "string list"
  | CreateTable string "Column list" "string list"
  | CreateIndex bool string string "string list"
  | CreateIndexIfAbsent bool string string "string list"
  | AddColumnIfAbsent string Column
  | DropColumnIfExists string string
  | DropIndexIfExists string
  | DropTableIfExists string
  | DropTypeIfExists string
  | RowSecurity string bool
  | ForceRowSecurity string bool
  | CreatePolicy string string
  | DropPolicyIfExists string string

definition drop_key :: "string \<Rightarrow> (string \<times> 'v) list \<Rightarrow> (string \<times> 'v) list" where
  "drop_key k xs = filter (\<lambda>kv. fst kv \<noteq> k) xs"

definition change_table :: "string \<Rightarrow> (Table \<Rightarrow> Table) \<Rightarrow> Schema \<Rightarrow> Schema" where
  "change_table t f s = s\<lparr>s_tables := map (\<lambda>(k, tb). (k, if k = t then f tb else tb)) (s_tables s)\<rparr>"

definition table_columns :: "string \<Rightarrow> Schema \<Rightarrow> string list" where
  "table_columns t s = (case map_of (s_tables s) t of None \<Rightarrow> [] | Some tb \<Rightarrow> map c_name (t_columns tb))"

definition type_in_use :: "string \<Rightarrow> Schema \<Rightarrow> bool" where
  "type_in_use ty s = (\<exists>kt\<in>set (s_tables s). \<exists>c\<in>set (t_columns (snd kt)). c_type c = EnumType ty)"

definition sql_error :: "string \<Rightarrow> js_error" where
  "sql_error m = JsError ''QueryFailedError'' m"

definition has_table :: "string \<Rightarrow> Schema \<Rightarrow> bool" where
  "has_table t s = (map_of (s_tables s) t \<noteq> None)"

text \<open>A statement either changes the schema or is rejected. Dropping a table drops its indexes and policies,
  dropping a column the indexes over it; a type that a column uses cannot be dropped.\<close>

fun exec_ddl :: "ddl \<Rightarrow> Schema \<Rightarrow> js_error + Schema" where
  "exec_ddl (CreateTypeIfAbsent ty vals) s =
     Inr (if ty \<in> fst ` set (s_types s) then s else s\<lparr>s_types := s_types s @ [(ty, vals)]\<rparr>)"
| "exec_ddl (CreateTable t cols pk) s =
     (if has_table t s then Inl (sql_error (''relation already exists: '' @ t))
      else Inr (s\<lparr>s_tables := s_tables s @
        [(t, \<lparr>t_columns = cols, t_primary = pk, t_rls = False, t_forceRls = False, t_policies = []\<rparr>)]\<rparr>))"
| "exec_ddl (CreateIndex u i t cols) s =
     (if i \<in> fst ` set (s_indexes s) then Inl (sql_error (''relation already exists: '' @ i))
      else if \<not> set cols \<subseteq> set (table_columns t s) then Inl (sql_error (''column does not exist in '' @ t))
      else Inr (s\<lparr>s_indexes := s_indexes s @ [(i, \<lparr>i_table = t, i_columns = cols, i_unique = u\<rparr>)]\<rparr>))"
| "exec_ddl (CreateIndexIfAbsent u i t cols) s =
     (if i \<in> fst ` set (s_indexes s) then Inr s
      else if \<not> set cols \<subseteq> set (table_columns t s) then Inl (sql_error (''column does not exist in '' @ t))
      else Inr (s\<lparr>s_indexes := s_indexes s @ [(i, \<lparr>i_table = t, i_columns = cols, i_unique = u\<rparr>)]\<rparr>))"
| "exec_ddl (AddColumnIfAbsent t c) s =
     (if \<not> has_table t s then Inl (sql_error (''relation does not exist: '' @ t))
      else if c_name c \<in> set (table_columns t s) then Inr s
      else Inr (change_table t (\<lambda>tb. tb\<lparr>t_columns := t_columns tb @ [c]\<rparr>) s))"
| "exec_ddl (DropColumnIfExists t c) s =
     (if \<not> has_table t s then Inl (sql_error (''relation does not exist: '' @ t))
      else Inr (change_table t (\<lambda>tb. tb\<lparr>t_columns := filter (\<lambda>x. c_name x \<noteq> c) (t_columns tb)\<rparr>)
        (s\<lparr>s_indexes := filter (\<lambda>ki. \<not> (i_table (snd ki) = t \<and> c \<in> set (i_columns (snd ki)))) (s_indexes s)\<rparr>)))"
| "exec_ddl (DropIndexIfExists i) s = Inr (s\<lparr>s_indexes := drop_key i (s_indexes s)\<rparr>)"
| "exec_ddl (DropTableIfExists t) s =
     Inr (s\<lparr>s_tables := drop_key t (s_tables s), s_indexes := filter (\<lambda>ki. i_table (snd ki) \<noteq> t) (s_indexes s)\<rparr>)"
| "exec_ddl (DropTypeIfExists ty) s =
     (if type_in_use ty s then Inl (sql_error (''cannot drop type: '' @ ty))
      else Inr (s\<lparr>s_types := drop_key ty (s_types s)\<rparr>))"
| "exec_ddl (RowSecurity t b) s =
     (if has_table t s then Inr (change_table t (\<lambda>tb. tb\<lparr>t_rls := b\<rparr>) s)
      else Inl (sql_error (''relation does not exist: '' @ t)))"
| "exec_ddl (ForceRowSecurity t b) s =
     (if has_table t s then Inr (change_table t (\<lambda>tb. tb\<lparr>t_forceRls := b\<rparr>) s)
      else Inl (sql_error (''relation does not exist: '' @ t)))"
| "exec_ddl (CreatePolicy p t) s =
     (case map_of (s_tables s) t of
        None \<Rightarrow> Inl (sql_error (''relation does not exist: '' @ t))
      | Some tb \<Rightarrow>
          if p \<in> set (t_policies tb) then Inl (sql_error (''policy already exists: '' @ p))
          else Inr (change_table t (\<lambda>tb. tb\<lparr>t_policies := t_policies tb @ [p]\<rparr>) s))"
| "exec_ddl (DropPolicyIfExists p t) s =
     (if has_table t s then Inr (change_table t (\<lambda>tb. tb\<lparr>t_policies := filter (\<lambda>x. x \<noteq> p) (t_policies tb)\<rparr>) s)
      else Inl (sql_error (''relation does not exist: '' @ t)))"

text \<open>The statements of a migration, one after the other; a rejected one ends it, and its transaction is
  rolled back.\<close>

fun run_ddl :: "ddl list \<Rightarrow> Schema \<Rightarrow> js_error + Schema" where
  "run_ddl [] s = Inr s"
| "run_ddl (d # ds) s = (case exec_ddl d s of Inl e \<Rightarrow> Inl e | Inr s' \<Rightarrow> run_ddl ds s')"

section \<open>The migrations\<close>

record Migration =
  mg_name :: string
  mg_up :: "ddl list"
  mg_down :: "ddl list"

abbreviation col :: "string \<Rightarrow> ctype \<Rightarrow> bool \<Rightarrow> string option \<Rightarrow> Column" where
  "col n ty nn d \<equiv> \<lparr>c_name = n, c_type = ty, c_notNull = nn, c_default = d\<rparr>"

definition InitFileTransfers :: Migration where
  "InitFileTransfers = \<lparr>mg_name = ''InitFileTransfers1719800000000'',
     mg_up =
       [CreateTypeIfAbsent ''file_transfers_status_enum'' [''PENDING'', ''PROCESSING'', ''SUCCESS'', ''FAILED''],
        CreateTable ''file_transfers''
          [col ''id'' Uuid True (Some ''uuid_generate_v4()''),
           col ''idempotency_key'' (Varchar 128) True None,
           col ''filename'' (Varchar 1024) True None,
           col ''virtual_path'' (Varchar 2048) True None,
           col ''source_path'' (Varchar 2048) True None,
           col ''object_key'' (Varchar 2048) False None,
           col ''bucket'' (Varchar 255) True None,
           col ''size_bytes'' Bigint True None,
           col ''etag'' (Varchar 255) False None,
           col ''status'' (EnumType ''file_transfers_status_enum'') True (Some ''PENDING''),
           col ''attempts'' Integer True (Some ''0''),
           col ''error_log'' Text False None,
           col ''username'' (Varchar 255) True None,
           col ''protocol'' (Varchar 32) False None,
           col ''session_id'' (Varchar 255) False None,
           col ''created_at'' Timestamptz True (Some ''now()''),
           col ''updated_at'' Timestamptz True (Some ''now()'')]
          [''id''],
        CreateIndex True ''uq_file_transfers_idempotency_key'' ''file_transfers'' [''idempotency_key''],
        CreateIndex False ''idx_file_transfers_status'' ''file_transfers'' [''status'']],
     mg_down =
       [DropIndexIfExists ''idx_file_transfers_status'',
        DropIndexIfExists ''uq_file_transfers_idempotency_key'',
        DropTableIfExists ''file_transfers'',
        DropTypeIfExists ''file_transfers_status_enum'']\<rparr>"

definition AddChecksum :: Migration where
  "AddChecksum = \<lparr>mg_name = ''AddChecksum1719900000000'',
     mg_up = [AddColumnIfAbsent ''file_transfers'' (col ''checksum_sha256'' (Varchar 64) False None)],
     mg_down = [DropColumnIfExists ''file_transfers'' ''checksum_sha256'']\<rparr>"

definition CreateUsers :: Migration where
  "CreateUsers = \<lparr>mg_name = ''CreateUsers1720000000000'',
     mg_up =
       [CreateTable ''users''
          [col ''id'' Uuid True (Some ''uuid_generate_v4()''),
           col ''username'' (Varchar 255) True None,
           col ''password_hash'' (Varchar 255) True None,
           col ''roles'' Text True None,
           col ''created_at'' Timestamptz True (Some ''now()''),
           col ''updated_at'' Timestamptz True (Some ''now()'')]
          [''id''],
        CreateIndex True ''uq_users_username'' ''users'' [''username'']],
     mg_down = [DropIndexIfExists ''uq_users_username'', DropTableIfExists ''users'']\<rparr>"

definition CreateOutbox :: Migration where
  "CreateOutbox = \<lparr>mg_name = ''CreateOutbox1720100000000'',
     mg_up =
       [CreateTypeIfAbsent ''outbox_events_status_enum'' [''PENDING'', ''PUBLISHED''],
        CreateTable ''outbox_events''
          [col ''id'' Uuid True (Some ''uuid_generate_v4()''),
           col ''aggregate_id'' Uuid True None,
           col ''type'' (Varchar 100) True None,
           col ''payload'' Jsonb True None,
           col ''status'' (EnumType ''outbox_events_status_enum'') True (Some ''PENDING''),
           col ''attempts'' Integer True (Some ''0''),
           col ''created_at'' Timestamptz True (Some ''now()''),
           col ''published_at'' Timestamptz False None]
          [''id''],
        CreateIndex False ''idx_outbox_status'' ''outbox_events'' [''status'']],
     mg_down =
       [DropIndexIfExists ''idx_outbox_status'', DropTableIfExists ''outbox_events'',
        DropTypeIfExists ''outbox_events_status_enum'']\<rparr>"

definition AddEncryption :: Migration where
  "AddEncryption = \<lparr>mg_name = ''AddEncryption1720200000000'',
     mg_up =
       [AddColumnIfAbsent ''file_transfers'' (col ''encrypted'' Boolean True (Some ''false'')),
        AddColumnIfAbsent ''file_transfers'' (col ''wrapped_dek'' Text False None)],
     mg_down = [DropColumnIfExists ''file_transfers'' ''wrapped_dek'', DropColumnIfExists ''file_transfers'' ''encrypted'']\<rparr>"

definition AddTenancyRls :: Migration where
  "AddTenancyRls = \<lparr>mg_name = ''AddTenancyRls1720300000000'',
     mg_up =
       [AddColumnIfAbsent ''users'' (col ''tenant_id'' (Varchar 100) True (Some ''default'')),
        AddColumnIfAbsent ''file_transfers'' (col ''tenant_id'' (Varchar 100) True (Some ''default'')),
        CreateIndexIfAbsent False ''idx_file_transfers_tenant'' ''file_transfers'' [''tenant_id''],
        RowSecurity ''file_transfers'' True,
        ForceRowSecurity ''file_transfers'' True,
        CreatePolicy ''tenant_isolation'' ''file_transfers''],
     mg_down =
       [DropPolicyIfExists ''tenant_isolation'' ''file_transfers'',
        ForceRowSecurity ''file_transfers'' False,
        RowSecurity ''file_transfers'' False,
        DropIndexIfExists ''idx_file_transfers_tenant'',
        DropColumnIfExists ''file_transfers'' ''tenant_id'',
        DropColumnIfExists ''users'' ''tenant_id'']\<rparr>"

definition CreateEventSubscriptions :: Migration where
  "CreateEventSubscriptions = \<lparr>mg_name = ''CreateEventSubscriptions1720400000000'',
     mg_up =
       [CreateTable ''event_subscriptions''
          [col ''id'' Uuid True (Some ''uuid_generate_v4()''),
           col ''tenant_id'' (Varchar 100) True None,
           col ''url'' (Varchar 2048) True None,
           col ''events'' Text True None,
           col ''secret'' (Varchar 255) True None,
           col ''active'' Boolean True (Some ''true''),
           col ''created_at'' Timestamptz True (Some ''now()'')]
          [''id''],
        CreateIndex False ''idx_event_subs_tenant'' ''event_subscriptions'' [''tenant_id'']],
     mg_down = [DropIndexIfExists ''idx_event_subs_tenant'', DropTableIfExists ''event_subscriptions'']\<rparr>"

definition CreateTenantUsage :: Migration where
  "CreateTenantUsage = \<lparr>mg_name = ''CreateTenantUsage1720500000000'',
     mg_up =
       [CreateTable ''tenant_usage''
          [col ''tenant_id'' (Varchar 100) True None,
           col ''object_count'' Bigint True (Some ''0''),
           col ''bytes_stored'' Bigint True (Some ''0''),
           col ''updated_at'' Timestamptz True (Some ''now()'')]
          [''tenant_id'']],
     mg_down = [DropTableIfExists ''tenant_usage'']\<rparr>"

definition MIGRATIONS :: "Migration list" where
  "MIGRATIONS =
     [InitFileTransfers, AddChecksum, CreateUsers, CreateOutbox, AddEncryption, AddTenancyRls,
      CreateEventSubscriptions, CreateTenantUsage]"

definition empty_schema :: Schema where
  "empty_schema = \<lparr>s_types = [], s_tables = [], s_indexes = []\<rparr>"

section \<open>The metadata of the entities\<close>

text \<open>An entity: its table, its columns (a generated identifier and the two kinds of date columns have the
  defaults the decorators stand for), its primary key, and the indexes it declares.\<close>

record Entity =
  en_table :: string
  en_columns :: "Column list"
  en_primary :: "string list"
  en_indexes :: "(string \<times> Index) list"

abbreviation generated_id :: Column where
  "generated_id \<equiv> col ''id'' Uuid True (Some ''uuid_generate_v4()'')"

abbreviation date_column :: "string \<Rightarrow> Column" where
  "date_column n \<equiv> col n Timestamptz True (Some ''now()'')"

definition FileTransfer_entity :: Entity where
  "FileTransfer_entity = \<lparr>en_table = ''file_transfers'',
     en_columns =
       [generated_id,
        col ''idempotency_key'' (Varchar 128) True None,
        col ''filename'' (Varchar 1024) True None,
        col ''virtual_path'' (Varchar 2048) True None,
        col ''source_path'' (Varchar 2048) True None,
        col ''object_key'' (Varchar 2048) False None,
        col ''bucket'' (Varchar 255) True None,
        col ''size_bytes'' Bigint True None,
        col ''etag'' (Varchar 255) False None,
        col ''checksum_sha256'' (Varchar 64) False None,
        col ''encrypted'' Boolean True (Some ''false''),
        col ''wrapped_dek'' Text False None,
        col ''status'' (EnumType ''file_transfers_status_enum'') True (Some ''PENDING''),
        col ''attempts'' Integer True (Some ''0''),
        col ''error_log'' Text False None,
        col ''tenant_id'' (Varchar 100) True (Some ''default''),
        col ''username'' (Varchar 255) True None,
        col ''protocol'' (Varchar 32) False None,
        col ''session_id'' (Varchar 255) False None,
        date_column ''created_at'',
        date_column ''updated_at''],
     en_primary = [''id''],
     en_indexes =
       [(''uq_file_transfers_idempotency_key'', \<lparr>i_table = ''file_transfers'', i_columns = [''idempotency_key''], i_unique = True\<rparr>),
        (''idx_file_transfers_status'', \<lparr>i_table = ''file_transfers'', i_columns = [''status''], i_unique = False\<rparr>),
        (''idx_file_transfers_tenant'', \<lparr>i_table = ''file_transfers'', i_columns = [''tenant_id''], i_unique = False\<rparr>)]\<rparr>"

definition OutboxEvent_entity :: Entity where
  "OutboxEvent_entity = \<lparr>en_table = ''outbox_events'',
     en_columns =
       [generated_id,
        col ''aggregate_id'' Uuid True None,
        col ''type'' (Varchar 100) True None,
        col ''payload'' Jsonb True None,
        col ''status'' (EnumType ''outbox_events_status_enum'') True (Some ''PENDING''),
        col ''attempts'' Integer True (Some ''0''),
        date_column ''created_at'',
        col ''published_at'' Timestamptz False None],
     en_primary = [''id''],
     en_indexes = [(''idx_outbox_status'', \<lparr>i_table = ''outbox_events'', i_columns = [''status''], i_unique = False\<rparr>)]\<rparr>"

definition TenantUsage_entity :: Entity where
  "TenantUsage_entity = \<lparr>en_table = ''tenant_usage'',
     en_columns =
       [col ''tenant_id'' (Varchar 100) True None,
        col ''object_count'' Bigint True (Some ''0''),
        col ''bytes_stored'' Bigint True (Some ''0''),
        date_column ''updated_at''],
     en_primary = [''tenant_id''],
     en_indexes = []\<rparr>"

definition EventSubscription_entity :: Entity where
  "EventSubscription_entity = \<lparr>en_table = ''event_subscriptions'',
     en_columns =
       [generated_id,
        col ''tenant_id'' (Varchar 100) True None,
        col ''url'' (Varchar 2048) True None,
        col ''events'' Text True None,
        col ''secret'' (Varchar 255) True None,
        col ''active'' Boolean True (Some ''true''),
        date_column ''created_at''],
     en_primary = [''id''],
     en_indexes = [(''idx_event_subs_tenant'', \<lparr>i_table = ''event_subscriptions'', i_columns = [''tenant_id''], i_unique = False\<rparr>)]\<rparr>"

definition User_entity :: Entity where
  "User_entity = \<lparr>en_table = ''users'',
     en_columns =
       [generated_id,
        col ''username'' (Varchar 255) True None,
        col ''password_hash'' (Varchar 255) True None,
        col ''tenant_id'' (Varchar 100) True (Some ''default''),
        col ''roles'' Text True None,
        date_column ''created_at'',
        date_column ''updated_at''],
     en_primary = [''id''],
     en_indexes = [(''uq_users_username'', \<lparr>i_table = ''users'', i_columns = [''username''], i_unique = True\<rparr>)]\<rparr>"

definition ENTITIES :: "Entity list" where
  "ENTITIES = [FileTransfer_entity, OutboxEvent_entity, TenantUsage_entity, EventSubscription_entity, User_entity]"

section \<open>Properties\<close>

definition same_elements :: "'a list \<Rightarrow> 'a list \<Rightarrow> bool" where
  "same_elements xs ys \<longleftrightarrow> set xs = set ys \<and> distinct xs \<and> distinct ys"

text \<open>A schema serves an entity when its table has exactly the entity's columns with their types, nullability
  and defaults, its primary key, and exactly the indexes declared.\<close>

definition serves :: "Schema \<Rightarrow> Entity \<Rightarrow> bool" where
  "serves s e =
     (case map_of (s_tables s) (en_table e) of
        None \<Rightarrow> False
      | Some tb \<Rightarrow> same_elements (t_columns tb) (en_columns e) \<and> t_primary tb = en_primary e \<and>
          same_elements (filter (\<lambda>ki. i_table (snd ki) = en_table e) (s_indexes s)) (en_indexes e))"

fun up_all :: "Migration list \<Rightarrow> Schema \<Rightarrow> js_error + Schema" where
  "up_all [] s = Inr s"
| "up_all (m # ms) s = (case run_ddl (mg_up m) s of Inl e \<Rightarrow> Inl e | Inr s' \<Rightarrow> up_all ms s')"

fun down_all :: "Migration list \<Rightarrow> Schema \<Rightarrow> js_error + Schema" where
  "down_all [] s = Inr s"
| "down_all (m # ms) s = (case run_ddl (mg_down m) s of Inl e \<Rightarrow> Inl e | Inr s' \<Rightarrow> down_all ms s')"

subsection \<open>Statements that can be undone\<close>

fun inverse_ddl :: "ddl \<Rightarrow> ddl" where
  "inverse_ddl (CreateTypeIfAbsent ty vals) = DropTypeIfExists ty"
| "inverse_ddl (CreateTable t cols pk) = DropTableIfExists t"
| "inverse_ddl (CreateIndex u i t cols) = DropIndexIfExists i"
| "inverse_ddl (CreateIndexIfAbsent u i t cols) = DropIndexIfExists i"
| "inverse_ddl (AddColumnIfAbsent t c) = DropColumnIfExists t (c_name c)"
| "inverse_ddl (RowSecurity t b) = RowSecurity t (\<not> b)"
| "inverse_ddl (ForceRowSecurity t b) = ForceRowSecurity t (\<not> b)"
| "inverse_ddl (CreatePolicy p t) = DropPolicyIfExists p t"
| "inverse_ddl d = d"

text \<open>The statement adds something that was not there before.\<close>

fun adds :: "ddl \<Rightarrow> Schema \<Rightarrow> bool" where
  "adds (CreateTypeIfAbsent ty vals) s = (ty \<notin> fst ` set (s_types s) \<and> \<not> type_in_use ty s)"
| "adds (CreateTable t cols pk) s =
     (t \<notin> fst ` set (s_tables s) \<and> (\<forall>ki\<in>set (s_indexes s). i_table (snd ki) \<noteq> t))"
| "adds (CreateIndex u i t cols) s = (i \<notin> fst ` set (s_indexes s))"
| "adds (CreateIndexIfAbsent u i t cols) s = (i \<notin> fst ` set (s_indexes s))"
| "adds (AddColumnIfAbsent t c) s =
     ((\<forall>kt\<in>set (s_tables s). fst kt = t \<longrightarrow> c_name c \<notin> c_name ` set (t_columns (snd kt))) \<and>
      (\<forall>ki\<in>set (s_indexes s). \<not> (i_table (snd ki) = t \<and> c_name c \<in> set (i_columns (snd ki)))))"
| "adds (RowSecurity t b) s = (\<forall>kt\<in>set (s_tables s). fst kt = t \<longrightarrow> t_rls (snd kt) = (\<not> b))"
| "adds (ForceRowSecurity t b) s = (\<forall>kt\<in>set (s_tables s). fst kt = t \<longrightarrow> t_forceRls (snd kt) = (\<not> b))"
| "adds (CreatePolicy p t) s = (\<forall>kt\<in>set (s_tables s). fst kt = t \<longrightarrow> p \<notin> set (t_policies (snd kt)))"
| "adds d s = False"

lemma drop_key_fresh: "k \<notin> fst ` set xs \<Longrightarrow> drop_key k (xs @ [(k, v)]) = xs"
  by (auto simp: drop_key_def filter_id_conv)

lemma has_table_iff: "has_table t s \<longleftrightarrow> t \<in> fst ` set (s_tables s)"
  by (simp add: has_table_def map_of_eq_None_iff)

lemma has_change_table [simp]: "has_table t (change_table u f s) = has_table t s"
  by (force simp: has_table_iff change_table_def image_iff)

lemma change_table_undo:
  assumes "\<forall>kt\<in>set (s_tables s). fst kt = t \<longrightarrow> f (g (snd kt)) = snd kt"
  shows "change_table t f (change_table t g s) = s"
proof -
  have "map (\<lambda>(k, tb). (k, if k = t then f tb else tb)) (map (\<lambda>(k, tb). (k, if k = t then g tb else tb)) (s_tables s)) = s_tables s"
    unfolding map_map by (rule map_idI) (use assms in auto)
  then show ?thesis by (simp only: change_table_def Schema.simps) simp
qed

lemma change_table_indexes [simp]: "s_indexes (change_table t f s) = s_indexes s"
  by (simp add: change_table_def)

lemma change_table_update: "(change_table t f s)\<lparr>s_indexes := x\<rparr> = change_table t f (s\<lparr>s_indexes := x\<rparr>)"
  by (simp add: change_table_def)

lemma table_columns_in: "has_table t s \<Longrightarrow> \<exists>kt\<in>set (s_tables s). fst kt = t \<and> table_columns t s = map c_name (t_columns (snd kt))"
proof -
  assume "has_table t s"
  then obtain tb where tb: "map_of (s_tables s) t = Some tb" by (auto simp: has_table_def)
  then have "(t, tb) \<in> set (s_tables s)" by (rule map_of_SomeD)
  with tb show ?thesis by (intro bexI[of _ "(t, tb)"]) (simp_all add: table_columns_def)
qed

lemma remove_added_column:
  assumes "c_name c \<notin> c_name ` set (t_columns tb)"
  shows "tb\<lparr>t_columns := filter (\<lambda>x. c_name x \<noteq> c_name c) (t_columns tb @ [c])\<rparr> = tb"
proof -
  have "filter (\<lambda>x. c_name x \<noteq> c_name c) (t_columns tb) = t_columns tb"
    unfolding filter_id_conv using assms by (metis image_eqI)
  then show ?thesis by simp
qed

lemma remove_added_policy:
  assumes "p \<notin> set (t_policies tb)"
  shows "tb\<lparr>t_policies := filter (\<lambda>x. x \<noteq> p) (t_policies tb @ [p])\<rparr> = tb"
proof -
  have "filter (\<lambda>x. x \<noteq> p) (t_policies tb) = t_policies tb"
    unfolding filter_id_conv using assms by metis
  then show ?thesis by simp
qed

lemma exec_inverse:
  assumes "exec_ddl d s = Inr s'" "adds d s"
  shows "exec_ddl (inverse_ddl d) s' = Inr s"
proof (cases d)
  case (CreateTypeIfAbsent ty vals)
  with assms show ?thesis by (auto simp: drop_key_fresh type_in_use_def)
next
  case (CreateTable t cols pk)
  with assms show ?thesis by (auto simp: drop_key_fresh filter_id_conv split: if_splits)
next
  case (CreateIndex u i t cols)
  with assms show ?thesis by (auto simp: drop_key_fresh split: if_splits)
next
  case (CreateIndexIfAbsent u i t cols)
  with assms show ?thesis by (auto simp: drop_key_fresh split: if_splits)
next
  case (AddColumnIfAbsent t c)
  then have t: "has_table t s" using assms(1) by (auto split: if_splits)
  have "c_name c \<notin> set (table_columns t s)" using table_columns_in[OF t] assms(2) AddColumnIfAbsent by auto
  then have s': "s' = change_table t (\<lambda>tb. tb\<lparr>t_columns := t_columns tb @ [c]\<rparr>) s"
    using assms(1) AddColumnIfAbsent t by simp
  have "filter (\<lambda>ki. \<not> (i_table (snd ki) = t \<and> c_name c \<in> set (i_columns (snd ki)))) (s_indexes s) = s_indexes s"
    using assms(2) AddColumnIfAbsent by (simp add: filter_id_conv)
  moreover have "change_table t (\<lambda>tb. tb\<lparr>t_columns := filter (\<lambda>x. c_name x \<noteq> c_name c) (t_columns tb)\<rparr>)
      (change_table t (\<lambda>tb. tb\<lparr>t_columns := t_columns tb @ [c]\<rparr>) s) = s"
    by (rule change_table_undo) (use assms(2) remove_added_column[of c] AddColumnIfAbsent in \<open>simp, blast\<close>)
  ultimately show ?thesis using AddColumnIfAbsent t by (simp add: s' change_table_update)
next
  case (RowSecurity t b)
  with assms show ?thesis by (auto simp: change_table_undo split: if_splits)
next
  case (ForceRowSecurity t b)
  with assms show ?thesis by (auto simp: change_table_undo split: if_splits)
next
  case (CreatePolicy p t)
  then have t: "has_table t s" using assms(1) by (auto simp: has_table_def split: option.splits)
  have "change_table t (\<lambda>tb. tb\<lparr>t_policies := filter (\<lambda>x. x \<noteq> p) (t_policies tb)\<rparr>)
      (change_table t (\<lambda>tb. tb\<lparr>t_policies := t_policies tb @ [p]\<rparr>) s) = s"
    by (rule change_table_undo) (use assms(2) remove_added_policy[of p] CreatePolicy in \<open>simp, blast\<close>)
  with assms(1) CreatePolicy t show ?thesis by (auto split: option.splits if_splits)
qed (use assms(2) in simp_all)

text \<open>A run of statements that each add something.\<close>

fun adds_all :: "ddl list \<Rightarrow> Schema \<Rightarrow> bool" where
  "adds_all [] s = True"
| "adds_all (d # ds) s = (adds d s \<and> (case exec_ddl d s of Inl e \<Rightarrow> False | Inr s' \<Rightarrow> adds_all ds s'))"

lemma run_ddl_append: "run_ddl (xs @ ys) s = (case run_ddl xs s of Inl e \<Rightarrow> Inl e | Inr s' \<Rightarrow> run_ddl ys s')"
  by (induction xs arbitrary: s) (auto split: sum.split)

lemma adds_all_append:
  "adds_all (xs @ ys) s \<longleftrightarrow> adds_all xs s \<and> (case run_ddl xs s of Inl e \<Rightarrow> False | Inr s' \<Rightarrow> adds_all ys s')"
  by (induction xs arbitrary: s) (auto split: sum.split)

lemma run_inverse: "adds_all ds s \<Longrightarrow> \<exists>s'. run_ddl ds s = Inr s' \<and> run_ddl (rev (map inverse_ddl ds)) s' = Inr s"
proof (induction ds arbitrary: s)
  case (Cons d ds)
  then obtain s1 where s1: "exec_ddl d s = Inr s1" "adds d s" "adds_all ds s1" by (auto split: sum.splits)
  from Cons.IH[OF s1(3)] obtain s' where "run_ddl ds s1 = Inr s'" "run_ddl (rev (map inverse_ddl ds)) s' = Inr s1" by blast
  with s1 exec_inverse[OF s1(1,2)] show ?case by (simp add: run_ddl_append)
qed simp

lemma downs_are_inverses: "list_all (\<lambda>m. mg_down m = rev (map inverse_ddl (mg_up m))) MIGRATIONS"
  by (simp add: MIGRATIONS_def InitFileTransfers_def AddChecksum_def CreateUsers_def CreateOutbox_def AddEncryption_def
      AddTenancyRls_def CreateEventSubscriptions_def CreateTenantUsage_def)

lemma up_all_run: "up_all ms s = run_ddl (concat (map mg_up ms)) s"
  by (induction ms arbitrary: s) (simp_all add: run_ddl_append split: sum.split)

lemma down_all_run: "down_all ms s = run_ddl (concat (map mg_down ms)) s"
  by (induction ms arbitrary: s) (simp_all add: run_ddl_append split: sum.split)

lemma concat_inverse:
  "list_all (\<lambda>m. mg_down m = rev (map inverse_ddl (mg_up m))) ms \<Longrightarrow>
     concat (map mg_down (rev ms)) = rev (map inverse_ddl (concat (map mg_up ms)))"
  by (induction ms) simp_all

lemma migrations_add: "adds_all (concat (map mg_up MIGRATIONS)) empty_schema"
  by code_simp

lemma reversible_prefix:
  "\<exists>s. up_all (take n MIGRATIONS) empty_schema = Inr s \<and> down_all (rev (take n MIGRATIONS)) s = Inr empty_schema"
proof -
  have "concat (map mg_up MIGRATIONS) = concat (map mg_up (take n MIGRATIONS)) @ concat (map mg_up (drop n MIGRATIONS))"
    by (metis append_take_drop_id concat_append map_append)
  with migrations_add have "adds_all (concat (map mg_up (take n MIGRATIONS))) empty_schema" by (simp add: adds_all_append)
  from run_inverse[OF this] obtain s where
    s: "run_ddl (concat (map mg_up (take n MIGRATIONS))) empty_schema = Inr s"
      "run_ddl (rev (map inverse_ddl (concat (map mg_up (take n MIGRATIONS))))) s = Inr empty_schema" by blast
  have "list_all (\<lambda>m. mg_down m = rev (map inverse_ddl (mg_up m))) (take n MIGRATIONS)"
    using downs_are_inverses by (metis append_take_drop_id list_all_append)
  with s show ?thesis by (simp only: up_all_run down_all_run concat_inverse) simp
qed

definition secured :: "Schema \<Rightarrow> bool" where
  "secured s = (case map_of (s_tables s) ''file_transfers'' of
     None \<Rightarrow> False | Some tb \<Rightarrow> t_rls tb \<and> t_forceRls tb \<and> t_policies tb = [''tenant_isolation''])"

definition fits :: "js_error + Schema \<Rightarrow> bool" where
  "fits r = (case r of Inl e \<Rightarrow> False | Inr s \<Rightarrow> list_all (serves s) ENTITIES \<and> secured s)"

lemma migrated_fits: "fits (up_all MIGRATIONS empty_schema)"
  by code_simp


end
