(* ===== verification/Bootstrap.thy ===== *)
theory Bootstrap
  imports Environment
begin

text \<open>
  What the start-up hands to the libraries: the options of the S3 client, of TypeORM (at run time and in the
  migration command), of the token module and the token strategy, of the queue connection, the rate limit,
  the request log and the HTTP server, and the tracing SDK. Each is the value that the source builds from the
  configuration or from the process environment; what the libraries do with it is not modelled.
\<close>

section \<open>S3 client\<close>

record 's S3ClientConfig =
  sc_region :: 's
  sc_endpoint :: "string option"
  sc_forcePathStyle :: bool
  sc_accessKeyId :: 's
  sc_secretAccessKey :: 's

definition s3ClientProvider :: "('n, 's) S3Section \<Rightarrow> 's S3ClientConfig" where
  "s3ClientProvider s3 =
     \<lparr>sc_region = s3_region s3, sc_endpoint = s3_endpoint s3, sc_forcePathStyle = s3_forcePathStyle s3,
      sc_accessKeyId = s3_accessKeyId s3, sc_secretAccessKey = s3_secretAccessKey s3\<rparr>"

section \<open>Database connection\<close>

text \<open>The options of a TypeORM connection. The two globs are kept as the arguments of \<^verbatim>\<open>path.join\<close>.\<close>

record 's DataSourceOptions =
  ds_type :: string
  ds_host :: 's
  ds_port :: js_number
  ds_username :: 's
  ds_password :: 's
  ds_database :: 's
  ds_entities :: "string list list"
  ds_migrations :: "string list list"
  ds_synchronize :: bool
  ds_logging :: bool

record 's TypeOrmModuleOptions = "'s DataSourceOptions" +
  to_autoLoadEntities :: bool
  to_retryAttempts :: nat
  to_retryDelay :: nat

definition dataSourceOptions :: "string \<Rightarrow> (string \<Rightarrow> string option) \<Rightarrow> string DataSourceOptions" where
  "dataSourceOptions dirname env = \<lparr>
     ds_type = ''postgres'',
     ds_host = or_default (env ''POSTGRES_HOST'') ''localhost'',
     ds_port = (case env ''POSTGRES_PORT'' of None \<Rightarrow> Fin 5432 | Some s \<Rightarrow> js_Number s),
     ds_username = (if truthy (env ''APP_DB_USER'') then the (env ''APP_DB_USER'')
        else if truthy (env ''POSTGRES_USER'') then the (env ''POSTGRES_USER'') else ''syncbridge''),
     ds_password = or_default (env ''POSTGRES_PASSWORD'') ''syncbridge'',
     ds_database = or_default (env ''POSTGRES_DB'') ''syncbridge'',
     ds_entities = [[dirname, ''..'', ''**'', ''*.entity.{ts,js}'']],
     ds_migrations = [[dirname, ''migrations'', ''*.{ts,js}'']],
     ds_synchronize = False,
     ds_logging = (toLowerCase (or_default (env ''DB_LOGGING'') []) \<in> set [''true'', ''1'', ''yes''])\<rparr>"

text \<open>The factory of \<^verbatim>\<open>DatabaseModule\<close>; \<open>shared\<close> are the options above, as the process read them at its start.\<close>

definition typeOrmOptions ::
    "string DataSourceOptions \<Rightarrow> (js_number, string option) DatabaseSection \<Rightarrow> string option TypeOrmModuleOptions" where
  "typeOrmOptions shared db = \<lparr>
     ds_type = ''postgres'',
     ds_host = db_host db, ds_port = db_port db, ds_username = db_username db, ds_password = db_password db,
     ds_database = db_database db,
     ds_entities = ds_entities shared, ds_migrations = ds_migrations shared,
     ds_synchronize = db_synchronize db, ds_logging = db_logging db,
     to_autoLoadEntities = True, to_retryAttempts = 10, to_retryDelay = 3000\<rparr>"

section \<open>Tokens\<close>

record 's JwtModuleOptions =
  jm_secret :: 's
  jm_expiresIn :: string

record 's JwtStrategyOptions =
  js_ignoreExpiration :: bool
  js_secretOrKey :: 's

definition jwtModuleOptions :: "'s AuthSection \<Rightarrow> 's JwtModuleOptions" where
  "jwtModuleOptions auth = \<lparr>jm_secret = auth_jwtSecret auth, jm_expiresIn = auth_jwtExpiresIn auth\<rparr>"

definition jwtStrategyOptions :: "'s AuthSection \<Rightarrow> 's JwtStrategyOptions" where
  "jwtStrategyOptions auth = \<lparr>js_ignoreExpiration = False, js_secretOrKey = auth_jwtSecret auth\<rparr>"

section \<open>The application module\<close>

text \<open>A word between two quotes of one kind.\<close>

definition quoted :: "char \<Rightarrow> string \<Rightarrow> string" where
  "quoted q s = [q] @ s @ [q]"

record PinoOptions =
  po_level :: string
  po_pretty :: bool
  po_redact :: "string list"
  po_autoLogging :: bool
  po_quietReqLogger :: bool
  po_exclude :: "(string \<times> string) list"

definition pinoOptions :: "('n, 's) AppSection \<Rightarrow> PinoOptions" where
  "pinoOptions app = \<lparr>
     po_level = app_logLevel app,
     po_pretty = app_logPretty app,
     po_redact = [''req.headers.authorization'', ''req.headers['' @ quoted (CHR 0x22) ''x-admin-token'' @ '']'',
        ''req.headers['' @ quoted (CHR 0x22) ''x-syncbridge-token'' @ '']'', ''req.query.token''],
     po_autoLogging = True,
     po_quietReqLogger = True,
     po_exclude = [(''GET'', ''health''), (''GET'', ''health/live''), (''GET'', ''health/ready''), (''GET'', ''metrics'')]\<rparr>"

text \<open>The connection of the queues is the Redis section itself; one rate limit holds for every client.\<close>

definition bullConnection :: "('n, 's) RedisSection \<Rightarrow> 's \<times> 'n \<times> string option" where
  "bullConnection redis = (redis_host redis, redis_port redis, redis_password redis)"

definition throttlers :: "'n ThrottleSection \<Rightarrow> ('n \<times> 'n) list" where
  "throttlers t = [(throttle_ttlMs t, throttle_limit t)]"

section \<open>The HTTP server\<close>

definition cspDirectives :: "(string \<times> string list) list" where
  "cspDirectives =
     (let self = quoted (CHR 0x27) ''self''; unsafeInline = quoted (CHR 0x27) ''unsafe-inline'' in
      [(''defaultSrc'', [self]),
       (''scriptSrc'', [self, unsafeInline]),
       (''styleSrc'', [self, unsafeInline]),
       (''imgSrc'', [self, ''data:'']),
       (''connectSrc'', [self])])"

record ValidationPipeOptions =
  vp_whitelist :: bool
  vp_forbidNonWhitelisted :: bool
  vp_transform :: bool
  vp_enableImplicitConversion :: bool

text \<open>The server: the limits of the JSON and of the form parser, the global pipe, and the address and port.\<close>

record 'n ServerOptions =
  so_bodyParser :: bool
  so_csp :: "(string \<times> string list) list"
  so_jsonLimit :: 'n
  so_urlencodedLimit :: 'n
  so_pipe :: ValidationPipeOptions
  so_shutdownHooks :: bool
  so_port :: 'n
  so_host :: string

definition listenAddress :: "('n, 's) AppSection \<Rightarrow> 'n \<times> string" where
  "listenAddress app = (let port = app_port app in (port, ''0.0.0.0''))"

definition bootstrap :: "('n, 's) AppSection \<Rightarrow> 'n ServerOptions" where
  "bootstrap app =
     (let maxPayload = app_maxPayloadBytes app in
      \<lparr>so_bodyParser = False, so_csp = cspDirectives, so_jsonLimit = maxPayload, so_urlencodedLimit = maxPayload,
       so_pipe = \<lparr>vp_whitelist = True, vp_forbidNonWhitelisted = False, vp_transform = True,
         vp_enableImplicitConversion = True\<rparr>,
       so_shutdownHooks = True, so_port = fst (listenAddress app), so_host = snd (listenAddress app)\<rparr>)"

section \<open>Tracing\<close>

definition tracing_isEnabled :: "(string \<Rightarrow> string option) \<Rightarrow> bool" where
  "tracing_isEnabled env \<longleftrightarrow>
     toLowerCase (or_default (env ''OTEL_ENABLED'') []) \<in> set [''true'', ''1'', ''yes'', ''on'']"

record NodeSdkOptions =
  otel_serviceName :: string
  otel_url :: string
  otel_fsEnabled :: bool

text \<open>The SDK that is started, if any, and the signals on which it is shut down.\<close>

definition tracing :: "(string \<Rightarrow> string option) \<Rightarrow> (NodeSdkOptions \<times> string list) option" where
  "tracing env =
     (if tracing_isEnabled env then
        let endpoint = or_default (env ''OTEL_EXPORTER_OTLP_ENDPOINT'') ''http://jaeger:4318'' in
        Some (\<lparr>otel_serviceName = or_default (env ''OTEL_SERVICE_NAME'') ''s3-syncbridge'',
               otel_url = endpoint @ ''/v1/traces'', otel_fsEnabled = False\<rparr>, [''SIGTERM'', ''SIGINT''])
      else None)"

section \<open>Lemmas\<close>

definition DB_VARS :: "string list" where
  "DB_VARS = [''POSTGRES_HOST'', ''POSTGRES_PORT'', ''APP_DB_USER'', ''POSTGRES_USER'', ''POSTGRES_PASSWORD'', ''POSTGRES_DB'',
     ''DB_LOGGING'']"

lemma validated_accepts:
  assumes "validateEnv message readFile penv config = (penv', Inr inst)"
    and "\<forall>kv\<in>set config. map_of penv' (fst kv) = Some (snd kv)"
  shows "validation_errors (map_of penv') = []"
proof -
  have "validation_errors (map_of (foldl put_key penv' config)) = []"
    using assms(1) by (auto simp: validateEnv_def Let_def split: if_splits)
  then show ?thesis using overlay_agrees[OF assms(2)] by simp
qed

lemma logging_words:
  "config_bool (env ''DB_LOGGING'') False \<longleftrightarrow>
     ds_logging (dataSourceOptions dirname env) \<or> map_option toLowerCase (env ''DB_LOGGING'') = Some ''on''"
  by (auto simp: config_bool_def dataSourceOptions_def or_default_def TRUE_WORDS_def toLowerCase_def split: option.splits)

lemma port_agrees:
  assumes "validation_errors plain = []"
  shows "config_int (plain ''POSTGRES_PORT'') 5432 = ds_port (dataSourceOptions dirname plain)"
proof -
  have "violated plain (property [TypeNumber, IsInt, Min 1, Max 65535] ''POSTGRES_PORT'' (numv 5432)) = []"
    using assms unfolding no_errors_iff by (rule bspec) (simp add: env_tables)
  then show ?thesis
    by (auto simp: violated_def prop_value_def convert_def config_int_def dataSourceOptions_def is_finite_def int_of_num_eq_Some
        split: option.splits if_splits)
qed

lemma configuration_database:
  "cfg_database (configuration env) = \<lparr>
     db_host = env ''POSTGRES_HOST'',
     db_port = config_int (env ''POSTGRES_PORT'') 5432,
     db_username = (if truthy (env ''APP_DB_USER'') then env ''APP_DB_USER'' else env ''POSTGRES_USER''),
     db_password = env ''POSTGRES_PASSWORD'',
     db_database = env ''POSTGRES_DB'',
     db_synchronize = config_bool (env ''DB_SYNCHRONIZE'') False,
     db_logging = config_bool (env ''DB_LOGGING'') False\<rparr>"
  by (simp only: configuration_def AppConfig.simps)

section \<open>Properties\<close>

text \<open>Migrations run against the database the service uses: when the environment is accepted and no secret
  file changes a database variable, the migration command and the service connect to the same host, port and
  database as the same user with the same password, and see the same entities and migrations; the statement
  log differs exactly when the variable says on, a word only the service knows. The service signs its tokens
  with the secret it checks them with.\<close>

theorem migrations_connect_like_service:
  fixes penv :: env and dirname :: string
  assumes "validateEnv message readFile penv config = (penv', Inr inst)"
    and "\<forall>kv\<in>set config. map_of penv' (fst kv) = Some (snd kv)"
    and "\<forall>x\<in>set DB_VARS. map_of penv' x = map_of penv x"
  defines "cli \<equiv> dataSourceOptions dirname (map_of penv)"
    and "cfg \<equiv> configuration (map_of penv')"
  shows "let rt = typeOrmOptions cli (cfg_database cfg) in
    ds_type rt = ds_type cli \<and> ds_host rt = Some (ds_host cli) \<and> ds_port rt = ds_port cli \<and>
    ds_username rt = Some (ds_username cli) \<and> ds_password rt = Some (ds_password cli) \<and>
    ds_database rt = Some (ds_database cli) \<and> ds_entities rt = ds_entities cli \<and> ds_migrations rt = ds_migrations cli \<and>
    (ds_logging rt \<noteq> ds_logging cli \<longleftrightarrow> map_option toLowerCase (map_of penv ''DB_LOGGING'') = Some ''on'') \<and>
    jm_secret (jwtModuleOptions (cfg_auth cfg)) = js_secretOrKey (jwtStrategyOptions (cfg_auth cfg))"
proof -
  note ok = validated_accepts[OF assms(1,2)]
  have eq: "map_of penv x = map_of penv' x" if "x \<in> set DB_VARS" for x using assms(3) that by simp
  note eqs = eq[of "''POSTGRES_HOST''"] eq[of "''POSTGRES_PORT''"] eq[of "''APP_DB_USER''"] eq[of "''POSTGRES_USER''"]
    eq[of "''POSTGRES_PASSWORD''"] eq[of "''POSTGRES_DB''"] eq[of "''DB_LOGGING''"]
  have cli: "cli = dataSourceOptions dirname (map_of penv')"
    using eqs by (simp add: cli_def dataSourceOptions_def DB_VARS_def)
  have str: "\<exists>s. map_of penv' x = Some s \<and> s \<noteq> []" if "x \<in> set [''POSTGRES_HOST'', ''POSTGRES_USER'', ''POSTGRES_PASSWORD'', ''POSTGRES_DB'']" for x
    by (rule validated_string[OF ok]) (use that in \<open>auto simp: env_tables\<close>)
  have opts: "ds_host cli = the (map_of penv' ''POSTGRES_HOST'')" "ds_password cli = the (map_of penv' ''POSTGRES_PASSWORD'')"
    "ds_database cli = the (map_of penv' ''POSTGRES_DB'')"
    "Some (ds_username cli) = (if truthy (map_of penv' ''APP_DB_USER'') then map_of penv' ''APP_DB_USER'' else map_of penv' ''POSTGRES_USER'')"
    using str[of "''POSTGRES_HOST''"] str[of "''POSTGRES_USER''"] str[of "''POSTGRES_PASSWORD''"] str[of "''POSTGRES_DB''"]
    by (auto simp: cli dataSourceOptions_def or_default_def truthy_def)
  have log: "ds_logging cli \<Longrightarrow> map_option toLowerCase (map_of penv' ''DB_LOGGING'') \<noteq> Some ''on''"
    by (auto simp: cli dataSourceOptions_def or_default_def)
  have rest: "map_of penv' ''POSTGRES_HOST'' \<noteq> None" "map_of penv' ''POSTGRES_PASSWORD'' \<noteq> None" "map_of penv' ''POSTGRES_DB'' \<noteq> None"
    using str[of "''POSTGRES_HOST''"] str[of "''POSTGRES_PASSWORD''"] str[of "''POSTGRES_DB''"] by auto
  have db: "ds_host (typeOrmOptions cli (cfg_database cfg)) = map_of penv' ''POSTGRES_HOST''"
    "ds_port (typeOrmOptions cli (cfg_database cfg)) = ds_port cli"
    "ds_username (typeOrmOptions cli (cfg_database cfg)) = Some (ds_username cli)"
    "ds_password (typeOrmOptions cli (cfg_database cfg)) = map_of penv' ''POSTGRES_PASSWORD''"
    "ds_database (typeOrmOptions cli (cfg_database cfg)) = map_of penv' ''POSTGRES_DB''"
    "ds_logging (typeOrmOptions cli (cfg_database cfg)) = config_bool (map_of penv' ''DB_LOGGING'') False"
    using opts(4) by (simp_all add: typeOrmOptions_def cfg_def configuration_database port_agrees[OF ok, of dirname] cli split: if_splits)
  have logs: "config_bool (map_of penv' ''DB_LOGGING'') False \<noteq> ds_logging cli \<longleftrightarrow>
      map_option toLowerCase (map_of penv ''DB_LOGGING'') = Some ''on''"
    using logging_words[of "map_of penv'" dirname] log eqs(7) unfolding cli by (auto simp: DB_VARS_def)
  show ?thesis
    unfolding Let_def db logs opts(1-3) using rest
    by (simp add: jwtModuleOptions_def jwtStrategyOptions_def) (simp add: typeOrmOptions_def cli dataSourceOptions_def)
qed

theorem migrations_connect_like_service_witness:
  "ds_password (typeOrmOptions (dataSourceOptions ''/app/dist/database'' (map_of env1)) (cfg_database (configuration (map_of env1_read)))) =
     Some (ds_password (dataSourceOptions ''/app/dist/database'' (map_of env1))) \<and>
   ds_password (dataSourceOptions ''/app/dist/database'' (map_of env1)) = ''pw''"
proof -
  have "distinct (map fst env1_read)" by code_simp
  then have agree: "\<forall>kv\<in>set env1. map_of env1_read (fst kv) = Some (snd kv)"
    by (intro ballI map_of_is_SomeI) (auto simp: env1_read_def)
  have run: "validateEnv (\<lambda>p d. p) files1 env1 env1 =
      (env1_read, Inr (map (\<lambda>v. (ev_name v, prop_value (map_of env1_read) v)) EnvironmentVariables))"
    by (simp add: validateEnv_def env1_resolved overlay_agrees[OF agree] env1_valid Let_def)
  have same: "\<forall>x\<in>set DB_VARS. map_of env1_read x = map_of env1 x" by code_simp
  have pw: "ds_password (dataSourceOptions ''/app/dist/database'' (map_of env1)) = ''pw''"
    by (simp add: dataSourceOptions_def env1_def or_default_def)
  with migrations_connect_like_service[OF run agree same, of "''/app/dist/database''"] show ?thesis
    by (simp only: Let_def)
qed

text \<open>The service resolves secret files, the migration command does not: with the password given as a file, as
  the secrets overlay of the compose file gives it, the start-up is accepted and the service connects with
  the password of the file, while the migrations that the container runs first connect with the default one.\<close>

definition env_secret :: env where
  "env_secret = (''POSTGRES_PASSWORD_FILE'', ''/run/secrets/postgres_password'') # (''JWT_SECRET'', ''jwt'') #
     filter (\<lambda>kv. fst kv \<notin> {''POSTGRES_PASSWORD'', ''JWT_SECRET_FILE''}) env1"

definition files_secret :: "string \<Rightarrow> string option" where
  "files_secret p = (if p = ''/run/secrets/postgres_password'' then Some (''real-password'' @ [CHR 0x0A]) else None)"

text \<open>The migration command ignores secret files: in an environment whose database password is given as a
  file, the service's start-up is accepted and it connects with the password in the file, while the migration
  command, which the container runs before the service, connects with the built-in default password.\<close>

theorem migrations_ignore_secret_files:
  "validation_errors (map_of (resolveFileSecrets files_secret env_secret)) = [] \<and>
   ds_password (typeOrmOptions (dataSourceOptions dirname (map_of env_secret))
     (cfg_database (configuration (map_of (resolveFileSecrets files_secret env_secret))))) = Some ''real-password'' \<and>
   ds_password (dataSourceOptions dirname (map_of env_secret)) = ''syncbridge''"
proof -
  have pw: "map_of (resolveFileSecrets files_secret env_secret) ''POSTGRES_PASSWORD'' = Some ''real-password''" by code_simp
  have none: "map_of env_secret ''POSTGRES_PASSWORD'' = None" by code_simp
  have "validation_errors (map_of (resolveFileSecrets files_secret env_secret)) = []" by code_simp
  with pw none show ?thesis
    by (simp add: typeOrmOptions_def configuration_database dataSourceOptions_def or_default_def)
qed

end
