(* ===== verification/Wiring.thy ===== *)
theory Wiring
  imports Config
begin

text \<open>
  The modules of the application and what their classes ask the injector for: every \<^verbatim>\<open>@Module\<close>, the
  parameters of every constructor, the guards of the controllers and the queues of the processors, as data.
  A module sees its own providers, what the modules it imports export, and what global modules export. What the
  modules of the framework's packages provide is a parameter; its documented part is the hypothesis
  \<^verbatim>\<open>framework_documented\<close>.
\<close>

section \<open>Tokens, providers and modules\<close>

text \<open>What can be injected: a class, the repository of an entity, a queue, a metric, or a named symbol.\<close>

datatype token = Cls string | Repo string | Qu string | Metric string | Sym string

text \<open>A provider: a class under its own token, a class under a symbol, a factory with the tokens it is called
  with, or one of the metrics.\<close>

datatype provider =
    UseClass string
  | ProvideClass string string
  | UseFactory string "token list"
  | CounterProvider string "string list"
  | GaugeProvider string
  | HistogramProvider string "rat list"

record JobOptions =
  jo_attempts :: int
  jo_backoffDelay :: int
  jo_removeOnComplete :: int
  jo_removeOnFail :: bool

text \<open>An import: another module of the application, a repository registration, a queue registration with its
  default job options, or a module of a package (with its name as the source configures it).\<close>

datatype import =
    Own string
  | ForFeature "string list"
  | RegisterQueue string "JobOptions option"
  | Package string

record nest_module =
  nm_name :: string
  nm_global :: bool
  nm_imports :: "import list"
  nm_controllers :: "string list"
  nm_providers :: "provider list"
  nm_exports :: "string list"

section \<open>Names of the queues\<close>

definition TRANSFER_QUEUE :: string where
  "TRANSFER_QUEUE = ''file-transfers''"

definition DEAD_LETTER_QUEUE :: string where
  "DEAD_LETTER_QUEUE = ''file-transfers-dlq''"

definition WEBHOOK_DELIVERY_QUEUE :: string where
  "WEBHOOK_DELIVERY_QUEUE = ''webhook-delivery''"

section \<open>Constructors\<close>

definition TenantService_inject :: "token list" where
  "TenantService_inject = [Cls ''ConfigService'']"

definition AuthController_inject :: "token list" where
  "AuthController_inject = [Cls ''AuthService'']"

definition UsersController_inject :: "token list" where
  "UsersController_inject = [Cls ''AuthService'']"

definition JwtStrategy_inject :: "token list" where
  "JwtStrategy_inject = [Cls ''ConfigService'']"

definition AuthService_inject :: "token list" where
  "AuthService_inject = [Repo ''User'', Cls ''JwtService'', Cls ''ConfigService'']"

definition RolesGuard_inject :: "token list" where
  "RolesGuard_inject = [Cls ''Reflector'']"

definition MetricsService_inject :: "token list" where
  "MetricsService_inject = [Metric ''syncbridge_transfers_total'', Metric ''syncbridge_transfer_bytes_total'', Metric ''syncbridge_transfer_duration_seconds'',
      Metric ''syncbridge_transfers_in_flight'', Metric ''syncbridge_dead_letter_total'', Metric ''syncbridge_webhook_deliveries_total'']"

definition CryptoService_inject :: "token list" where
  "CryptoService_inject = [Cls ''ConfigService'']"

definition UsageController_inject :: "token list" where
  "UsageController_inject = [Cls ''QuotaService'']"

definition QuotaService_inject :: "token list" where
  "QuotaService_inject = [Repo ''TenantUsage'', Cls ''ConfigService'']"

definition NotificationService_inject :: "token list" where
  "NotificationService_inject = [Cls ''ConfigService'']"

definition SubscriptionsController_inject :: "token list" where
  "SubscriptionsController_inject = [Cls ''SubscriptionsService'']"

definition EventPublisherService_inject :: "token list" where
  "EventPublisherService_inject = [Repo ''EventSubscription'', Qu WEBHOOK_DELIVERY_QUEUE, Cls ''KafkaProducerService'']"

definition SubscriptionsService_inject :: "token list" where
  "SubscriptionsService_inject = [Repo ''EventSubscription'']"

definition WebhookDeliveryProcessor_inject :: "token list" where
  "WebhookDeliveryProcessor_inject = [Cls ''MetricsService'']"

definition StorageService_inject :: "token list" where
  "StorageService_inject = [Sym ''S3_CLIENT'', Cls ''ConfigService'']"

definition KafkaProducerService_inject :: "token list" where
  "KafkaProducerService_inject = [Cls ''ConfigService'']"

definition RedisHealthIndicator_inject :: "token list" where
  "RedisHealthIndicator_inject = [Qu TRANSFER_QUEUE]"

definition S3HealthIndicator_inject :: "token list" where
  "S3HealthIndicator_inject = [Cls ''StorageService'']"

definition HealthController_inject :: "token list" where
  "HealthController_inject = [Cls ''HealthCheckService'', Cls ''TypeOrmHealthIndicator'', Cls ''S3HealthIndicator'', Cls ''RedisHealthIndicator'']"

definition OutboxService_inject :: "token list" where
  "OutboxService_inject = [Cls ''DataSource'', Qu TRANSFER_QUEUE]"

definition IngestionController_inject :: "token list" where
  "IngestionController_inject = [Cls ''IngestionService'']"

definition DeadLetterProcessor_inject :: "token list" where
  "DeadLetterProcessor_inject = [Cls ''FileTransferRepository'', Cls ''NotificationService'', Cls ''MetricsService'']"

definition RetentionService_inject :: "token list" where
  "RetentionService_inject = [Cls ''FileTransferRepository'', Cls ''ConfigService'']"

definition FileTransferRepository_inject :: "token list" where
  "FileTransferRepository_inject = [Repo ''FileTransfer'']"

definition QuotaStep_inject :: "token list" where
  "QuotaStep_inject = [Cls ''QuotaService'']"

definition ProcessingPipeline_inject :: "token list" where
  "ProcessingPipeline_inject = [Sym ''PROCESSING_STEPS'']"

definition AntivirusStep_inject :: "token list" where
  "AntivirusStep_inject = [Cls ''ConfigService'']"

definition ValidationStep_inject :: "token list" where
  "ValidationStep_inject = [Cls ''ConfigService'']"

definition TransfersController_inject :: "token list" where
  "TransfersController_inject = [Cls ''TransfersService'']"

definition TransfersService_inject :: "token list" where
  "TransfersService_inject = [Cls ''DataSource'', Qu TRANSFER_QUEUE, Cls ''StorageService'', Cls ''CryptoService'']"

definition RoutingService_inject :: "token list" where
  "RoutingService_inject = [Cls ''ConfigService'']"

definition RecoveryService_inject :: "token list" where
  "RecoveryService_inject = [Cls ''FileTransferRepository'', Qu TRANSFER_QUEUE, Cls ''ConfigService'']"

definition IngestionService_inject :: "token list" where
  "IngestionService_inject = [Cls ''OutboxService'', Cls ''TenantService'', Cls ''ConfigService'']"

definition WebhookAuthGuard_inject :: "token list" where
  "WebhookAuthGuard_inject = [Cls ''ConfigService'']"

definition IngestionProcessor_inject :: "token list" where
  "IngestionProcessor_inject = [Cls ''FileTransferRepository'', Cls ''StorageService'', Cls ''ProcessingPipeline'', Cls ''RoutingService'',
      Cls ''CryptoService'', Cls ''EventPublisherService'', Cls ''QuotaService'', Cls ''MetricsService'',
      Qu DEAD_LETTER_QUEUE, Cls ''ConfigService'']"

text \<open>The classes with a constructor; the others (the dashboard's controller, the content-type step and the
  token guard) ask for nothing.\<close>

definition injections :: "(string \<times> token list) list" where
  "injections =
     [(''TenantService'', TenantService_inject),
      (''AuthController'', AuthController_inject),
      (''UsersController'', UsersController_inject),
      (''JwtStrategy'', JwtStrategy_inject),
      (''AuthService'', AuthService_inject),
      (''RolesGuard'', RolesGuard_inject),
      (''MetricsService'', MetricsService_inject),
      (''CryptoService'', CryptoService_inject),
      (''UsageController'', UsageController_inject),
      (''QuotaService'', QuotaService_inject),
      (''NotificationService'', NotificationService_inject),
      (''SubscriptionsController'', SubscriptionsController_inject),
      (''EventPublisherService'', EventPublisherService_inject),
      (''SubscriptionsService'', SubscriptionsService_inject),
      (''WebhookDeliveryProcessor'', WebhookDeliveryProcessor_inject),
      (''StorageService'', StorageService_inject),
      (''KafkaProducerService'', KafkaProducerService_inject),
      (''RedisHealthIndicator'', RedisHealthIndicator_inject),
      (''S3HealthIndicator'', S3HealthIndicator_inject),
      (''HealthController'', HealthController_inject),
      (''OutboxService'', OutboxService_inject),
      (''IngestionController'', IngestionController_inject),
      (''DeadLetterProcessor'', DeadLetterProcessor_inject),
      (''RetentionService'', RetentionService_inject),
      (''FileTransferRepository'', FileTransferRepository_inject),
      (''QuotaStep'', QuotaStep_inject),
      (''ProcessingPipeline'', ProcessingPipeline_inject),
      (''AntivirusStep'', AntivirusStep_inject),
      (''ValidationStep'', ValidationStep_inject),
      (''TransfersController'', TransfersController_inject),
      (''TransfersService'', TransfersService_inject),
      (''RoutingService'', RoutingService_inject),
      (''RecoveryService'', RecoveryService_inject),
      (''IngestionService'', IngestionService_inject),
      (''WebhookAuthGuard'', WebhookAuthGuard_inject),
      (''IngestionProcessor'', IngestionProcessor_inject)]"

definition injected :: "string \<Rightarrow> token list" where
  "injected c = (case map_of injections c of None \<Rightarrow> [] | Some ts \<Rightarrow> ts)"

section \<open>Guards and processors\<close>

definition UsersController_guards :: "string list" where
  "UsersController_guards = [''JwtAuthGuard'', ''RolesGuard'']"

definition UsageController_guards :: "string list" where
  "UsageController_guards = [''JwtAuthGuard'', ''RolesGuard'']"

definition SubscriptionsController_guards :: "string list" where
  "SubscriptionsController_guards = [''JwtAuthGuard'', ''RolesGuard'']"

definition TransfersController_guards :: "string list" where
  "TransfersController_guards = [''JwtAuthGuard'', ''RolesGuard'']"

definition IngestionController_guards :: "string list" where
  "IngestionController_guards = [''WebhookAuthGuard'']"

definition guards_of :: "string \<Rightarrow> string list" where
  "guards_of c = (case map_of [(''UsersController'', UsersController_guards), (''UsageController'', UsageController_guards),
       (''SubscriptionsController'', SubscriptionsController_guards), (''TransfersController'', TransfersController_guards),
       (''IngestionController'', IngestionController_guards)] c of None \<Rightarrow> [] | Some gs \<Rightarrow> gs)"

definition IngestionProcessor_queue :: string where
  "IngestionProcessor_queue = TRANSFER_QUEUE"

definition DeadLetterProcessor_queue :: string where
  "DeadLetterProcessor_queue = DEAD_LETTER_QUEUE"

definition WebhookDeliveryProcessor_queue :: string where
  "WebhookDeliveryProcessor_queue = WEBHOOK_DELIVERY_QUEUE"

definition processors :: "(string \<times> string) list" where
  "processors = [(''IngestionProcessor'', IngestionProcessor_queue), (''DeadLetterProcessor'', DeadLetterProcessor_queue),
     (''WebhookDeliveryProcessor'', WebhookDeliveryProcessor_queue)]"

section \<open>Modules\<close>

definition MetricsModule :: nest_module where
  "MetricsModule = \<lparr>nm_name = ''MetricsModule'', nm_global = True, nm_imports = [Package ''PrometheusModule''], nm_controllers = [],
     nm_providers =
       [UseClass ''MetricsService'',
        CounterProvider ''syncbridge_transfers_total'' [''status''],
        CounterProvider ''syncbridge_transfer_bytes_total'' [],
        HistogramProvider ''syncbridge_transfer_duration_seconds'' [1/20, 1/10, 1/2, 1, 2, 5, 10, 30, 60, 120],
        GaugeProvider ''syncbridge_transfers_in_flight'',
        CounterProvider ''syncbridge_dead_letter_total'' [],
        CounterProvider ''syncbridge_webhook_deliveries_total'' [''status'']],
     nm_exports = [''MetricsService'']\<rparr>"

definition NotificationsModule :: nest_module where
  "NotificationsModule = \<lparr>nm_name = ''NotificationsModule'', nm_global = True, nm_imports = [], nm_controllers = [],
     nm_providers = [UseClass ''NotificationService''], nm_exports = [''NotificationService'']\<rparr>"

definition CryptoModule :: nest_module where
  "CryptoModule = \<lparr>nm_name = ''CryptoModule'', nm_global = True, nm_imports = [], nm_controllers = [],
     nm_providers = [UseClass ''CryptoService''], nm_exports = [''CryptoService'']\<rparr>"

definition TenancyModule :: nest_module where
  "TenancyModule = \<lparr>nm_name = ''TenancyModule'', nm_global = True, nm_imports = [], nm_controllers = [],
     nm_providers = [UseClass ''TenantService''], nm_exports = [''TenantService'']\<rparr>"

definition QuotaModule :: nest_module where
  "QuotaModule = \<lparr>nm_name = ''QuotaModule'', nm_global = True, nm_imports = [ForFeature [''TenantUsage'']],
     nm_controllers = [''UsageController''], nm_providers = [UseClass ''QuotaService''], nm_exports = [''QuotaService'']\<rparr>"

definition KafkaModule :: nest_module where
  "KafkaModule = \<lparr>nm_name = ''KafkaModule'', nm_global = True, nm_imports = [], nm_controllers = [],
     nm_providers = [UseClass ''KafkaProducerService''], nm_exports = [''KafkaProducerService'']\<rparr>"

definition DatabaseModule :: nest_module where
  "DatabaseModule = \<lparr>nm_name = ''DatabaseModule'', nm_global = False, nm_imports = [Package ''TypeOrmModule.forRootAsync''],
     nm_controllers = [], nm_providers = [], nm_exports = []\<rparr>"

definition AuthModule :: nest_module where
  "AuthModule = \<lparr>nm_name = ''AuthModule'', nm_global = False,
     nm_imports = [ForFeature [''User''], Package ''PassportModule'', Package ''JwtModule''],
     nm_controllers = [''AuthController'', ''UsersController''],
     nm_providers = map UseClass [''AuthService'', ''JwtStrategy'', ''RolesGuard''], nm_exports = [''RolesGuard'']\<rparr>"

definition StorageModule :: nest_module where
  "StorageModule = \<lparr>nm_name = ''StorageModule'', nm_global = True, nm_imports = [], nm_controllers = [],
     nm_providers = [UseFactory ''S3_CLIENT'' [Cls ''ConfigService''], UseClass ''StorageService''],
     nm_exports = [''StorageService'']\<rparr>"

definition OutboxModule :: nest_module where
  "OutboxModule = \<lparr>nm_name = ''OutboxModule'', nm_global = False,
     nm_imports = [ForFeature [''OutboxEvent''], RegisterQueue TRANSFER_QUEUE None],
     nm_controllers = [], nm_providers = [UseClass ''OutboxService''], nm_exports = [''OutboxService'']\<rparr>"

definition EventsModule :: nest_module where
  "EventsModule = \<lparr>nm_name = ''EventsModule'', nm_global = False,
     nm_imports = [ForFeature [''EventSubscription''],
       RegisterQueue WEBHOOK_DELIVERY_QUEUE (Some \<lparr>jo_attempts = 5, jo_backoffDelay = 2000, jo_removeOnComplete = 1000,
         jo_removeOnFail = False\<rparr>)],
     nm_controllers = [''SubscriptionsController''],
     nm_providers = map UseClass [''EventPublisherService'', ''SubscriptionsService'', ''WebhookDeliveryProcessor''],
     nm_exports = [''EventPublisherService'']\<rparr>"

definition IngestionModule :: "app_section \<Rightarrow> nest_module" where
  "IngestionModule app = \<lparr>nm_name = ''IngestionModule'', nm_global = False,
     nm_imports = [ForFeature [''FileTransfer''],
       RegisterQueue TRANSFER_QUEUE (Some \<lparr>jo_attempts = app_transferMaxAttempts app,
         jo_backoffDelay = app_transferRetryBackoffMs app, jo_removeOnComplete = 1000, jo_removeOnFail = False\<rparr>),
       RegisterQueue DEAD_LETTER_QUEUE None, Own ''OutboxModule'', Own ''EventsModule''],
     nm_controllers = [''IngestionController'', ''TransfersController''],
     nm_providers =
       map UseClass [''IngestionService'', ''IngestionProcessor'', ''DeadLetterProcessor'', ''FileTransferRepository'', ''RecoveryService'',
         ''RetentionService'', ''RoutingService'', ''TransfersService'', ''ValidationStep'', ''QuotaStep'', ''AntivirusStep'',
         ''ContentTypeStep'', ''ProcessingPipeline''] @
       [UseFactory ''PROCESSING_STEPS'' (map Cls [''ValidationStep'', ''QuotaStep'', ''AntivirusStep'', ''ContentTypeStep''])],
     nm_exports = []\<rparr>"

definition HealthModule :: nest_module where
  "HealthModule = \<lparr>nm_name = ''HealthModule'', nm_global = False,
     nm_imports = [Package ''TerminusModule'', RegisterQueue TRANSFER_QUEUE None],
     nm_controllers = [''HealthController''], nm_providers = map UseClass [''S3HealthIndicator'', ''RedisHealthIndicator''],
     nm_exports = []\<rparr>"

definition AdminUiModule :: nest_module where
  "AdminUiModule = \<lparr>nm_name = ''AdminUiModule'', nm_global = False, nm_imports = [], nm_controllers = [''AdminUiController''],
     nm_providers = [], nm_exports = []\<rparr>"

definition AppModule :: nest_module where
  "AppModule = \<lparr>nm_name = ''AppModule'', nm_global = False,
     nm_imports =
       map Package [''ConfigModule{isGlobal}'', ''LoggerModule'', ''BullModule.forRootAsync'', ''ScheduleModule'', ''ThrottlerModule''] @
       map Own [''MetricsModule'', ''NotificationsModule'', ''CryptoModule'', ''TenancyModule'', ''QuotaModule'', ''KafkaModule'',
         ''DatabaseModule'', ''AuthModule'', ''StorageModule'', ''IngestionModule'', ''HealthModule'', ''AdminUiModule''],
     nm_controllers = [], nm_providers = [ProvideClass ''APP_GUARD'' ''ThrottlerGuard''], nm_exports = []\<rparr>"

definition modules :: "app_section \<Rightarrow> nest_module list" where
  "modules app =
     [MetricsModule, NotificationsModule, CryptoModule, TenancyModule, QuotaModule, KafkaModule, DatabaseModule, AuthModule,
      StorageModule, OutboxModule, EventsModule, IngestionModule app, HealthModule, AdminUiModule, AppModule]"

section \<open>Resolution\<close>

fun provided_token :: "provider \<Rightarrow> token" where
  "provided_token (UseClass c) = Cls c"
| "provided_token (ProvideClass s c) = Sym s"
| "provided_token (UseFactory s ts) = Sym s"
| "provided_token (CounterProvider m ls) = Metric m"
| "provided_token (GaugeProvider m) = Metric m"
| "provided_token (HistogramProvider m bs) = Metric m"

fun asked :: "provider \<Rightarrow> token list" where
  "asked (UseClass c) = injected c"
| "asked (UseFactory s ts) = ts"
| "asked _ = []"

text \<open>What a module can inject: its own providers, the exports of its imports (\<open>ext\<close> for what the packages
  provide), the exports of the global modules, and what packages make global.\<close>

definition visible :: "(import \<Rightarrow> token set) \<Rightarrow> token set \<Rightarrow> nest_module list \<Rightarrow> nest_module \<Rightarrow> token set" where
  "visible ext globals mods m =
     set (map provided_token (nm_providers m)) \<union>
     (\<Union>i\<in>set (nm_imports m). ext i) \<union>
     (\<Union>x\<in>set mods. if Own (nm_name x) \<in> set (nm_imports m) \<or> nm_global x then Cls ` set (nm_exports x) else {}) \<union>
     globals"

text \<open>Everything that classes of a module ask for: its providers, its controllers and their guards.\<close>

definition asks :: "nest_module \<Rightarrow> token list" where
  "asks m = concat (map asked (nm_providers m)) @ concat (map injected (nm_controllers m)) @
     concat (map injected (concat (map guards_of (nm_controllers m))))"

fun in_order :: "string list \<Rightarrow> nest_module list \<Rightarrow> bool" where
  "in_order seen [] = True"
| "in_order seen (m # ms) =
     (list_all (\<lambda>i. case i of Own n \<Rightarrow> n \<in> set seen | _ \<Rightarrow> True) (nm_imports m) \<and> in_order (nm_name m # seen) ms)"

definition framework_documented :: "(import \<Rightarrow> token set) \<Rightarrow> token set \<Rightarrow> bool" where
  "framework_documented ext globals \<longleftrightarrow>
     (\<forall>es. Repo ` set es \<subseteq> ext (ForFeature es)) \<and> (\<forall>q jo. Qu q \<in> ext (RegisterQueue q jo)) \<and>
     {Cls ''HealthCheckService'', Cls ''TypeOrmHealthIndicator''} \<subseteq> ext (Package ''TerminusModule'') \<and>
     Cls ''JwtService'' \<in> ext (Package ''JwtModule'') \<and>
     {Cls ''ConfigService'', Cls ''DataSource'', Cls ''Reflector''} \<subseteq> globals"

definition hosts :: "nest_module \<Rightarrow> string \<Rightarrow> bool" where
  "hosts m q \<longleftrightarrow> (\<exists>i\<in>set (nm_imports m). case i of RegisterQueue n jo \<Rightarrow> n = q | _ \<Rightarrow> False)"

section \<open>Lemmas\<close>

lemmas module_defs = MetricsModule_def NotificationsModule_def CryptoModule_def TenancyModule_def QuotaModule_def KafkaModule_def
  DatabaseModule_def AuthModule_def StorageModule_def OutboxModule_def EventsModule_def IngestionModule_def HealthModule_def
  AdminUiModule_def AppModule_def


text \<open>The least that the documentation promises; what a module sees grows with what the packages provide.\<close>

fun least_ext :: "import \<Rightarrow> token set" where
  "least_ext (ForFeature es) = Repo ` set es"
| "least_ext (RegisterQueue q jo) = {Qu q}"
| "least_ext (Package p) =
     (if p = ''TerminusModule'' then {Cls ''HealthCheckService'', Cls ''TypeOrmHealthIndicator''}
      else if p = ''JwtModule'' then {Cls ''JwtService''} else {})"
| "least_ext (Own n) = {}"

definition least_globals :: "token set" where
  "least_globals = {Cls ''ConfigService'', Cls ''DataSource'', Cls ''Reflector''}"

lemma documented_least:
  assumes "framework_documented ext globals"
  shows "least_ext i \<subseteq> ext i" "least_globals \<subseteq> globals"
  using assms by (cases i; simp add: framework_documented_def least_globals_def)+

lemma visible_mono:
  assumes "\<And>i. ext i \<subseteq> ext' i" "globals \<subseteq> globals'"
  shows "visible ext globals mods m \<subseteq> visible ext' globals' mods m"
  unfolding visible_def using assms by (intro Un_mono UN_mono order_refl) auto

lemma resolves_least:
  "list_all (\<lambda>m. list_all (\<lambda>t. t \<in> visible least_ext least_globals (modules app) m) (asks m)) (modules app)"
  by code_simp

lemma modules_in_order: "in_order [] (modules app)" "distinct (map nm_name (modules app))"
  by code_simp+

lemma processors_hosted:
  "list_all (\<lambda>(c, q). list_ex (\<lambda>m. UseClass c \<in> set (nm_providers m) \<and> hosts m q) (modules app)) processors"
  by code_simp


lemma exports_provided: "list_all (\<lambda>m. list_all (\<lambda>c. UseClass c \<in> set (nm_providers m)) (nm_exports m)) (modules app)"
  by code_simp

lemma modules_used:
  "list_all (\<lambda>m. nm_name m = ''AppModule'' \<or> list_ex (\<lambda>x. Own (nm_name m) \<in> set (nm_imports x)) (modules app)) (modules app)"
  by code_simp

section \<open>Property\<close>



end
