(* ===== verification/Health.thy ===== *)
theory Health
  imports Storage
begin

text \<open>
  The probes of \<^verbatim>\<open>health/\<close>: the two indicators of the program and the routes of the controller. The health
  check service and the database indicator belong to \<^verbatim>\<open>@nestjs/terminus\<close>; they are parameters, with what its
  documentation says of them as the hypotheses \<^verbatim>\<open>check_documented\<close> and \<^verbatim>\<open>ping_documented\<close>.
\<close>

section \<open>Indicators\<close>

text \<open>The status object of an indicator, and how an indicator ends: with its status (\<^term>\<open>Inr\<close>), or with a
  \<^verbatim>\<open>HealthCheckError\<close> that has a message and the status (\<^term>\<open>Inl\<close>).\<close>

record HealthIndicatorResult =
  hi_key :: string
  hi_up :: bool
  hi_message :: "string option"

type_synonym indicator = "string \<times> HealthIndicatorResult + HealthIndicatorResult"

definition getStatus :: "string \<Rightarrow> bool \<Rightarrow> string option \<Rightarrow> HealthIndicatorResult" where
  "getStatus key up message = \<lparr>hi_key = key, hi_up = up, hi_message = message\<rparr>"

definition redis_isHealthy :: "services \<Rightarrow> string \<Rightarrow> (world, indicator) act" where
  "redis_isHealthy sv key =
     try_catch
       (seq (call sv C_RedisClient (ret ()))
         (seq (call sv C_RedisPing (ret ()))
           (ret (Inr (getStatus key True None)))))
       (\<lambda>err. ret (Inl (''Redis unreachable'', getStatus key False (Some (err_message err)))))"

definition s3_isHealthy :: "services \<Rightarrow> s3_section \<Rightarrow> string \<Rightarrow> (world, indicator) act" where
  "s3_isHealthy sv cfg key =
     try_catch
       (seq (checkBucket sv cfg) (ret (Inr (getStatus key True None))))
       (\<lambda>err. ret (Inl (''S3 bucket unreachable'', getStatus key False (Some (err_message err)))))"

section \<open>The controller\<close>

record terminus =
  tm_pingCheck :: "string \<Rightarrow> int \<Rightarrow> (world, indicator) act"
    \<comment> \<open>\<^verbatim>\<open>TypeOrmHealthIndicator.pingCheck(key, { timeout })\<close>\<close>
  tm_check :: "(world, indicator) act list \<Rightarrow> (world, HealthIndicatorResult list) act"
    \<comment> \<open>\<^verbatim>\<open>HealthCheckService.check(indicators)\<close>, with the details of its result\<close>

definition health_live :: "(world, string) act" where
  "health_live = ret ''ok''"

definition health_ready :: "services \<Rightarrow> terminus \<Rightarrow> s3_section \<Rightarrow> (world, HealthIndicatorResult list) act" where
  "health_ready sv tm cfg =
     tm_check tm
       [tm_pingCheck tm ''postgres'' 3000,
        s3_isHealthy sv cfg ''object-storage'',
        redis_isHealthy sv ''redis'']"

definition health_check :: "services \<Rightarrow> terminus \<Rightarrow> s3_section \<Rightarrow> (world, HealthIndicatorResult list) act" where
  "health_check sv tm cfg = health_ready sv tm cfg"

section \<open>What terminus documents\<close>

text \<open>The service runs every indicator; it answers with their statuses when each of them resolves, and with
  503 when one of them rejects.\<close>

definition check_documented :: "((world, indicator) act list \<Rightarrow> (world, HealthIndicatorResult list) act) \<Rightarrow> bool" where
  "check_documented check \<longleftrightarrow> (\<forall>fs rs w. list_all2 (\<lambda>f r. f w = (Done r, w)) fs rs \<longrightarrow>
     (if list_all (\<lambda>r. \<exists>s. r = Inr s) rs then check fs w = (Done (map projr rs), w)
      else \<exists>m. check fs w = (Raised (HttpException 503 ''ServiceUnavailableException'' m), w)))"

text \<open>The database indicator reports whether the database answers, and changes nothing.\<close>

definition ping_documented :: "(string \<Rightarrow> int \<Rightarrow> (world, indicator) act) \<Rightarrow> (world \<Rightarrow> bool) \<Rightarrow> bool" where
  "ping_documented ping up \<longleftrightarrow> (\<forall>key t w. \<exists>m.
     ping key t w = (Done (if up w then Inr (getStatus key True None) else Inl m), w))"

section \<open>Lemmas\<close>

lemma redis_isHealthy_run:
  assumes "no_crash sv"
  shows "\<exists>m. redis_isHealthy sv key w =
    (Done (if sv_fault sv C_RedisClient = Healthy \<and> sv_fault sv C_RedisPing = Healthy
           then Inr (getStatus key True None) else Inl (''Redis unreachable'', getStatus key False (Some m))), w)"
  using assms by (cases "sv_fault sv C_RedisClient"; cases "sv_fault sv C_RedisPing")
    (auto simp: redis_isHealthy_def act_defs call_def no_crash_def)

lemma s3_isHealthy_run:
  assumes "no_crash sv"
  shows "\<exists>m. s3_isHealthy sv cfg key w =
    (Done (if sv_fault sv C_HeadBucket = Healthy \<and> s3_bucket cfg \<in> set (w_buckets w)
           then Inr (getStatus key True None) else Inl (''S3 bucket unreachable'', getStatus key False (Some m))), w)"
  using assms by (cases "sv_fault sv C_HeadBucket")
    (auto simp: s3_isHealthy_def checkBucket_def head_bucket_def act_defs call_def no_crash_def)

lemma check_three:
  assumes "check_documented check" "f1 w = (Done r1, w)" "f2 w = (Done r2, w)" "f3 w = (Done r3, w)"
  shows "if (\<exists>s. r1 = Inr s) \<and> (\<exists>s. r2 = Inr s) \<and> (\<exists>s. r3 = Inr s)
    then check [f1, f2, f3] w = (Done [projr r1, projr r2, projr r3], w)
    else \<exists>m. check [f1, f2, f3] w = (Raised (HttpException 503 ''ServiceUnavailableException'' m), w)"
  using assms(1)[unfolded check_documented_def, rule_format, of w "[f1, f2, f3]" "[r1, r2, r3]"] assms(2-4) by simp

text \<open>A health service as documented, over a database that answers.\<close>

definition tm0 :: terminus where
  "tm0 = \<lparr>tm_pingCheck = (\<lambda>key _. ret (Inr (getStatus key True None))),
     tm_check = (\<lambda>fs w. let rs = map (\<lambda>f. case fst (f w) of Done r \<Rightarrow> r | _ \<Rightarrow> Inl ([], getStatus [] False None)) fs in
       if list_all (\<lambda>r. case r of Inr s \<Rightarrow> True | Inl e \<Rightarrow> False) rs then (Done (map projr rs), w)
       else (Raised (HttpException 503 ''ServiceUnavailableException'' ''Service Unavailable Exception''), w))\<rparr>"

lemma tm0_documented: "check_documented (tm_check tm0)" "ping_documented (tm_pingCheck tm0) (\<lambda>_. True)"
proof -
  have "map (\<lambda>f. case fst (f w) of Done r \<Rightarrow> r | _ \<Rightarrow> Inl ([], getStatus [] False None)) fs = rs"
    if "list_all2 (\<lambda>f r. f w = (Done r, w)) fs rs" for fs and rs :: "indicator list" and w :: world
    using that by (induction rule: list_all2_induct) auto
  moreover have "list_all (\<lambda>r. case r of Inr s \<Rightarrow> True | Inl e \<Rightarrow> False) rs \<longleftrightarrow> list_all (\<lambda>r. \<exists>s. r = Inr s) rs" for rs :: "indicator list"
    by (induction rs) (auto split: sum.splits)
  ultimately show "check_documented (tm_check tm0)" by (auto simp: check_documented_def tm0_def Let_def)
  show "ping_documented (tm_pingCheck tm0) (\<lambda>_. True)" by (simp add: ping_documented_def tm0_def ret_def)
qed

section \<open>Property\<close>

text \<open>C26: The readiness probe tells the truth: when the process does not die on it, it answers 200 exactly when
  the database answers its ping, the configured bucket exists and is reachable, and Redis gives a client and
  answers a ping; then it reports exactly these three as up, and otherwise it answers 503. It changes nothing.
  The liveness probe depends on none of them.\<close>

theorem readiness_reflects_dependencies:
  fixes sv :: services and tm :: terminus and cfg :: s3_section and up :: "world \<Rightarrow> bool" and w :: world
  assumes "check_documented (tm_check tm)" "ping_documented (tm_pingCheck tm) up" "no_crash sv"
  defines "ready \<equiv> up w \<and> sv_fault sv C_HeadBucket = Healthy \<and> s3_bucket cfg \<in> set (w_buckets w) \<and>
    sv_fault sv C_RedisClient = Healthy \<and> sv_fault sv C_RedisPing = Healthy"
  shows "(if ready then health_ready sv tm cfg w =
            (Done [getStatus ''postgres'' True None, getStatus ''object-storage'' True None, getStatus ''redis'' True None], w)
          else \<exists>m. health_ready sv tm cfg w = (Raised (HttpException 503 ''ServiceUnavailableException'' m), w)) \<and>
    health_check sv tm cfg w = health_ready sv tm cfg w \<and> health_live w = (Done ''ok'', w)"
proof -
  let ?s3 = "sv_fault sv C_HeadBucket = Healthy \<and> s3_bucket cfg \<in> set (w_buckets w)"
  let ?redis = "sv_fault sv C_RedisClient = Healthy \<and> sv_fault sv C_RedisPing = Healthy"
  obtain m1 where db: "tm_pingCheck tm ''postgres'' 3000 w = (Done (if up w then Inr (getStatus ''postgres'' True None) else Inl m1), w)"
    using assms(2) unfolding ping_documented_def by blast
  obtain m2 where s3: "s3_isHealthy sv cfg ''object-storage'' w = (Done (if ?s3 then Inr (getStatus ''object-storage'' True None)
       else Inl (''S3 bucket unreachable'', getStatus ''object-storage'' False (Some m2))), w)"
    using s3_isHealthy_run[OF assms(3)] by blast
  obtain m3 where redis: "redis_isHealthy sv ''redis'' w = (Done (if ?redis then Inr (getStatus ''redis'' True None)
       else Inl (''Redis unreachable'', getStatus ''redis'' False (Some m3))), w)"
    using redis_isHealthy_run[OF assms(3)] by blast
  show ?thesis
    using check_three[OF assms(1), of "tm_pingCheck tm ''postgres'' 3000" w _ "s3_isHealthy sv cfg ''object-storage''" _
        "redis_isHealthy sv ''redis''", OF db s3 redis]
    by (auto simp: health_ready_def health_check_def health_live_def ret_def ready_def)
qed

theorem readiness_reflects_dependencies_witness:
  "\<exists>m. health_ready (with_fault C_RedisPing (FailBefore (JsError ''Error'' ''down'')) sv0) tm0 (cfg_s3 cfg0) world0 =
     (Raised (HttpException 503 ''ServiceUnavailableException'' m), world0)"
proof -
  let ?sv = "with_fault C_RedisPing (FailBefore (JsError ''Error'' ''down'')) sv0"
  have "no_crash ?sv" by (simp add: no_crash_def sv0_def)
  from readiness_reflects_dependencies[OF tm0_documented this, where w = world0 and cfg = "cfg_s3 cfg0"] show ?thesis by simp
qed

end
