(* ===== verification/Admin_Ui.thy ===== *)
theory Admin_Ui
  imports Management Maintenance Ingestion Bootstrap
begin

text \<open>
  The dashboard of \<^verbatim>\<open>admin-ui/admin-ui.html.ts\<close>: the script of the page against the routes of the server. A
  session is the state of the page (its variables, the local storage and the parts of the document that the
  script writes) together with the state of the server; each function of the script is an action on it. A
  request runs a route on the server's state; an error becomes the status that \<^verbatim>\<open>AllExceptionsFilter\<close> answers.
  A call that the script does not await keeps its effects and loses its error. How the browser prints a date is
  the parameter \<open>locale_string\<close>.
\<close>

section \<open>The session\<close>

record Page =
  pg_token :: string
  pg_roles :: "string list"
  pg_storage :: "string \<rightharpoonup> string"
  pg_authed :: bool
    \<comment> \<open>which of the two sections is hidden\<close>
  pg_who :: string
  pg_err :: string
  pg_status :: "TransferStatus option"
    \<comment> \<open>the chosen option; the empty one is None\<close>
  pg_rows :: string
  pg_alerts :: "string list"
  pg_saved :: "(string \<times> byte list) list"

record session =
  ss_page :: Page
  ss_world :: world

definition upd_page :: "(Page \<Rightarrow> Page) \<Rightarrow> (session, unit) act" where
  "upd_page f = modify (\<lambda>s. s\<lparr>ss_page := f (ss_page s)\<rparr>)"

definition alert :: "string \<Rightarrow> (session, unit) act" where
  "alert m = upd_page (\<lambda>p. p\<lparr>pg_alerts := pg_alerts p @ [m]\<rparr>)"

text \<open>What the filter makes of an error of a handler, and one request: a status and, where it is 200, the body.\<close>

definition as_exception :: "js_error \<Rightarrow> exception" where
  "as_exception e = (case e of
     HttpException s n m \<Rightarrow> HttpEx s n m (RespObject (Some (One m)) None)
   | _ \<Rightarrow> OtherEx (err_message e))"

definition answer_status :: "js_error \<Rightarrow> int" where
  "answer_status e = fst (catch_exception (as_exception e) [] [])"

definition fetch :: "(world, 'a) act \<Rightarrow> (session, int \<times> 'a option) act" where
  "fetch route = (\<lambda>s. case route (ss_world s) of
       (Done a, w) \<Rightarrow> (Done (200, Some a), s\<lparr>ss_world := w\<rparr>)
     | (Raised e, w) \<Rightarrow> (Done (answer_status e, None), s\<lparr>ss_world := w\<rparr>)
     | (Crashed, w) \<Rightarrow> (Raised (JsError ''TypeError'' ''Failed to fetch''), s\<lparr>ss_world := w\<rparr>))"

definition res_ok :: "int \<times> 'a option \<Rightarrow> bool" where
  "res_ok res \<longleftrightarrow> 200 \<le> fst res \<and> fst res \<le> 299"

text \<open>The token of the header \<^verbatim>\<open>Authorization: Bearer ...\<close>.\<close>

definition bearer :: "Page \<Rightarrow> string option" where
  "bearer p = (if pg_token p = [] then None else Some (pg_token p))"

text \<open>A call that is not awaited.\<close>

definition unawaited :: "('w, 'a) act \<Rightarrow> ('w, unit) act" where
  "unawaited m = (\<lambda>s. (Done (), snd (m s)))"

section \<open>The rows\<close>

definition nl :: "nat \<Rightarrow> string" where
  "nl n = CHR 0x0A # replicate n CHR 0x20"

definition dq :: "string \<Rightarrow> string" where
  "dq s = quoted (CHR 0x22) s"

definition sq :: "string \<Rightarrow> string" where
  "sq s = quoted (CHR 0x27) s"

definition canRetry :: "Page \<Rightarrow> bool" where
  "canRetry p \<longleftrightarrow> ''admin'' \<in> set (pg_roles p) \<or> ''operator'' \<in> set (pg_roles p)"

definition row_buttons :: "Page \<Rightarrow> FileTransfer \<Rightarrow> string" where
  "row_buttons p t =
     (if ft_status t = SUCCESS
      then ''<button class='' @ dq ''secondary'' @ '' onclick='' @ dq (''dl('' @ sq (ft_id t) @ '','' @ sq (ft_filename t) @ '')'') @
        ''>Download</button> ''
      else []) @
     (if ft_status t = FAILED \<and> canRetry p
      then ''<button onclick='' @ dq (''retryOne('' @ sq (ft_id t) @ '')'') @ ''>Retry</button>''
      else [])"

definition row_html :: "(int \<Rightarrow> string) \<Rightarrow> Page \<Rightarrow> FileTransfer \<Rightarrow> string" where
  "row_html locale_string p t =
     nl 8 @ ''<tr>'' @
     nl 10 @ ''<td class='' @ dq ''wrap'' @ ''>'' @ ft_filename t @ ''</td>'' @
     nl 10 @ ''<td><span class='' @ dq (''badge '' @ status_name (ft_status t)) @ ''>'' @ status_name (ft_status t) @ ''</span></td>'' @
     nl 10 @ ''<td>'' @ show_int (ft_attempts t) @ ''</td>'' @
     nl 10 @ ''<td class='' @ dq ''wrap'' @ ''>'' @ ft_bucket t @ ''/'' @ (case ft_objectKey t of None \<Rightarrow> [] | Some k \<Rightarrow> k) @ ''</td>'' @
     nl 10 @ ''<td>'' @ locale_string (ft_updatedAt t) @ ''</td>'' @
     nl 10 @ ''<td>'' @ row_buttons p t @ ''</td>'' @
     nl 8 @ ''</tr>''"

definition rows_html :: "(int \<Rightarrow> string) \<Rightarrow> Page \<Rightarrow> FileTransfer list \<Rightarrow> string" where
  "rows_html locale_string p items =
     (let html = concat (map (row_html locale_string p) items)
      in if html = [] then ''<tr><td colspan='' @ dq ''6'' @ ''>no transfers</td></tr>'' else html)"

section \<open>The functions of the script\<close>

text \<open>\<^verbatim>\<open>show\<close> without a token only toggles the sections; so \<^verbatim>\<open>logout\<close>, which has cleared the token, is complete
  without the request that \<^verbatim>\<open>show\<close> makes otherwise.\<close>

definition show_sections :: "Page \<Rightarrow> Page" where
  "show_sections p = p\<lparr>pg_authed := (pg_token p \<noteq> [])\<rparr>"

definition ui_logout :: "(session, unit) act" where
  "ui_logout = upd_page (\<lambda>p. show_sections (p\<lparr>pg_token := [], pg_roles := [],
     pg_storage := (pg_storage p)(''sb_token'' := None, ''sb_roles'' := None)\<rparr>))"

definition api :: "(string option \<Rightarrow> (world, 'a) act) \<Rightarrow> (session, 'a option) act" where
  "api route =
     bnd (gets (\<lambda>s. bearer (ss_page s))) (\<lambda>b. bnd (fetch (route b)) (\<lambda>res.
       if fst res = 401 then seq ui_logout (throw (JsError ''Error'' ''unauthorized''))
       else if \<not> res_ok res then throw (JsError ''Error'' (''HTTP '' @ show_int (fst res)))
       else ret (snd res)))"

definition load :: "(int \<Rightarrow> string) \<Rightarrow> services \<Rightarrow> auth_lib \<Rightarrow> (session, unit) act" where
  "load locale_string sv al =
     bnd (gets (\<lambda>s. pg_status (ss_page s))) (\<lambda>status.
       bnd (api (\<lambda>b. get_transfers sv al b \<lparr>lq_status = status, lq_limit = 50, lq_offset = 0\<rparr>)) (\<lambda>data.
         upd_page (\<lambda>p. p\<lparr>pg_rows := rows_html locale_string p (case data of None \<Rightarrow> [] | Some d \<Rightarrow> pt_items d)\<rparr>)))"

definition ui_show :: "(int \<Rightarrow> string) \<Rightarrow> services \<Rightarrow> auth_lib \<Rightarrow> (session, unit) act" where
  "ui_show locale_string sv al =
     seq (upd_page show_sections)
       (bnd (gets (\<lambda>s. pg_authed (ss_page s))) (\<lambda>authed.
         if authed then
           seq (upd_page (\<lambda>p. p\<lparr>pg_who := ''roles: '' @ join_with '', '' (pg_roles p)\<rparr>))
             (unawaited (load locale_string sv al))
         else ret ()))"

definition roles_json :: "string list \<Rightarrow> string" where
  "roles_json roles = stringify (JArr (map JStr roles))"

definition ui_login ::
    "(int \<Rightarrow> string) \<Rightarrow> services \<Rightarrow> auth_lib \<Rightarrow> auth_section \<Rightarrow> string \<Rightarrow> string \<Rightarrow> (session, unit) act" where
  "ui_login locale_string sv al auth u p =
     seq (upd_page (\<lambda>pg. pg\<lparr>pg_err := []\<rparr>))
       (try_catch
         (bnd (fetch (post_login sv al auth \<lparr>ld_username = u, ld_password = p\<rparr>)) (\<lambda>res.
           case (if res_ok res then snd res else None) of
             None \<Rightarrow> throw (JsError ''Error'' ''invalid credentials'')
           | Some data \<Rightarrow>
               seq (upd_page (\<lambda>pg. let token = lr_access_token data; roles = map role_name (lr_roles data) in
                     pg\<lparr>pg_token := token, pg_roles := roles,
                        pg_storage := (pg_storage pg)(''sb_token'' \<mapsto> token, ''sb_roles'' \<mapsto> roles_json roles)\<rparr>))
                 (ui_show locale_string sv al)))
         (\<lambda>e. upd_page (\<lambda>pg. pg\<lparr>pg_err := err_message e\<rparr>)))"

definition retryOne :: "(int \<Rightarrow> string) \<Rightarrow> services \<Rightarrow> app_section \<Rightarrow> auth_lib \<Rightarrow> (string \<Rightarrow> bool) \<Rightarrow> string \<Rightarrow> (session, unit) act" where
  "retryOne locale_string sv app al isUuid i =
     seq (api (\<lambda>b. post_retry sv app al isUuid b i)) (unawaited (load locale_string sv al))"

definition dl :: "services \<Rightarrow> CryptoService \<Rightarrow> auth_lib \<Rightarrow> (string \<Rightarrow> bool) \<Rightarrow> string \<Rightarrow> string \<Rightarrow> (session, unit) act" where
  "dl sv cs al isUuid i filename =
     bnd (gets (\<lambda>s. bearer (ss_page s))) (\<lambda>b. bnd (fetch (get_download sv cs al isUuid b i)) (\<lambda>res.
       case (if res_ok res then snd res else None) of
         None \<Rightarrow> alert (''download failed: '' @ show_int (fst res))
       | Some (headers, body, err) \<Rightarrow>
           (case err of
              Some e \<Rightarrow> throw (JsError ''TypeError'' ''network error'')
            | None \<Rightarrow> upd_page (\<lambda>p. p\<lparr>pg_saved := pg_saved p @ [(filename, body)]\<rparr>))))"

definition ui_retryBatch :: "(int \<Rightarrow> string) \<Rightarrow> services \<Rightarrow> app_section \<Rightarrow> auth_lib \<Rightarrow> (session, unit) act" where
  "ui_retryBatch locale_string sv app al =
     bnd (gets (\<lambda>s. canRetry (ss_page s))) (\<lambda>can.
       if \<not> can then alert ''requires operator/admin role''
       else bnd (api (\<lambda>b. post_retry_batch sv app al b \<lparr>rb_status = Some FAILED, rb_before = None, rb_limit = 100\<rparr>)) (\<lambda>r.
         seq (alert (''re-queued '' @ show_nat (case r of None \<Rightarrow> 0 | Some x \<Rightarrow> fst x) @ '' transfer(s)''))
           (unawaited (load locale_string sv al))))"

text \<open>Opening the page: the variables are read from the local storage, then the page shows itself. Roles that are
  not an array of strings, which the script never stores, are outside the model (None).\<close>

definition json_strings :: "js_number JSON \<Rightarrow> string list option" where
  "json_strings j = (case j of
     JArr xs \<Rightarrow> (if list_all (\<lambda>x. case x of JStr s \<Rightarrow> True | _ \<Rightarrow> False) xs
        then Some (map (\<lambda>x. case x of JStr s \<Rightarrow> s | _ \<Rightarrow> []) xs) else None)
   | _ \<Rightarrow> None)"

definition open_page :: "(string \<rightharpoonup> string) \<Rightarrow> Page option" where
  "open_page storage =
     (let stored = (case storage ''sb_roles'' of None \<Rightarrow> ''[]'' | Some s \<Rightarrow> if s = [] then ''[]'' else s)
      in map_option (\<lambda>roles.
           \<lparr>pg_token = (case storage ''sb_token'' of None \<Rightarrow> [] | Some s \<Rightarrow> s), pg_roles = roles, pg_storage = storage,
            pg_authed = False, pg_who = [], pg_err = [], pg_status = Some SUCCESS, pg_rows = [], pg_alerts = [], pg_saved = []\<rparr>)
         (Option.bind (JSON_parse stored) json_strings))"

section \<open>Lemmas\<close>

text \<open>The faults of databases, queues and networks are not HTTP exceptions.\<close>

definition faults_not_http :: "services \<Rightarrow> bool" where
  "faults_not_http sv \<longleftrightarrow> (\<forall>c e. sv_fault sv c \<in> {FailBefore e, FailAfter e} \<longrightarrow> \<not> is_HttpException e)"

lemma answer_status_other: "\<not> is_HttpException e \<Longrightarrow> answer_status e = 500"
  by (cases e) (auto simp: answer_status_def as_exception_def catch_exception_def)

lemma answer_status_http [simp]: "answer_status (HttpException s n m) = s"
  by (simp add: answer_status_def as_exception_def catch_exception_def)

text \<open>An action that rejects only with errors of the outside.\<close>

definition raises_outside :: "('w, 'a) act \<Rightarrow> bool" where
  "raises_outside m \<longleftrightarrow> (\<forall>w e w'. m w = (Raised e, w') \<longrightarrow> \<not> is_HttpException e)"

lemma raises_outsideI: "(\<And>w e w'. m w = (Raised e, w') \<Longrightarrow> \<not> is_HttpException e) \<Longrightarrow> raises_outside m"
  unfolding raises_outside_def by blast

lemma raises_outsideD: "raises_outside m \<Longrightarrow> m w = (Raised e, w') \<Longrightarrow> \<not> is_HttpException e"
  unfolding raises_outside_def by blast

lemma raises_outside_ret: "raises_outside (ret a)" "raises_outside (gets f)"
  by (simp_all add: raises_outside_def ret_def gets_def)

lemma raises_outside_bnd: "raises_outside m \<Longrightarrow> (\<And>a. raises_outside (k a)) \<Longrightarrow> raises_outside (bnd m k)"
  by (rule raises_outsideI) (auto simp: bnd_def split: prod.splits outcome.splits dest: raises_outsideD)

lemma raises_outside_call: "faults_not_http sv \<Longrightarrow> raises_outside m \<Longrightarrow> raises_outside (call sv c m)"
  by (rule raises_outsideI, cases "sv_fault sv c") (auto simp: call_def await_def faults_not_http_def dest: raises_outsideD)

lemma raises_outside_transaction:
  "faults_not_http sv \<Longrightarrow> raises_outside m \<Longrightarrow> raises_outside (transaction (sv_fault sv c) m)"
  by (rule raises_outsideI, cases "sv_fault sv c")
    (auto simp: transaction_def faults_not_http_def split: prod.splits outcome.splits dest: raises_outsideD)

lemma transfers_list_outside: "faults_not_http sv \<Longrightarrow> raises_outside (transfers_list sv q user)"
  unfolding transfers_list_def scoped_def seq_def
  by (auto intro!: raises_outside_transaction raises_outside_bnd raises_outside_call raises_outside_ret split: prod.splits)

lemma get_transfers_not_401:
  assumes "faults_not_http sv" "al_verify al t \<noteq> None" "get_transfers sv al (Some t) q w = (Raised e, w')"
  shows "answer_status e \<noteq> 401"
proof -
  obtain p where p: "al_verify al t = Some p" using assms(2) by blast
  have "answer_status e = 500" if "transfers_list sv q (jwt_validate p) w = (Raised e, w')"
    by (rule answer_status_other) (rule raises_outsideD[OF transfers_list_outside[OF assms(1)] that])
  then show ?thesis
    using assms(3)
    by (auto simp: get_transfers_def guarded_run p throw_def bad_request_def raises_outside_def split: if_splits)
qed

text \<open>What a page remembers of a session.\<close>

definition credentials :: "session \<Rightarrow> string \<times> string list \<times> (string \<rightharpoonup> string) \<times> bool" where
  "credentials s = (pg_token (ss_page s), pg_roles (ss_page s), pg_storage (ss_page s), pg_authed (ss_page s))"

lemma frame_credentials:
  "frame credentials (fetch r)" "(\<And>p. credentials \<lparr>ss_page = f p, ss_world = w0\<rparr> = credentials \<lparr>ss_page = p, ss_world = w0\<rparr>) \<Longrightarrow> frame credentials (upd_page f)"
  by (auto simp: frame_def fetch_def upd_page_def modify_def credentials_def split: prod.splits outcome.splits)

lemma load_keeps_session:
  assumes "faults_not_http sv" "pg_token (ss_page s) \<noteq> []" "al_verify al (pg_token (ss_page s)) \<noteq> None"
  shows "credentials (snd (load ls sv al s)) = credentials s"
proof -
  let ?b = "bearer (ss_page s)" and ?q = "\<lparr>lq_status = pg_status (ss_page s), lq_limit = 50, lq_offset = 0\<rparr>"
  have b: "?b = Some (pg_token (ss_page s))" using assms(2) by (simp add: bearer_def)
  obtain x w where run: "get_transfers sv al ?b ?q (ss_world s) = (x, w)" by fastforce
  show ?thesis
  proof (cases x)
    case (Raised e)
    then have "answer_status e \<noteq> 401" using get_transfers_not_401[OF assms(1,3)] run b by metis
    with Raised run show ?thesis
      by (simp add: load_def api_def fetch_def bnd_def gets_def throw_def ret_def upd_page_def modify_def credentials_def)
  qed (use run in \<open>simp_all add: load_def api_def fetch_def bnd_def gets_def throw_def ret_def upd_page_def modify_def
      credentials_def res_ok_def\<close>)
qed

lemma roles_roundtrip: "JSON_parse (roles_json roles) = Some (JArr (map JStr roles))"
  unfolding roles_json_def by (subst JSON_parse_stringify) (simp_all add: comp_def)

lemma json_strings_map: "json_strings (JArr (map JStr xs)) = Some xs"
  by (simp add: json_strings_def list_all_iff comp_def)

lemma canRetry_roles:
  assumes "pg_roles p = map role_name rs"
  shows "canRetry p \<longleftrightarrow> set OPERATORS \<inter> set rs \<noteq> {}"
proof -
  have "''admin'' \<in> role_name ` set rs \<longleftrightarrow> ADMIN \<in> set rs" "''operator'' \<in> role_name ` set rs \<longleftrightarrow> OPERATOR \<in> set rs"
    by (force elim: role_name.elims[OF sym])+
  then show ?thesis by (auto simp: canRetry_def OPERATORS_def assms)
qed

lemma row_html_name:
  "\<exists>a b. row_html ls p t = a @ ''<td class='' @ dq ''wrap'' @ ''>'' @ ft_filename t @ ''</td>'' @ b"
  unfolding row_html_def
  by (rule exI[of _ "nl 8 @ ''<tr>'' @ nl 10"], simp only: append_assoc, rule exI, rule refl)

lemma load_rows:
  assumes "get_transfers sv al (bearer (ss_page s)) \<lparr>lq_status = pg_status (ss_page s), lq_limit = 50, lq_offset = 0\<rparr> (ss_world s) = (Done d, w')"
    and "pt_items d \<noteq> []"
  shows "pg_rows (ss_page (snd (load ls sv al s))) = concat (map (row_html ls (ss_page s)) (pt_items d))"
proof -
  have "row_html ls (ss_page s) t \<noteq> []" for t by (simp add: row_html_def nl_def)
  then have ne: "concat (map (row_html ls (ss_page s)) (pt_items d)) \<noteq> []" using assms(2) by (cases "pt_items d") auto
  have "pg_rows (ss_page (snd (load ls sv al s))) = rows_html ls (ss_page s) (pt_items d)"
    using assms(1) by (simp add: load_def api_def fetch_def bnd_def gets_def ret_def upd_page_def modify_def res_ok_def)
  then show ?thesis unfolding rows_html_def Let_def if_not_P[OF ne] .
qed

text \<open>What a successful login leaves.\<close>

lemma login_credentials:
  assumes "post_login sv al auth \<lparr>ld_username = u, ld_password = pw\<rparr> (ss_world s) = (Done lr, w1)"
    and "lr_access_token lr \<noteq> []" "al_verify al (lr_access_token lr) \<noteq> None" "faults_not_http sv"
  shows "credentials (snd (ui_login ls sv al auth u pw s)) =
    (lr_access_token lr, map role_name (lr_roles lr),
     (pg_storage (ss_page s))(''sb_token'' \<mapsto> lr_access_token lr, ''sb_roles'' \<mapsto> roles_json (map role_name (lr_roles lr))), True)"
proof -
  let ?t = "lr_access_token lr" and ?r = "map role_name (lr_roles lr)"
  let ?p = "(ss_page s)\<lparr>pg_err := [], pg_token := ?t, pg_roles := ?r,
      pg_storage := (pg_storage (ss_page s))(''sb_token'' \<mapsto> ?t, ''sb_roles'' \<mapsto> roles_json ?r),
      pg_authed := True, pg_who := ''roles: '' @ join_with '', '' ?r\<rparr>"
  let ?s = "s\<lparr>ss_page := ?p, ss_world := w1\<rparr>"
  have "snd (ui_login ls sv al auth u pw s) = snd (load ls sv al ?s)"
    using assms(1,2) by (cases s) (simp add: ui_login_def ui_show_def fetch_def res_ok_def seq_def bnd_def try_catch_def upd_page_def modify_def
        gets_def ret_def unawaited_def show_sections_def Let_def)
  moreover have "credentials (snd (load ls sv al ?s)) = credentials ?s"
    by (rule load_keeps_session) (use assms in simp_all)
  ultimately show ?thesis by (simp add: credentials_def)
qed

lemma open_page_stored:
  assumes "storage ''sb_token'' = Some t" "storage ''sb_roles'' = Some (roles_json roles)"
  shows "\<exists>p. open_page storage = Some p \<and> pg_token p = t \<and> pg_roles p = roles"
proof -
  have "roles_json roles \<noteq> []" by (simp add: roles_json_def)
  then show ?thesis using assms by (simp add: open_page_def roles_roundtrip json_strings_map)
qed

lemma open_page_cleared:
  assumes "storage ''sb_token'' = None" "storage ''sb_roles'' = None"
  shows "\<exists>p. open_page storage = Some p \<and> pg_token p = [] \<and> pg_roles p = []"
proof -
  have "JSON_parse ''[]'' = Some (JArr [])" using roles_roundtrip[of "[]"] by (simp add: roles_json_def)
  then show ?thesis using assms by (simp add: open_page_def json_strings_def)
qed

lemma api_401:
  assumes "route (bearer (ss_page s)) (ss_world s) = (Raised e, w1)" "answer_status e = 401"
  shows "fst (api route s) = Raised (JsError ''Error'' ''unauthorized'') \<and>
    credentials (snd (api route s)) = ([], [], (pg_storage (ss_page s))(''sb_token'' := None, ''sb_roles'' := None), False)"
  using assms by (simp add: api_def fetch_def bnd_def gets_def seq_def throw_def ui_logout_def upd_page_def modify_def credentials_def
      show_sections_def)

section \<open>Properties\<close>


definition page0 :: Page where
  "page0 = \<lparr>pg_token = [], pg_roles = [], pg_storage = Map.empty, pg_authed = False, pg_who = [], pg_err = [],
     pg_status = None, pg_rows = [], pg_alerts = [], pg_saved = []\<rparr>"

definition session0 :: session where
  "session0 = \<lparr>ss_page = page0, ss_world = world0\<lparr>w_users := [\<lparr>us_id = ''users-1'', us_username = ''bob'',
     us_passwordHash = ''hpassword1'', us_tenantId = ''acme'', us_roles = [OPERATOR], us_createdAt = 0, us_updatedAt = 0\<rparr>]\<rparr>\<rparr>"


text \<open>C33: The dashboard renders stored names as markup: whatever the list answers, the name of every transfer in it
  stands in the page's rows as it is, without escaping, and the content policy of the server lets inline
  scripts run; so a file uploaded under a name that is markup runs its script in the session of whoever opens
  the dashboard, where the token is kept.\<close>

theorem dashboard_renders_names_verbatim:
  assumes "get_transfers sv al (bearer (ss_page s)) \<lparr>lq_status = pg_status (ss_page s), lq_limit = 50, lq_offset = 0\<rparr> (ss_world s) = (Done d, w')"
    and "t \<in> set (pt_items d)"
  shows "(\<exists>pre post. pg_rows (ss_page (snd (load ls sv al s))) =
        pre @ ''<td class='' @ dq ''wrap'' @ ''>'' @ ft_filename t @ ''</td>'' @ post) \<and>
    (\<exists>sources. map_of (so_csp (bootstrap app)) ''scriptSrc'' = Some sources \<and> sq ''unsafe-inline'' \<in> set sources)"
proof
  obtain xs ys where items: "pt_items d = xs @ t # ys" using assms(2) by (meson split_list)
  obtain a b where row: "row_html ls (ss_page s) t = a @ ''<td class='' @ dq ''wrap'' @ ''>'' @ ft_filename t @ ''</td>'' @ b"
    using row_html_name by blast
  have "pg_rows (ss_page (snd (load ls sv al s))) = (concat (map (row_html ls (ss_page s)) xs) @ a) @
      ''<td class='' @ dq ''wrap'' @ ''>'' @ ft_filename t @ ''</td>'' @ (b @ concat (map (row_html ls (ss_page s)) ys))"
    using load_rows[OF assms(1), of ls] items row by simp
  then show "\<exists>pre post. pg_rows (ss_page (snd (load ls sv al s))) = pre @ ''<td class='' @ dq ''wrap'' @ ''>'' @ ft_filename t @ ''</td>'' @ post"
    by blast
  show "\<exists>sources. map_of (so_csp (bootstrap app)) ''scriptSrc'' = Some sources \<and> sq ''unsafe-inline'' \<in> set sources"
    by (simp add: bootstrap_def cspDirectives_def sq_def Let_def)
qed

text \<open>An upload whose name is an image with an error handler, accepted by the webhook, in the list of an administrator.\<close>

definition hook_markup :: SftpgoWebhookDto where
  "hook_markup = hook1\<lparr>pw_virtual_path := ''/<img src=x onerror=alert(1)>''\<rparr>"

theorem dashboard_renders_names_verbatim_witness:
  "let w = snd (handleWebhook sv0 cfg0 ''/srv'' [] req1 hook_markup world0);
       s = \<lparr>ss_page = page0\<lparr>pg_token := ''token of root''\<rparr>, ss_world = w\<rparr>
   in \<exists>pre post. pg_rows (ss_page (snd (load show_int sv0 al0 s))) =
        pre @ ''<td class='' @ dq ''wrap'' @ ''>'' @ ''<img src=x onerror=alert(1)>'' @ ''</td>'' @ post"
proof -
  let ?inp = "accept_input sv0 cfg0 ''/srv'' hook_markup"
  let ?w = "with_transfer sv0 ?inp [] world0" and ?t = "new_transfer (sv_uuid sv0 ''file_transfers'') 0 ?inp"
  let ?s = "\<lparr>ss_page = page0\<lparr>pg_token := ''token of root''\<rparr>, ss_world = ?w\<rparr>"
  have root: "pw_path hook_markup = pw_path hook1" by (simp add: hook_markup_def)
  have run: "handleWebhook sv0 cfg0 ''/srv'' [] req1 hook_markup world0 = (Done ACCEPTED, ?w)"
  proof (rule accepted_run)
    show "actionable cfg0 ''/srv'' hook_markup"
      unfolding actionable_def root hook1_root by (simp add: hook_markup_def hook1_def SFTPGO_STATUS_OK_def)
  qed (simp_all add: dto_valid_def hook_markup_def hook1_def world0_def)
  have name: "ft_filename ?t = ''<img src=x onerror=alert(1)>''"
    by (simp add: new_transfer_def pending_input_def hook_markup_def basename_def)
  have rows: "w_transfers ?w = [?t]" by (simp add: with_transfer_def world0_def Let_def)
  have list: "get_transfers sv0 al0 (bearer (ss_page ?s)) \<lparr>lq_status = pg_status (ss_page ?s), lq_limit = 50, lq_offset = 0\<rparr> (ss_world ?s) =
      (Done \<lparr>pt_items = [?t], pt_total = 1, pt_limit = 50, pt_offset = 0\<rparr>, ?w)"
    by (simp add: get_transfers_def guarded_run bearer_def al0_def list_query_valid_def READERS_def page0_def jwt_validate_def
        transfers_list_def scoped_def act_defs rls_rows_def rls_visible_def rows list_page_def order_desc_def)
  have "?t \<in> set (pt_items \<lparr>pt_items = [?t], pt_total = 1, pt_limit = 50, pt_offset = 0\<rparr>)" by simp
  from dashboard_renders_names_verbatim[OF list this, THEN conjunct1, of show_int] show ?thesis
    unfolding Let_def run snd_conv name .
qed

end
