(* ===== verification/Spec2Isabelle.thy ===== *)
theory Spec2Isabelle
  imports Threads Progress Base64 Routing Environment Schema Bootstrap Wiring Health Admin_Ui
begin

text \<open>
  \<^bold>\<open>A verification of BasketShared, the orchestrator of managed file transfers.\<close>

  \<^bold>\<open>The program.\<close> An SFTP server (SFTPGo) calls a webhook of the NestJS service when a user has uploaded a file. The
  service (all paths below are under \<^verbatim>\<open>src/nestjs-app/src/\<close>) checks the shared secret and the payload, computes an
  idempotency key, and writes a transfer row together with an outbox event in one transaction. A timer relays
  the outbox to a BullMQ queue; a worker takes the job, runs the file through the processing pipeline (size,
  quota, virus scan, content type), optionally encrypts it under a fresh data key, uploads it to the S3 store
  under the bucket and key that the routing rules give, verifies the ETag, marks the row, records the tenant's
  usage and publishes an event to Kafka and to the tenant's subscribers. Failed jobs are retried and
  dead-lettered; further timers re-drive stuck rows and delete old ones. A management API (list, show,
  download, retry) works for users with roles under row-level security of their tenant, and a dashboard page
  uses it. The state shared by all of this is the database, the queues, the object store and the metrics.

  \<^bold>\<open>How it is modelled.\<close>
  \<^item> The shared state is the record \<open>world\<close> (\<open>Data_Model\<close>): the tables as lists of rows (\<open>Tables\<close>), the queues, the
    buckets and objects, the metrics, what was sent to the outside, the clock and the busy flags.
  \<^item> An \<^verbatim>\<open>async\<close> function is an action (\<open>Effects\<close>): from a state to an outcome (a value, a thrown error, or the death of
    the process) and a state. \<^verbatim>\<open>try\<close>/\<^verbatim>\<open>catch\<close>/\<^verbatim>\<open>finally\<close>, loops and transactions are combinators; a transaction that does not
    commit leaves the state as it was.
  \<^item> Every awaited call of a service goes through \<open>call sv c\<close>, where \<open>sv\<close> (\<open>Services\<close>) says for each call whether
    it succeeds, throws before or after its effect, or whether the process dies before or after it. What the outside
    answers (file contents, the scanner's reply, hashes, the cipher's keystream and tag, random bytes, UUIDs) are
    fields of \<open>sv\<close> too, so a property for all \<open>sv\<close> holds for all faults and all answers. Documented behaviour that
    a property needs is a named hypothesis (\<open>crypto_sizes\<close>, \<open>good_file\<close>, \<open>healthy\<close>, the health service of terminus)
    and each such property is applied to a concrete installation (\<open>sv0\<close>, \<open>cfg0\<close>, \<open>world0\<close>) by its witness.
  \<^item> Strings are lists of code points up to U+00FF, as HOL's characters are; a JSON escape above it is refused by
    the model's parser. Sizes, counts and times are integers: PostgreSQL's bigint columns and JavaScript's safe
    integers are not exceeded by byte counts. Node's 32-bit lengths on the wire of clamd are kept at their width.
    An object used as a map (\<^verbatim>\<open>TENANT_MAP\<close>) is looked up by own properties only.

  \<^bold>\<open>Theories and sources.\<close>
  \<^item> \<open>Prelude\<close>: JavaScript's strings, options, results; the shared lemmas and named collections.
    \<open>Js_Number\<close>, \<open>Json\<close>, \<open>Base64\<close>, \<open>Paths\<close>: \<^verbatim>\<open>Number(s)\<close>, \<^verbatim>\<open>JSON\<close>, \<^verbatim>\<open>Buffer\<close> and \<^verbatim>\<open>node:path\<close> as the sources use them, with the
    round trips of JSON and of base64.
  \<^item> \<open>Config\<close>, \<open>Environment\<close>: \<^verbatim>\<open>config/configuration.ts\<close> (the factory) and \<^verbatim>\<open>config/env.validation.ts\<close> (file secrets, the
    contract of each variable, the validation hook): what is accepted is in bounds (\<open>validated_config_in_bounds\<close>).
  \<^item> \<open>Repository\<close>, \<open>Outbox\<close>, \<open>Quota\<close>, \<open>Telemetry\<close>: \<^verbatim>\<open>ingestion/file-transfer.repository.ts\<close>, \<^verbatim>\<open>outbox/\<close>, \<^verbatim>\<open>tenancy/\<close>, \<^verbatim>\<open>quota/\<close>,
    \<^verbatim>\<open>metrics/\<close>: atomic creation, at-least-once publication, exact metering.
  \<^item> \<open>Ingestion\<close>: \<^verbatim>\<open>ingestion/guards/\<close>, the webhook's DTO, \<^verbatim>\<open>ingestion.service.ts\<close> and its controller: authentication,
    containment of the path in the data root, idempotence.
  \<^item> \<open>Routing\<close>, \<open>Clamd\<close>, \<open>Pipeline\<close>, \<open>Crypto\<close>, \<open>Storage\<close>, \<open>Events\<close>: \<^verbatim>\<open>routing.service.ts\<close>, the INSTREAM client as a state
    machine over socket events, the four steps and their runner, the envelope encryption over arbitrary chunks,
    the facade of the store, and the fan-out of events with the signed deliveries.
  \<^item> \<open>Processor\<close>, \<open>Worker\<close>, \<open>Outcomes\<close>: \<^verbatim>\<open>ingestion.processor.ts\<close>: the whole job handler and failure handler, inside
    BullMQ's documented counting of attempts (\<open>settle_job\<close>): what SUCCESS implies, what a job may touch, how
    each branch ends, and the runs in which the code departs from its documentation.
  \<^item> \<open>Access\<close>, \<open>Management\<close>: \<^verbatim>\<open>auth/\<close>, \<^verbatim>\<open>ingestion/transfers.*\<close>, the subscription and usage routes: roles, tenant isolation.
  \<^item> \<open>Maintenance\<close>, \<open>Health\<close>: recovery, retention, dead letters, alerts, the exception filter, the probes.
  \<^item> \<open>Schema\<close>: \<^verbatim>\<open>database/migrations/\<close> against the entities. \<open>Bootstrap\<close>: the options the start-up computes (\<^verbatim>\<open>main.ts\<close>,
    \<^verbatim>\<open>tracing.ts\<close>, \<^verbatim>\<open>database/\<close>, the S3 client). \<open>Wiring\<close>: every module and constructor, and that the injector resolves them.
  \<^item> \<open>Admin_Ui\<close>: the script of the dashboard page, run against the modelled routes.
  \<^item> \<open>Lifecycle\<close>: all handlers as steps of one system, in any order and each under its own faults, with the passing of
    time and restarts: the invariant of every reachable state (\<open>system_invariant\<close>), and that retries end.
  \<^item> \<open>Refinement\<close>: a board with the status of each transfer is the abstract specification; the system simulates it.
  \<^item> \<open>Concurrency\<close>: the job handler cut at its awaits, and the interleaving in which two runs of one transfer lose the
    file's key. \<open>Threads\<close>: the sweep and the relay cut at theirs. Each alone is the handler (\<open>stages_are_the_handlers\<close>);
    any number of jobs, sweeps and relays interleave with each other and with every other handler and the invariant
    still holds (\<open>concurrent_invariant\<close>); and the interleaving in which a sweep overwrites a finished transfer.
  \<^item> \<open>Progress\<close>: rounds of restart, waiting, sweep and work, made of the system's own steps, bring every transfer of
    every reachable state to an end.
  \<^item> This theory: the way of a file from the webhook through the relay and the worker to the download.

  \<^bold>\<open>Interfaces.\<close> The contracts between the components are locales: \<open>row_store\<close> (a table with a key), \<open>row_patch\<close> (an update
  of a transfer row), \<open>processing_step\<close> (a step of the pipeline), \<open>job_frame\<close> (a part of the state a job leaves alone),
  \<open>lawful\<close> (what every handler keeps), \<open>invariant_of\<close> and \<open>simulation\<close> (induction over runs), \<open>falling\<close> (rounds
  under which a measure falls). Each is interpreted on
  the definitions of the code in the theory that provides them.

  \<^bold>\<open>Bounds and fuel.\<close> The JSON parser has fuel for the depth of its calls, two for each character and two more;
  \<open>parse_fuel\<close> proves that more fuel never changes the result. A job makes at most seven stages, and
  \<open>staged_run\<close> proves that seven are enough from every state; a sweep makes at most two more than its batch size, a
  relay two for each event of its batch and two more. The rounds of recovery are as many as there are rows, since
  each settles at least one open transfer. The attempts of a job are driven for as many
  rounds as it has attempts left, and \<open>retries_terminate\<close> proves that the job is then settled. Every other
  recursion is structural or has a termination proof.

  \<^bold>\<open>Granularity.\<close> In \<open>Lifecycle\<close> a handler is one atomic step that may stop at any of its awaits by a fault; in
  \<open>Threads\<close> the worker's handler, the sweep and the relay are several steps, one for each await on shared state, while the
  other handlers (webhook, purge, deliveries, the routes) stay atomic; a thread may also die between two steps. The reads of one preparation of a file are one stage: they change nothing.

  \<^bold>\<open>Not modelled.\<close> The static markup and style of the dashboard and the route that serves it; the Swagger document; log
  messages and trace spans; when timers and cron expressions fire (the model lets them fire at any time); the
  setting of the worker's concurrency (any number of runs is allowed); the shape of validation error messages; the
  internals of the libraries (NestJS, TypeORM, BullMQ, the AWS SDK, bcrypt, JWT, terminus), which are parameters or
  have their documented behaviour written out; the deployment files and the SFTP server.

  \<^bold>\<open>Where the code departs from its intent.\<close> Proved as theorems: a late error overwrites SUCCESS, relayed jobs have no
  attempts, an empty tenant sees all tenants, two different uploads can share an idempotency key, an overlapping second
  run loses the data key, a sweep overwrites a transfer that finished after its query, the quota can be exceeded by concurrent uploads, the in-flight gauge can leak, what is
  validated is not always what is read, migrations ignore secret files, and the dashboard renders names as markup.
\<close>

section \<open>From the upload to the download\<close>

lemma route_key_not_empty: "rt_key (route cfg t) \<noteq> []"
  by (simp add: route_def route_resolve_def Let_def)

text \<open>What the user who may see a row finds after a run of its job.\<close>

lemma seen_after_run:
  assumes "find_transfer (job_id job) w = Some t" "w1 = snd (process_job sv cfg cs job w)"
    and "find_transfer (job_id job) w1 = Some t'" "transfers_ok w" "rls_visible (setting_of user) t" "healthy sv'"
  shows "getById sv' (job_id job) user w1 = (Done t', w1)" "ft_filename t' = ft_filename t"
proof -
  have ok1: "transfers_ok w1" unfolding assms(2) by (rule keepsD[OF keeps_ok_process assms(4)])
  have law: "map ident (w_transfers w1) = map ident (w_transfers w)"
    using job_law_process[of job w sv cfg cs] unfolding assms(2) by (simp add: job_law_def)
  have "ident t' = ident t"
  proof -
    have "ident t' \<in> ident ` set (w_transfers w)"
      using assms(3) arg_cong[OF law, of set] by (auto dest!: row_find_SomeD)
    then obtain x where x: "ident t' = ident x" "x \<in> set (w_transfers w)" by (rule imageE)
    then have "ft_id x = job_id job" using assms(3) by (auto simp: ident_def dest!: row_find_SomeD)
    then have "x = t" using row_find_distinct[of ft_id _ x] x(2) assms(1,4) by (auto simp: transfers_ok_def)
    then show ?thesis using x(1) by simp
  qed
  then have cols: "ft_tenantId t' = ft_tenantId t" "ft_filename t' = ft_filename t" by (simp_all add: ident_def)
  show "ft_filename t' = ft_filename t" by (rule cols(2))
  have vis: "rls_visible (setting_of user) t'"
    using assms(5) cols by (simp add: rls_visible_def split: option.splits)
  have mem: "t' \<in> set (w_transfers w1)" "ft_id t' = job_id job" using assms(3) by (auto dest: row_find_SomeD)
  have "rls_find (setting_of user) (job_id job) w1 = Some t'"
    using row_find_distinct[of ft_id "rls_rows (setting_of user) w1" t'] ok1 mem vis
    by (simp add: rls_find_def rls_rows_def transfers_ok_def distinct_map_filter)
  then show "getById sv' (job_id job) user w1 = (Done t', w1)"
    unfolding getById_def
    by (simp add: bnd_def[of "scoped _ _ _"] healthy_scoped[OF assms(6)] gets_def healthy_call[OF assms(6)] ret_def)
qed

text \<open>The download of what a run of the worker left.\<close>

lemma download_after_run:
  assumes "find_transfer (job_id job) w = Some t" "ft_status t \<noteq> SUCCESS"
    and "w1 = snd (process_job sv cfg cs job w)" "find_transfer (job_id job) w1 = Some t'" "ft_status t' = SUCCESS"
    and "transfers_ok w" "store_ok w" "crypto_sizes sv" "crypto_init enc = Inr cs"
    and "healthy sv'" "sv_keystream sv' = sv_keystream sv" "sv_tag sv' = sv_tag sv"
    and "rls_visible (setting_of user) t"
  shows "download sv' cs (job_id job) user w1 =
     (Done \<lparr>dr_stream = (concat (sv_chunks sv C_Upload (ft_sourcePath t)), None),
            dr_filename = ft_filename t, dr_contentType = mime_type (ft_filename t)\<rparr>, w1)"
proof -
  let ?b = "rt_bucket (route cfg t)" and ?k = "rt_key (route cfg t)"
  have id: "ft_id t = job_id job" using assms(1) by (auto dest: row_find_SomeD)
  have "backed sv cfg cs t w t' w1"
    using runTransfer_backed[OF assms(1,2), of sv cfg cs] assms(3-5) id
    by (simp add: success_backed_def process_job_runTransfer)
  then obtain pr where pr: "prepared_ok sv cfg cs t pr w" and t': "ft_bucket t' = ?b" "ft_objectKey t' = Some ?k"
      "ft_wrappedDek t' = pr_wrappedDek pr" "ft_encrypted t' = (pr_wrappedDek pr \<noteq> None)"
    and obj: "w_objects w1 (?b, ?k) = Some \<lparr>so_body = up_body (pr_upload pr), so_contentType = Some (mime_type (ft_filename t))\<rparr>"
    by (auto simp: backed_def backed_by_def)
  have get: "getById sv' (job_id job) user w1 = (Done t', w1)" and cols: "ft_filename t' = ft_filename t"
    using seen_after_run[OF assms(1,3,4,6,13,10)] by simp_all
  have bucket: "?b \<in> set (w_buckets w1)"
    using keepsD[OF store_process assms(7), of sv cfg cs job] obj unfolding assms(3) by (auto simp: store_ok_def)
  have fetch: "getObject sv' ?b ?k w1 = (Done (up_body (pr_upload pr), Some (mime_type (ft_filename t))), w1)"
    using assms(10) obj bucket by (simp add: getObject_def bnd_def get_object_def ret_def)
  note run = download_def bnd_def[of "getById _ _ _"] bnd_def[of "getObject _ _ _"] get fetch t' assms(5) cols truthy_def
    route_key_not_empty ret_def
  show ?thesis
  proof (cases "pr_wrappedDek pr")
    case None
    then show ?thesis using pr by (simp add: run prepared_ok_def Let_def split: if_splits)
  next
    case (Some wrapped)
    obtain st where st: "createEncryptStream sv cs = Inr (st, wrapped)"
      "up_body (pr_upload pr) = enc_run sv st (sv_chunks sv C_Upload (ft_sourcePath t))"
      using pr Some by (auto simp: prepared_ok_def split: if_splits)
    have "cs_enabled cs" using pr Some by (auto simp: prepared_ok_def split: if_splits)
    then obtain kek where kek: "cs_kek cs = Some kek" "length kek = 32"
      using crypto_starts_with_usable_key[OF assms(9,8)] by auto
    from envelope_opens[OF assms(8) kek st(1), of "[up_body (pr_upload pr)]" "sv_chunks sv C_Upload (ft_sourcePath t)"] st(2)
    obtain ds where "createDecryptStream sv' cs wrapped = Inr ds"
      "dec_run sv' ds [up_body (pr_upload pr)] = (concat (sv_chunks sv C_Upload (ft_sourcePath t)), None)"
      unfolding decrypt_services[OF assms(11,12)] by auto
    moreover have "wrapped \<noteq> []" using prepared_truthy[OF pr] Some by (simp add: truthy_def)
    ultimately show ?thesis using Some by (simp add: run Let_def)
  qed
qed

text \<open>The row and the event that an accepted webhook writes, and the job that the next relay publishes for it.\<close>

lemma webhook_ACCEPTED:
  assumes "handleWebhook sv cfg cwd carrier req p w = (Done ACCEPTED, w')"
  shows "w' = with_transfer sv (accept_input sv cfg cwd p) carrier w" "fresh_for sv (accept_input sv cfg cwd p) w"
proof -
  have "accept sv cfg cwd carrier p w = (Done ACCEPTED, w')"
    using assms by (auto simp: handleWebhook_def seq_Done_iff webhook_canActivate_def Let_def throw_def ret_def
        split: option.splits if_splits)
  from accept_ACCEPTED[OF this] show "w' = with_transfer sv (accept_input sv cfg cwd p) carrier w"
    "fresh_for sv (accept_input sv cfg cwd p) w" by simp_all
qed

lemma small_backlog: "length (backlog w) \<le> RELAY_BATCH \<Longrightarrow> set (pending_events w) = set (backlog w)"
  by (simp add: pending_events_def)

lemma relayed_after_webhook:
  assumes "w1 = with_transfer sv inp carrier w" "fresh_for sv inp w" "outbox_ok w" "\<not> w_relaying w"
    and "length (backlog w) < RELAY_BATCH" "healthy sv2"
  shows "job_of (new_event (sv_uuid sv ''outbox_events'') (w_now w) (new_transfer (sv_uuid sv ''file_transfers'') (w_now w) inp) carrier)
    \<in> set (w_queue (snd (relay sv2 w1)))"
proof -
  let ?e = "new_event (sv_uuid sv ''outbox_events'') (w_now w) (new_transfer (sv_uuid sv ''file_transfers'') (w_now w) inp) carrier"
  have "backlog w1 = backlog w @ [?e]" by (simp add: assms(1) with_transfer_def Let_def new_event_def)
  then have e: "?e \<in> set (pending_events w1)" using assms(5) small_backlog[of w1] by simp
  have "outbox_ok w1" unfolding assms(1) by (rule with_transfer_ok(2)[OF assms(2,3)])
  then have "relay sv2 w1 = (Done (), publish_all (pending_events w1) w1)"
    using assms(1,4) by (intro relay_healthy[OF assms(6)]) (simp_all add: with_transfer_def Let_def outbox_ok_def)
  then show ?thesis using e by (simp add: publish_all_def)
qed

lemma frame_relay_store: "frame (\<lambda>w. (w_objects w, w_buckets w)) (relay sv)" "frame w_usage (relay sv)"
  unfolding relay_def publish_event_def queue_add_def by (intro eff frame_modify; simp add: upd_outbox_def)+

text \<open>The worker's run of a good file's job, whatever else is queued, and the download of what it left.\<close>

lemma work_then_download:
  assumes "find_transfer (job_id job) w = Some t" "ft_status t \<noteq> SUCCESS" "transfers_ok w" "store_ok w"
    and "good_file sv cfg cs t sz bytes w" "healthy sv" "crypto_sizes sv" "crypto_init enc = Inr cs"
    and "healthy sv'" "sv_keystream sv' = sv_keystream sv" "sv_tag sv' = sv_tag sv" "rls_visible (setting_of user) t"
    and "w3 = settle_job sv sv cfg cs job (w\<lparr>w_queue := q\<rparr>)"
  shows "download sv' cs (job_id job) user w3 =
    (Done \<lparr>dr_stream = (bytes, None), dr_filename = ft_filename t, dr_contentType = mime_type (ft_filename t)\<rparr>, w3)"
proof -
  let ?u = "w\<lparr>w_queue := q\<rparr>"
  have u: "find_transfer (job_id job) ?u = Some t" "transfers_ok ?u" "store_ok ?u" "good_file sv cfg cs t sz bytes ?u"
    using assms(1,3-5) good_file_cong[of ?u w] by (simp_all add: transfers_ok_def store_ok_def)
  obtain v t' where v: "process_job sv cfg cs job ?u = (Done (), v)" "find_transfer (job_id job) v = Some t'" "ft_status t' = SUCCESS"
    using good_run[OF assms(6) u(1) assms(2) u(4)] by blast
  have v': "v = snd (process_job sv cfg cs job ?u)" using v(1) by simp
  have "w3 = v" using v(1) by (simp add: assms(13) settle_job_def)
  moreover have "concat (sv_chunks sv C_Upload (ft_sourcePath t)) = bytes" using u(4) by (simp add: good_file_def)
  ultimately show ?thesis
    using download_after_run[OF u(1) assms(2) v' v(2,3) u(2,3) assms(7-12)] by simp
qed

text \<open>C8: What was uploaded is what is downloaded: after a run of the worker (under any faults) left a row
  SUCCESS, a user who may see the row gets from the download the bytes of the source file as the
  upload read them, decrypted where they were stored encrypted, with no error, under the file's name
  and content type. (The cipher of the later request is that of the upload, the master key has its
  32 bytes, and node's cipher produces tags and random values of the documented sizes.)\<close>

theorem download_returns_the_file:
  assumes "find_transfer (job_id job) w = Some t" "ft_status t \<noteq> SUCCESS"
    and "w1 = snd (process_job sv cfg cs job w)" "find_transfer (job_id job) w1 = Some t'" "ft_status t' = SUCCESS"
    and "transfers_ok w" "store_ok w" "crypto_sizes sv" "crypto_init enc = Inr cs"
    and "healthy sv'" "sv_keystream sv' = sv_keystream sv" "sv_tag sv' = sv_tag sv"
    and "rls_visible (setting_of user) t"
  shows "download sv' cs (job_id job) user w1 =
     (Done \<lparr>dr_stream = (concat (sv_chunks sv C_Upload (ft_sourcePath t)), None),
            dr_filename = ft_filename t, dr_contentType = mime_type (ft_filename t)\<rparr>, w1)"
  using assms by (rule download_after_run)

theorem download_returns_the_file_witness:
  "let w1 = snd (process_job sv0 cfg0 cs1 job1 world_t1) in
   fst (download sv0 cs1 (job_id job1) bob w1) =
     Done \<lparr>dr_stream = ([104, 105], None), dr_filename = ''q.csv'', dr_contentType = mime_type ''q.csv''\<rparr>"
proof -
  obtain w1 t' where run: "process_job sv0 cfg0 cs1 job1 world_t1 = (Done (), w1)"
    "find_transfer (job_id job1) w1 = Some t'" "ft_status t' = SUCCESS"
    by (rule sample_run[OF world_t1_good_encrypted])
  have "crypto_init \<lparr>enc_enabled = True, enc_kek = Some (base64_encode (replicate 32 5))\<rparr> = Inr cs1"
    using base64_encode_not_Nil[of "replicate 32 5"]
    by (simp add: crypto_init_def base64_decode_encode cs1_def)
  moreover have "transfers_ok world_t1" "store_ok world_t1" "rls_visible (setting_of bob) transfer1"
    by (simp_all add: transfers_ok_def world_t1_def row_wf_def transfer1_def store_ok_def world0_def rls_visible_def
        setting_of_def bob_def)
  moreover have "w1 = snd (process_job sv0 cfg0 cs1 job1 world_t1)" using run(1) by simp
  ultimately have "download sv0 cs1 (job_id job1) bob w1 =
      (Done \<lparr>dr_stream = (concat (sv_chunks sv0 C_Upload (ft_sourcePath transfer1)), None),
        dr_filename = ft_filename transfer1, dr_contentType = mime_type (ft_filename transfer1)\<rparr>, w1)"
    using download_returns_the_file[OF world_t1_row _ run(2,3) _ _ crypto_sizes_sv0 _ healthy_sv0 refl refl] by blast
  then show ?thesis using run(1) by (simp add: sv0_def transfer1_def Let_def)
qed

text \<open>C5: A file makes its way through the whole system: when a webhook was accepted in a reachable state, the relay
  (not busy, with less than a batch of events waiting) publishes a job for it, and the worker's run of that
  job, on a good file and with no call failing, leaves a transfer that an administrator and every user of the
  tenant that the uploader belongs to can download, under the name of the uploaded file, and gets exactly
  its bytes, whether they are stored encrypted or not.\<close>

theorem upload_to_download:
  assumes "reachable cfg cs cwd w" "store_ok w" "\<not> w_relaying w" "length (backlog w) < RELAY_BATCH"
    and "handleWebhook sv1 cfg cwd carrier req p w = (Done ACCEPTED, w1)"
    and "healthy sv2" "w2 = snd (relay sv2 w1)"
    and "healthy sv3" "crypto_sizes sv3" "crypto_init enc = Inr cs" "good_file sv3 cfg cs (last (w_transfers w1)) sz bytes w2"
    and "healthy sv4" "sv_keystream sv4 = sv_keystream sv3" "sv_tag sv4 = sv_tag sv3"
    and "ADMIN \<in> set (au_roles user) \<or> au_tenantId user = tenant_resolve (cfg_tenancy cfg) (pw_username p)"
  shows "\<exists>job\<in>set (w_queue w2). job_id job = sv_uuid sv1 ''file_transfers'' \<and>
     (\<forall>xs ys. w_queue w2 = xs @ job # ys \<longrightarrow>
       (let w3 = settle_job sv3 sv3 cfg cs job (w2\<lparr>w_queue := xs @ ys\<rparr>) in
        download sv4 cs (job_id job) user w3 =
          (Done \<lparr>dr_stream = (bytes, None), dr_filename = basename (pw_virtual_path p),
                 dr_contentType = mime_type (basename (pw_virtual_path p))\<rparr>, w3)))"
proof -
  let ?i = "sv_uuid sv1 ''file_transfers''" and ?inp = "accept_input sv1 cfg cwd p"
  define t where "t = new_transfer ?i (w_now w) ?inp"
  define job where "job = job_of (new_event (sv_uuid sv1 ''outbox_events'') (w_now w) t carrier)"
  note w1 = webhook_ACCEPTED[OF assms(5)]
  have inv: "outbox_ok w" "sys_inv cfg cwd w2"
  proof -
    have "reachable cfg cs cwd w1" using assms(1,5) step.Webhook by (metis reachable_step snd_conv)
    then have "reachable cfg cs cwd w2" unfolding assms(7) by (rule reachable_step) (rule step.Relay)
    then show "sys_inv cfg cwd w2" by (rule reachable_inv)
    show "outbox_ok w" using reachable_inv[OF assms(1)] by (simp add: sys_inv_def)
  qed
  have queued: "job \<in> set (w_queue w2)"
    unfolding job_def t_def assms(7) by (rule relayed_after_webhook[OF w1 inv(1) assms(3,4,6)])
  have i: "job_id job = ?i" by (simp add: job_def job_of_def mk_job_def new_event_def t_def new_transfer_def)
  have rows: "w_transfers w2 = w_transfers w @ [t]" "last (w_transfers w1) = t"
    using frameD[OF frame_relay(1), of sv2 w1] by (simp_all add: assms(7) w1(1) with_transfer_def Let_def t_def)
  have ok: "transfers_ok w2" using inv(2) by (simp add: sys_inv_def)
  have stored: "store_ok w2"
    using keepsD[OF store_frame[OF frame_relay_store(1)], of w1] assms(2)
    by (simp add: assms(7) w1(1) with_transfer_def Let_def store_ok_def)
  have row: "find_transfer (job_id job) w2 = Some t"
    using row_find_distinct[of ft_id "w_transfers w2" t] ok rows(1) by (simp add: i transfers_ok_def t_def new_transfer_def)
  have open_row: "ft_status t \<noteq> SUCCESS" by (simp add: t_def new_transfer_def)
  have vis: "rls_visible (setting_of user) t"
    using assms(15) by (auto simp: rls_visible_def setting_of_def t_def new_transfer_def pending_input_def)
  have name: "ft_filename t = basename (pw_virtual_path p)" by (simp add: t_def new_transfer_def pending_input_def)
  note work_then_download[OF row open_row ok stored assms(11)[unfolded rows(2)] assms(8-10,12-14) vis refl]
  then show ?thesis using queued i unfolding Let_def name by blast
qed

text \<open>Every file of the sample tenant is good in the sample installation.\<close>

lemma sample_file:
  assumes "ft_tenantId t = ft_tenantId transfer1" "w_usage w = []" "w_buckets w = [''landing'']"
  shows "good_file sv0 cfg0 cs1 t 2 [104, 105] w"
proof -
  have reply: "scan_reply sv0 x = scan_reply sv0 y" for x y by (simp add: scan_reply_def sv0_def)
  have "w_usage world_t1 = []" "w_buckets world_t1 = [''landing'']" by (simp_all add: world_t1_def world0_def)
  then show ?thesis
    using world_t1_good_encrypted assms reply[of "ft_sourcePath transfer1" "ft_sourcePath t"]
    by (auto simp: good_file_def admitted_def usage_of_def cs1_def) (simp_all add: sv0_def)
qed

theorem upload_to_download_witness:
  "\<exists>w3. download sv0 cs1 (sv_uuid sv0 ''file_transfers'') bob w3 =
     (Done \<lparr>dr_stream = ([104, 105], None), dr_filename = ''a.txt'', dr_contentType = mime_type ''a.txt''\<rparr>, w3)"
proof -
  let ?w = "world0\<lparr>w_buckets := [''landing'']\<rparr>" and ?inp = "accept_input sv0 cfg0 ''/srv'' hook1"
  let ?w1 = "with_transfer sv0 ?inp [] ?w"
  let ?w2 = "snd (relay sv0 ?w1)"
  have "reachable cfg0 cs1 ''/srv'' ?w" unfolding reachable_def initial_def by (rule exI[of _ ?w]) (simp add: world0_def)
  moreover have "store_ok ?w" "\<not> w_relaying ?w" "length (backlog ?w) < RELAY_BATCH"
    by (simp_all add: store_ok_def world0_def RELAY_BATCH_def)
  moreover have "handleWebhook sv0 cfg0 ''/srv'' [] req1 hook1 ?w = (Done ACCEPTED, ?w1)"
    by (rule accepted_run[OF hook1_actionable]) (simp_all add: dto_valid_def hook1_def world0_def)
  moreover have "crypto_init \<lparr>enc_enabled = True, enc_kek = Some (base64_encode (replicate 32 5))\<rparr> = Inr cs1"
    using base64_encode_not_Nil[of "replicate 32 5"]
    by (simp add: crypto_init_def base64_decode_encode cs1_def)
  moreover have "good_file sv0 cfg0 cs1 (last (w_transfers ?w1)) 2 [104, 105] ?w2"
  proof -
    let ?t = "last (w_transfers ?w1)"
    have fr: "w_usage ?w2 = []" "w_buckets ?w2 = [''landing'']"
      using frame_relay_store[of sv0, THEN frameD, of ?w1] by (simp_all add: with_transfer_def Let_def world0_def)
    have "ft_tenantId ?t = ft_tenantId transfer1"
      by (simp add: with_transfer_def Let_def new_transfer_def pending_input_def tenant_resolve_def hook1_def cfg0_def transfer1_def)
    then show ?thesis using fr by (intro sample_file) simp_all
  qed
  moreover have "ADMIN \<in> set (au_roles bob) \<or> au_tenantId bob = tenant_resolve (cfg_tenancy cfg0) (pw_username hook1)"
    by (simp add: bob_def tenant_resolve_def cfg0_def hook1_def)
  ultimately obtain job where job: "job \<in> set (w_queue ?w2)" "job_id job = sv_uuid sv0 ''file_transfers''"
    and run: "\<And>xs ys. w_queue ?w2 = xs @ job # ys \<Longrightarrow>
       (let w3 = settle_job sv0 sv0 cfg0 cs1 job (?w2\<lparr>w_queue := xs @ ys\<rparr>) in
        download sv0 cs1 (job_id job) bob w3 =
          (Done \<lparr>dr_stream = ([104, 105], None), dr_filename = basename (pw_virtual_path hook1),
                 dr_contentType = mime_type (basename (pw_virtual_path hook1))\<rparr>, w3))"
    using upload_to_download[OF _ _ _ _ _ healthy_sv0 refl healthy_sv0 crypto_sizes_sv0 _ _ healthy_sv0 refl refl] by blast
  have "basename (pw_virtual_path hook1) = ''a.txt''" by (simp add: hook1_def basename_def)
  moreover obtain xs ys where "w_queue ?w2 = xs @ job # ys" using job(1) by (meson split_list)
  ultimately show ?thesis using run[of xs ys] job(2) unfolding Let_def by metis
qed

end
